(* ===== verification/Prelude.thy ===== *)
theory Prelude
  imports Main "HOL-Library.Word"
begin

text \<open>
  Shared vocabulary of the S.M.A.R.T. monitor development.

  The theory names the types every component uses, declares the fact
  collections the components add their rewrite rules to, and proves the few
  generic facts about lists and options that more than one component needs.
  Nothing in it models a particular source file.
\<close>

named_theorems smart_simps \<open>defining equations and rewrite rules of the model\<close>
named_theorems smart_inv \<open>preservation of the invariants of the components\<close>

type_synonym attr_id = nat
type_synonym byte = "8 word"

section \<open>Lists updated by index\<close>

text \<open>
  C arrays of fixed size are lists; a write at an index is \<open>xs[i := v]\<close>.
  The two rules below are the form in which the component proofs use them.
\<close>

lemma nth_list_update_if:
  "i < length xs \<Longrightarrow> xs[i := v] ! j = (if i = j then v else xs ! j)"
  by (cases "i = j") simp_all

lemma sorted_wrt_less_distinct: "sorted_wrt (<) (xs :: nat list) \<Longrightarrow> distinct xs"
  by (simp add: strict_sorted_iff)

section \<open>Results of partial lookups\<close>

definition opt_default :: "'a \<Rightarrow> 'a option \<Rightarrow> 'a" where
  "opt_default d r = (case r of None \<Rightarrow> d | Some x \<Rightarrow> x)"

lemma opt_default_simps [simp]:
  "opt_default d None = d" "opt_default d (Some x) = x"
  by (simp_all add: opt_default_def)

end
