(* ===== verification/Hardware.thy ===== *)
theory Hardware
  imports Prelude
begin

text \<open>
  The constants the program takes from headers outside the repository
  (\<open>hardware/dataCarrier/ATA3Std.h\<close>, \<open>SMARTattributeNames.h\<close>,
  \<open>NVMe/NVME_SMART_attr.h\<close>, \<open>hardware/bus/busType.h\<close>).

  They are parameters of the model: every operation that uses one takes the
  record it belongs to as an argument. The instances \<open>std_sizes\<close>,
  \<open>std_ata\<close> and \<open>std_nvme\<close> are concrete values for the witnesses;
  their ATA numbers are the ones the repository itself documents in
  \<open>SMARTmonitorBase::setDfltSMARTattrDef\<close>.
\<close>

text \<open>\<open>enum TU_Bln361095::hardware::bus::Type\<close>: the members the source names.\<close>

datatype bus = NVMe | SATA | USB | OtherBus

record hw_sizes =
  numSNbytes :: nat
  numFWbytes :: nat
  numModelBytes :: nat
  numSATA :: nat
  numNVMe :: nat
  rawB_ATA :: nat
  rawB_NVMe :: nat
  rawB_NVMe1st :: nat
  rawB_NVMeTemp :: nat
  dfltNrmlzd :: nat
  gtrDfltNrmlzd :: nat

text \<open>
  \<open>TU_Bln361095numMaxATA_SMART_IDsPlus1\<close> is the size of the arrays with
  one slot per ATA attribute ID, slot 0 unused.
\<close>

definition numMaxATAplus1 :: "hw_sizes \<Rightarrow> nat" where
  "numMaxATAplus1 h = numSATA h + 1"

definition numNVMePlus1 :: "hw_sizes \<Rightarrow> nat" where
  "numNVMePlus1 h = numNVMe h + 1"

record ata_ids =
  ReadErrorRate :: attr_id
  SpinUpTime :: attr_id
  StrtStpCnt :: attr_id
  ReallocSectorsCnt :: attr_id
  PowerOnTime :: attr_id
  SpinUpRetryCnt :: attr_id
  RecalibRetriesOrCalibrRetryCnt :: attr_id
  PwrCycleCnt :: attr_id
  GiB_Erased :: attr_id
  SSDprogFailCnt :: attr_id
  SSDeraseFailCnt :: attr_id
  PwrLossProtectionFailure :: attr_id
  EraseFailCnt :: attr_id
  EndToEndError :: attr_id
  ReportedUncorrError :: attr_id
  CmdTimeout :: attr_id
  HighFlyWrites :: attr_id
  TempDiffOrAirflowTemp :: attr_id
  G_senseErrorCnt :: attr_id
  DevTemp :: attr_id
  HW_ECC_Recovered :: attr_id
  ReallocEvtCnt :: attr_id
  CurrPendSecCnt :: attr_id
  UncorrSecCnt :: attr_id
  UDMA_CRCerrorCnt :: attr_id
  MultiZoneErrorRate :: attr_id
  SoftReadErrorRateOrTACnterDetected :: attr_id
  ShockDuringWrite :: attr_id
  AvgEraseCntAndMaxEraseCnt :: attr_id
  HeadFlyingHours :: attr_id
  TotalDataWritten :: attr_id
  TotalDataRead :: attr_id
  FreeFallEvtCnt :: attr_id

record nvme_ids =
  CriticalWarning :: attr_id
  CompositeTemperature :: attr_id
  AvailableSpare :: attr_id
  AvailableSpareThreshold :: attr_id
  PercentageUsed :: attr_id
  NV_TotalDataRead :: attr_id
  NV_TotalDataWritten :: attr_id
  HostReadCmds :: attr_id
  HostWriteCmds :: attr_id
  ControllerBusyTime :: attr_id
  PowerCycle :: attr_id
  PowerOnHours :: attr_id
  UnsafeShutdowns :: attr_id
  MediaErrors :: attr_id
  ErrorInfoLogEntryCount :: attr_id

definition std_sizes :: hw_sizes where [smart_simps]:
  "std_sizes = \<lparr>numSNbytes = 20, numFWbytes = 8, numModelBytes = 40,
     numSATA = 255, numNVMe = 15, rawB_ATA = 6, rawB_NVMe = 16,
     rawB_NVMe1st = 1, rawB_NVMeTemp = 2, dfltNrmlzd = 100, gtrDfltNrmlzd = 200\<rparr>"

definition std_ata :: ata_ids where [smart_simps]:
  "std_ata = \<lparr>ReadErrorRate = 1, SpinUpTime = 3, StrtStpCnt = 4,
     ReallocSectorsCnt = 5, PowerOnTime = 9, SpinUpRetryCnt = 10,
     RecalibRetriesOrCalibrRetryCnt = 11, PwrCycleCnt = 12, GiB_Erased = 100,
     SSDprogFailCnt = 171, SSDeraseFailCnt = 172,
     PwrLossProtectionFailure = 175, EraseFailCnt = 176, EndToEndError = 184,
     ReportedUncorrError = 187, CmdTimeout = 188, HighFlyWrites = 189,
     TempDiffOrAirflowTemp = 190, G_senseErrorCnt = 191, DevTemp = 194,
     HW_ECC_Recovered = 195, ReallocEvtCnt = 196, CurrPendSecCnt = 197,
     UncorrSecCnt = 198, UDMA_CRCerrorCnt = 199, MultiZoneErrorRate = 200,
     SoftReadErrorRateOrTACnterDetected = 201, ShockDuringWrite = 212,
     AvgEraseCntAndMaxEraseCnt = 234, HeadFlyingHours = 240,
     TotalDataWritten = 241, TotalDataRead = 242, FreeFallEvtCnt = 254\<rparr>"

definition std_nvme :: nvme_ids where [smart_simps]:
  "std_nvme = \<lparr>CriticalWarning = 1, CompositeTemperature = 2,
     AvailableSpare = 3, AvailableSpareThreshold = 4, PercentageUsed = 5,
     NV_TotalDataRead = 6, NV_TotalDataWritten = 7, HostReadCmds = 8,
     HostWriteCmds = 9, ControllerBusyTime = 10, PowerCycle = 11,
     PowerOnHours = 12, UnsafeShutdowns = 13, MediaErrors = 14,
     ErrorInfoLogEntryCount = 15\<rparr>"

end
