(* ===== verification/CString.thy ===== *)
theory CString
  imports Prelude "HOL-Library.List_Lexorder" "HOL-Library.Product_Lexorder"
begin

text \<open>
  C character arrays and the functions of \<open>string.h\<close> the source calls,
  and the ordered containers of the C++ library.

  A character array is the list of its elements; the string it holds ends at
  the first NUL. A list that ends without NUL is read as if a NUL followed, as
  for a string literal. The locale \<open>strict_weak_order\<close> is the requirement
  \<open>std::set\<close> and \<open>std::map\<close> make of their comparison; what they
  promise in return is proved in it once, for the sorted list
  \<open>set_insert\<close> builds.
\<close>

section \<open>Character arrays\<close>

definition NUL :: char where "NUL = CHR 0x00"

definition cstr :: "char list \<Rightarrow> string" where
  "cstr a = takeWhile (\<lambda>c. c \<noteq> NUL) a"

lemma cstr_no_NUL [simp]: "NUL \<notin> set s \<Longrightarrow> cstr s = s"
  by (auto simp: cstr_def takeWhile_eq_all_conv)

lemma cstr_append_NUL [simp]: "cstr (s @ NUL # r) = cstr s"
  by (induction s) (simp_all add: cstr_def)

lemma cstr_append: "NUL \<notin> set s \<Longrightarrow> cstr (s @ r) = s @ cstr r"
  by (induction s) (auto simp: cstr_def)

lemma NUL_notin_cstr [simp]: "NUL \<notin> set (cstr a)"
  using set_takeWhileD [of NUL "\<lambda>c. c \<noteq> NUL" a] by (auto simp: cstr_def)

lemma cstr_idem [simp]: "cstr (cstr a) = cstr a"
  by simp

text \<open>
  \<open>strncpy(dst, src, n)\<close> copies at most \<open>n\<close> characters of the
  string and fills up with NUL; what lies beyond \<open>n\<close> is not touched.
\<close>

definition strncpy :: "nat \<Rightarrow> char list \<Rightarrow> char list \<Rightarrow> char list" where
  "strncpy n src dst =
     (let s = take n (cstr src) in s @ replicate (n - length s) NUL @ drop n dst)"

text \<open>\<open>strcpy\<close> writes the string and its NUL, whatever the size of the array.\<close>

definition strcpy :: "char list \<Rightarrow> char list \<Rightarrow> char list" where
  "strcpy src dst = cstr src @ NUL # drop (length (cstr src) + 1) dst"

fun strncmp :: "nat \<Rightarrow> char list \<Rightarrow> char list \<Rightarrow> int" where
  "strncmp 0 _ _ = 0"
| "strncmp (Suc n) [] [] = 0"
| "strncmp (Suc n) [] (b # bs) = (if b = NUL then 0 else - 1)"
| "strncmp (Suc n) (a # as) [] = (if a = NUL then 0 else 1)"
| "strncmp (Suc n) (a # as) (b # bs) =
     (if a = b then (if a = NUL then 0 else strncmp n as bs)
      else if (of_char a :: nat) < of_char b then - 1 else 1)"

definition strcmp :: "char list \<Rightarrow> char list \<Rightarrow> int" where
  "strcmp a b = strncmp (Suc (max (length a) (length b))) a b"

text \<open>The key \<open>strncmp\<close> compares: the codes of the characters it looks at.\<close>

definition str_key :: "nat \<Rightarrow> char list \<Rightarrow> nat list" where
  "str_key n a = map of_char (take n (cstr a))"

lemma of_char_NUL [simp]: "(of_char NUL :: nat) = 0"
  by (simp add: NUL_def)

lemma of_char_pos: "c \<noteq> NUL \<Longrightarrow> 0 < (of_char c :: nat)"
  by (metis neq0_conv of_char_NUL of_char_eq_iff)

lemma str_key_simps [simp]:
  "str_key 0 a = []" "str_key n [] = []"
  "str_key (Suc n) (c # a) = (if c = NUL then [] else of_char c # str_key n a)"
  by (simp_all add: str_key_def cstr_def)

lemma strncmp_key:
  "strncmp n a b = (if str_key n a = str_key n b then 0
                    else if str_key n a < str_key n b then - 1 else 1)"
  by (induction n a b rule: strncmp.induct) (auto simp: of_char_pos)

lemma strncmp_less_iff: "strncmp n a b < 0 \<longleftrightarrow> str_key n a < str_key n b"
  by (auto simp: strncmp_key)

lemma strncmp_eq_iff: "strncmp n a b = 0 \<longleftrightarrow> str_key n a = str_key n b"
  by (auto simp: strncmp_key)

lemma str_key_strncpy:
  "n \<le> m \<Longrightarrow> str_key n (strncpy m src dst) = str_key n src"
proof -
  assume nm: "n \<le> m"
  show ?thesis
  proof (cases "length (cstr src) < m")
    case True
    then have "strncpy m src dst = cstr src @ NUL # replicate (m - length (cstr src) - 1) NUL @ drop m dst"
      by (simp add: strncpy_def Let_def flip: replicate_Suc append_Cons)
    then show ?thesis by (simp add: str_key_def)
  next
    case False
    have "take n (cstr (strncpy m src dst)) = take n (cstr src)"
    proof -
      have t: "strncpy m src dst = take m (cstr src) @ drop m dst"
        using False by (simp add: strncpy_def Let_def)
      have "NUL \<notin> set (take m (cstr src))"
        using NUL_notin_cstr in_set_takeD by metis
      then have "cstr (strncpy m src dst) = take m (cstr src) @ cstr (drop m dst)"
        unfolding t by (rule cstr_append)
      then show ?thesis using nm False by simp
    qed
    then show ?thesis by (simp add: str_key_def)
  qed
qed

lemma length_strncpy [simp]:
  "length dst = m \<Longrightarrow> n \<le> m \<Longrightarrow> length (strncpy n src dst) = m"
  by (simp add: strncpy_def Let_def)

text \<open>\<open>strcmp\<close> looks at the whole string.\<close>

lemma strcmp_key:
  "strcmp a b = (if cstr a = cstr b then 0
     else if map of_char (cstr a) < (map of_char (cstr b) :: nat list) then - 1 else 1)"
proof -
  have k: "str_key n s = map of_char (cstr s)" if "length s \<le> n" for n s
  proof -
    have "length (cstr s) \<le> n"
      using that length_takeWhile_le [of "\<lambda>c. c \<noteq> NUL" s] by (simp add: cstr_def)
    then show ?thesis by (simp add: str_key_def)
  qed
  have i: "inj (of_char :: char \<Rightarrow> nat)" by (simp add: inj_on_def)
  show ?thesis
    by (simp add: strcmp_def strncmp_key k inj_map_eq_map [OF i] del: str_key_simps)
qed

section \<open>Ordered containers\<close>

text \<open>
  \<open>std::set\<close> keeps its elements in the order of its comparison and does
  not insert an element that is equivalent to one it has.
\<close>

fun set_insert :: "('a \<Rightarrow> 'a \<Rightarrow> bool) \<Rightarrow> 'a \<Rightarrow> 'a list \<Rightarrow> 'a list" where
  "set_insert lt x [] = [x]"
| "set_insert lt x (y # ys) =
     (if lt x y then x # y # ys else if lt y x then y # set_insert lt x ys else y # ys)"

fun set_find :: "('a \<Rightarrow> 'a \<Rightarrow> bool) \<Rightarrow> 'a \<Rightarrow> 'a list \<Rightarrow> 'a option" where
  "set_find lt x [] = None"
| "set_find lt x (y # ys) =
     (if lt y x then set_find lt x ys else if lt x y then None else Some y)"

locale strict_weak_order =
  fixes lt :: "'a \<Rightarrow> 'a \<Rightarrow> bool"
  assumes irrefl: "\<not> lt x x"
    and trans: "\<lbrakk>lt x y; lt y z\<rbrakk> \<Longrightarrow> lt x z"
    and incomp_trans: "\<lbrakk>\<not> lt x y; \<not> lt y x; \<not> lt y z; \<not> lt z y\<rbrakk> \<Longrightarrow> \<not> lt x z \<and> \<not> lt z x"
begin

lemma asym: "lt x y \<Longrightarrow> \<not> lt y x"
  using irrefl trans by blast

lemma cotrans: "lt x z \<Longrightarrow> lt x y \<or> lt y z"
  using trans incomp_trans by blast

lemma set_insert_set: "set (set_insert lt x xs) \<subseteq> insert x (set xs)"
  by (induction xs) auto

lemma set_insert_keeps: "set xs \<subseteq> set (set_insert lt x xs)"
  by (induction xs) auto

lemma set_insert_sorted: "sorted_wrt lt xs \<Longrightarrow> sorted_wrt lt (set_insert lt x xs)"
proof (induction xs)
  case (Cons y ys)
  then show ?case
    using set_insert_set [of x ys] trans by auto
qed simp

lemma set_find_insert:
  "sorted_wrt lt xs \<Longrightarrow>
    \<exists>y. set_find lt x (set_insert lt x xs) = Some y \<and> \<not> lt x y \<and> \<not> lt y x"
  by (induction xs) (auto simp: irrefl asym)

lemma set_find_mem:
  "\<lbrakk>sorted_wrt lt xs; x \<in> set xs\<rbrakk> \<Longrightarrow> set_find lt x xs = Some x"
  by (induction xs) (auto simp: irrefl asym)

lemma set_find_iff:
  "sorted_wrt lt xs \<Longrightarrow>
    set_find lt x xs = Some y \<longleftrightarrow> y \<in> set xs \<and> \<not> lt y x \<and> \<not> lt x y"
proof (induction xs)
  case (Cons z zs)
  have "\<lbrakk>\<not> lt z x; \<not> lt x z; y \<in> set zs\<rbrakk> \<Longrightarrow> lt y x \<or> lt x y"
    using Cons.prems incomp_trans [of z x y] by auto
  moreover have "\<lbrakk>\<not> lt z x; lt x z; y \<in> set zs\<rbrakk> \<Longrightarrow> lt x y"
    using Cons.prems trans by auto
  ultimately show ?case using Cons by auto
qed simp

lemma set_find_insert_other:
  "\<lbrakk>sorted_wrt lt xs; lt x y \<or> lt y x\<rbrakk>
    \<Longrightarrow> set_find lt y (set_insert lt x xs) = set_find lt y xs"
proof (induction xs)
  case Nil
  then show ?case using asym by auto
next
  case (Cons z zs)
  consider "lt x z" | "\<not> lt x z" "lt z x" | "\<not> lt x z" "\<not> lt z x" by blast
  then show ?case
  proof cases
    case 1
    show ?thesis
    proof (cases "lt x y")
      case False
      then have "lt y x" using Cons.prems by blast
      then have "lt y z" using 1 trans by blast
      then show ?thesis using 1 False \<open>lt y x\<close> asym [of y z] by simp
    qed (use 1 in simp)
  next
    case 2
    then show ?thesis using Cons by simp
  next
    case 3
    then show ?thesis by simp
  qed
qed

end

text \<open>
  Comparing by a key in a linear order is a strict weak order; this is how the
  comparison functions of the source are shown to be one.
\<close>

lemma strict_weak_order_key:
  fixes key :: "'a \<Rightarrow> 'k::linorder"
  assumes "\<And>x y. lt x y \<longleftrightarrow> key x < key y"
  shows "strict_weak_order lt"
  by unfold_locales (auto simp: assms)

end
