(* ===== verification/UniqueID.thy ===== *)
theory UniqueID
  imports Hardware CString
begin

text \<open>
  \<open>attributes/SMARTuniqueID.hpp\<close> and \<open>SMARTuniqueID.cpp\<close>: the
  identification of a data carrier, the arrays of attribute IDs kept with it,
  and the comparison the containers of drives are ordered by.

  The arrays of attribute IDs are lists of fixed length; their contents end at
  the first 0, as \<open>id_list\<close> reads them. The arrays with one entry per
  attribute (the units and the figures they are estimated from) are functions
  of the attribute ID.
\<close>

datatype unit_state = getMinUnit | getUnitTillValInc | getUnit

record SMARTuniqueID =
  serialNumber :: "char list"
  firmWareName :: "char list"
  modelName :: "char list"
  busType :: bus
  numDiffrntSMARTattrIDs :: nat
  supportedSMART_IDs :: "attr_id list"
  SMART_IDsToRd :: "attr_id list"
  units :: "attr_id \<Rightarrow> 64 word"
  prevSMARTrawVals :: "attr_id \<Rightarrow> 64 word"
  otherMetricVal :: "attr_id \<Rightarrow> 64 word"
  SMARTrawValDiffs :: "attr_id \<Rightarrow> 64 word"
  ustate :: "attr_id \<Rightarrow> unit_state"
  otherMtrcValAtLastSMARTrawValInc :: "attr_id \<Rightarrow> 64 word"
  lowerUnitBound :: "attr_id \<Rightarrow> 64 word"
  upperUnitBound :: "attr_id \<Rightarrow> 64 word"

section \<open>Zero-terminated arrays of attribute IDs\<close>

definition id_list :: "attr_id list \<Rightarrow> attr_id list" where
  "id_list arr = takeWhile (\<lambda>x. x \<noteq> 0) arr"

lemma id_list_terminated [simp]: "0 \<notin> set xs \<Longrightarrow> id_list (xs @ 0 # ys) = xs"
  by (induction xs) (auto simp: id_list_def)

lemma id_list_no_zero [simp]: "0 \<notin> set xs \<Longrightarrow> id_list xs = xs"
  by (induction xs) (auto simp: id_list_def)

lemma zero_notin_id_list [simp]: "0 \<notin> set (id_list arr)"
  using set_takeWhileD [of 0 "\<lambda>x. x \<noteq> 0" arr] by (auto simp: id_list_def)

lemma id_list_split:
  assumes "0 \<in> set arr"
  obtains rest where "arr = id_list arr @ 0 # rest"
proof -
  have "dropWhile (\<lambda>x. x \<noteq> 0) arr \<noteq> []" using assms by (auto simp: dropWhile_eq_Nil_conv)
  moreover then have "hd (dropWhile (\<lambda>x. x \<noteq> 0) arr) = 0" using hd_dropWhile by blast
  ultimately obtain rest where "dropWhile (\<lambda>x. x \<noteq> 0) arr = 0 # rest" by (metis list.collapse)
  then have "arr = id_list arr @ 0 # rest"
    by (metis id_list_def takeWhile_dropWhile_id)
  then show thesis by (rule that)
qed

definition isEmpty :: "attr_id list \<Rightarrow> bool" where
  "isEmpty arr = (arr ! 0 = 0)"

text \<open>
  The condition reads the element before it checks the index: with a full
  array (no terminating 0) the last call reads one element past the end, the
  value None here.
\<close>

definition SMART_IDsToReadNotEnd :: "hw_sizes \<Rightarrow> SMARTuniqueID \<Rightarrow> nat \<Rightarrow> bool option" where
  "SMART_IDsToReadNotEnd h u i =
     (if i < length (SMART_IDsToRd u)
      then Some (SMART_IDsToRd u ! i \<noteq> 0 \<and> i < numSATA h) else None)"

definition noSMARTattrsToRead :: "hw_sizes \<Rightarrow> SMARTuniqueID \<Rightarrow> bool option" where
  "noSMARTattrsToRead h u = map_option Not (SMART_IDsToReadNotEnd h u 0)"

section \<open>Number of raw value bytes\<close>

definition getNumSMARTattrRawValB :: "hw_sizes \<Rightarrow> nvme_ids \<Rightarrow> SMARTuniqueID \<Rightarrow> attr_id \<Rightarrow> nat" where
  "getNumSMARTattrRawValB h nv u attrID =
     (if busType u = NVMe then
        if PercentageUsed nv < attrID then rawB_NVMe h
        else if attrID = CompositeTemperature nv then rawB_NVMeTemp h
        else rawB_NVMe1st h
      else rawB_ATA h)"

section \<open>Construction and assignment\<close>

definition initAttrVals :: "SMARTuniqueID \<Rightarrow> SMARTuniqueID" where
  "initAttrVals u = u\<lparr>
     supportedSMART_IDs := (supportedSMART_IDs u)[0 := 0],
     SMART_IDsToRd := (SMART_IDsToRd u)[0 := 0],
     units := (\<lambda>_. 0), prevSMARTrawVals := (\<lambda>_. - 1), otherMetricVal := (\<lambda>_. - 1),
     SMARTrawValDiffs := (\<lambda>_. 0), ustate := (\<lambda>_. getMinUnit),
     otherMtrcValAtLastSMARTrawValInc := (\<lambda>_. 0),
     lowerUnitBound := (\<lambda>_. 0), upperUnitBound := (\<lambda>_. 0)\<rparr>"

text \<open>
  A constructed object whose members the constructor leaves indeterminate are
  0; used as the concrete drive of the witnesses.
\<close>

definition blank_uid :: SMARTuniqueID where
  "blank_uid = initAttrVals \<lparr>serialNumber = replicate 21 NUL, firmWareName = replicate 9 NUL,
     modelName = replicate 41 NUL, busType = SATA, numDiffrntSMARTattrIDs = 0,
     supportedSMART_IDs = replicate 255 0, SMART_IDsToRd = replicate 255 0,
     units = (\<lambda>_. 0), prevSMARTrawVals = (\<lambda>_. 0), otherMetricVal = (\<lambda>_. 0),
     SMARTrawValDiffs = (\<lambda>_. 0), ustate = (\<lambda>_. getMinUnit),
     otherMtrcValAtLastSMARTrawValInc = (\<lambda>_. 0), lowerUnitBound = (\<lambda>_. 0),
     upperUnitBound = (\<lambda>_. 0)\<rparr>"

definition SetModelName :: "hw_sizes \<Rightarrow> char list \<Rightarrow> SMARTuniqueID \<Rightarrow> SMARTuniqueID" where
  "SetModelName h s u = u\<lparr>modelName := strncpy (numModelBytes h + 1) s (modelName u)\<rparr>"

definition SetFirmwareName :: "hw_sizes \<Rightarrow> char list \<Rightarrow> SMARTuniqueID \<Rightarrow> SMARTuniqueID" where
  "SetFirmwareName h s u = u\<lparr>firmWareName := strncpy (numFWbytes h + 1) s (firmWareName u)\<rparr>"

definition SetSerialNumber :: "hw_sizes \<Rightarrow> char list \<Rightarrow> SMARTuniqueID \<Rightarrow> SMARTuniqueID" where
  "SetSerialNumber h s u = u\<lparr>serialNumber := strncpy (numSNbytes h) s (serialNumber u)\<rparr>"

definition uid_str :: "SMARTuniqueID \<Rightarrow> string" where
  "uid_str u = ''model:'' @ cstr (modelName u) @ '' firmware:'' @ cstr (firmWareName u)
     @ '' serial #:'' @ cstr (serialNumber u)"

text \<open>
  The loop of \<open>copyArr\<close> runs to \<open>m_numDiffrntSMARTattrIDs\<close>, here
  counted down; it stops after copying a 0.
\<close>

fun copyArr_from :: "nat \<Rightarrow> nat \<Rightarrow> attr_id list \<Rightarrow> attr_id list \<Rightarrow> attr_id list" where
  "copyArr_from 0 idx orig cpy = cpy"
| "copyArr_from (Suc k) idx orig cpy =
     (let cpy' = cpy[idx := orig ! idx]
      in if orig ! idx = 0 then cpy' else copyArr_from k (Suc idx) orig cpy')"

definition copyArr :: "SMARTuniqueID \<Rightarrow> attr_id list \<Rightarrow> attr_id list \<Rightarrow> attr_id list" where
  "copyArr u orig cpy = copyArr_from (numDiffrntSMARTattrIDs u) 0 orig cpy"

definition assign :: "hw_sizes \<Rightarrow> SMARTuniqueID \<Rightarrow> SMARTuniqueID \<Rightarrow> SMARTuniqueID" where
  "assign h this orig = this\<lparr>
     firmWareName := strncpy (numFWbytes h + 1) (firmWareName orig) (firmWareName this),
     modelName := strncpy (numModelBytes h + 1) (modelName orig) (modelName this),
     serialNumber := strncpy (numSNbytes h + 1) (serialNumber orig) (serialNumber this),
     SMART_IDsToRd := copyArr this (SMART_IDsToRd orig) (SMART_IDsToRd this),
     supportedSMART_IDs := copyArr this (supportedSMART_IDs orig) (supportedSMART_IDs this),
     busType := busType orig\<rparr>"

lemma copyArr_from_zero:
  "\<lbrakk>0 < k; orig ! idx = 0\<rbrakk> \<Longrightarrow> copyArr_from k idx orig cpy = cpy[idx := 0]"
  by (cases k) simp_all

lemma copyArr_from_terminated:
  assumes "orig = ids @ 0 # rest" "0 \<notin> set ids" "idx \<le> length ids"
    "length ids < idx + k" "length cpy = length orig"
  shows "\<exists>tl. copyArr_from k idx orig cpy = take idx cpy @ drop idx ids @ 0 # tl"
  using assms
proof (induction k idx orig cpy rule: copyArr_from.induct)
  case (2 k idx orig cpy)
  have len: "idx < length cpy" using 2 by simp
  show ?case
  proof (cases "idx = length ids")
    case True
    then have "orig ! idx = 0" using 2 by simp
    then show ?thesis using True len by (auto simp: upd_conv_take_nth_drop)
  next
    case False
    then have lt: "idx < length ids" using 2 by simp
    then have "ids ! idx \<in> set ids" by simp
    then have "ids ! idx \<noteq> 0" using 2 by metis
    moreover have "orig ! idx = ids ! idx" using 2 lt by (simp add: nth_append)
    ultimately have nz: "orig ! idx = ids ! idx" "ids ! idx \<noteq> 0" by simp_all
    then obtain tl where "copyArr_from k (Suc idx) orig (cpy[idx := orig ! idx])
        = take (Suc idx) (cpy[idx := orig ! idx]) @ drop (Suc idx) ids @ 0 # tl"
      using 2 lt by (fastforce simp: Let_def)
    moreover have "take (Suc idx) (cpy[idx := orig ! idx]) = take idx cpy @ [ids ! idx]"
      using len nz by (simp add: take_Suc_conv_app_nth)
    moreover have "drop idx ids = ids ! idx # drop (Suc idx) ids"
      using lt by (simp add: Cons_nth_drop_Suc)
    ultimately show ?thesis using nz lt by (auto simp: Let_def)
  qed
qed simp

section \<open>Setting the arrays of attribute IDs\<close>

fun setSupp_from :: "nat \<Rightarrow> nat \<Rightarrow> attr_id list \<Rightarrow> attr_id list \<Rightarrow> attr_id list" where
  "setSupp_from n idx [] arr = (if idx < n then arr[idx := 0] else arr)"
| "setSupp_from n idx (x # xs) arr =
     (if idx < n then setSupp_from n (Suc idx) xs (arr[idx := x]) else arr)"

definition setSupportedSMART_IDs :: "hw_sizes \<Rightarrow> attr_id list \<Rightarrow> SMARTuniqueID \<Rightarrow> SMARTuniqueID" where
  "setSupportedSMART_IDs h supp u =
     u\<lparr>supportedSMART_IDs := setSupp_from (numSATA h) 0 supp (supportedSMART_IDs u)\<rparr>"

text \<open>
  \<open>SetSMART_IDsToRead\<close>. The inner \<open>do ... while\<close> loop advances in
  the IDs to read until it reaches the current supported ID; its first result
  tells whether the end of the IDs to read was met, which ends the outer loop.
\<close>

function inter_step :: "nat \<Rightarrow> attr_id list \<Rightarrow> attr_id \<Rightarrow> nat \<Rightarrow> nat \<Rightarrow> attr_id list
    \<Rightarrow> bool \<times> nat \<times> nat \<times> attr_id list" where
  "inter_step n R s r ob arr =
     (let i = R ! r in
      if i = 0 then (True, r, ob, arr)
      else if i = s then (False, Suc r, Suc ob, arr[ob := i])
      else if i < s then
        (if Suc r < n then inter_step n R s (Suc r) ob arr else (False, Suc r, ob, arr))
      else (False, r, ob, arr))"
  by pat_completeness auto
termination by (relation "measure (\<lambda>(n, R, s, r, ob, arr). n - r)") auto

declare inter_step.simps [simp del]

fun inter_loop :: "nat \<Rightarrow> attr_id list \<Rightarrow> attr_id list \<Rightarrow> nat \<Rightarrow> nat \<Rightarrow> attr_id list
    \<Rightarrow> nat \<times> nat \<times> attr_id list" where
  "inter_loop n R [] r ob arr = (r, ob, arr)"
| "inter_loop n R (s # ss) r ob arr =
     (case inter_step n R s r ob arr of (stop, r', ob', arr') \<Rightarrow>
        if stop then (r', ob', arr') else inter_loop n R ss r' ob' arr')"

definition SetSMART_IDsToRead :: "hw_sizes \<Rightarrow> attr_id list \<Rightarrow> attr_id list \<Rightarrow> SMARTuniqueID \<Rightarrow> SMARTuniqueID" where
  "SetSMART_IDsToRead h supp toRead u =
     (if toRead ! 0 = 0 then
        if length supp \<le> numSATA h
        then u\<lparr>SMART_IDsToRd := setSupp_from (numSATA h) 0 supp (SMART_IDsToRd u)\<rparr>
        else u
      else
        (case inter_loop (numSATA h) toRead supp 0 0 (SMART_IDsToRd u) of (r, ob, arr) \<Rightarrow>
           u\<lparr>SMART_IDsToRd := (if r < numSATA h then arr[ob := 0] else arr)\<rparr>))"

lemma setSupp_from_list:
  "\<lbrakk>length arr = n; idx \<le> n; 0 \<notin> set xs; 0 \<notin> set (take idx arr)\<rbrakk>
    \<Longrightarrow> id_list (setSupp_from n idx xs arr) = take idx arr @ take (n - idx) xs"
proof (induction n idx xs arr rule: setSupp_from.induct)
  case (1 n idx arr)
  then show ?case
    by (auto simp: upd_conv_take_nth_drop)
next
  case (2 n idx x xs arr)
  show ?case
  proof (cases "idx < n")
    case True
    have "take (Suc idx) (arr[idx := x]) = take idx arr @ [x]"
      using True 2 by (simp add: take_Suc_conv_app_nth)
    with 2 True show ?thesis
      by (simp add: take_Suc_conv_app_nth Suc_diff_Suc [symmetric])
  next
    case False
    with 2 show ?thesis by simp
  qed
qed


text \<open>
  One run of the inner loop, for IDs to read \<open>ids @ 0 # rest\<close> in
  ascending order: the loop leaves behind exactly the IDs above the supported
  one, and writes the supported one if it is among them.
\<close>

lemma filter_greater_sorted:
  assumes "sorted_wrt (<) (x # xs)" "x \<le> (s :: nat)"
  shows "filter (\<lambda>y. s < y) (x # xs) = filter (\<lambda>y. s < y) xs"
  using assms by simp

lemma inter_step_spec:
  assumes "R = ids @ 0 # rest" "0 \<notin> set ids" "length ids < n" "sorted_wrt (<) ids"
    "r \<le> length ids" "inter_step n R s r ob arr = (stop, r', ob', arr')"
  shows "r \<le> r' \<and> r' \<le> length ids \<and> drop r' ids = filter (\<lambda>x. s < x) (drop r ids)
    \<and> (ob', arr') = (if s \<in> set (drop r ids) then (Suc ob, arr[ob := s]) else (ob, arr))
    \<and> (s \<in> set (drop r ids) \<longrightarrow> r < r') \<and> (stop \<longrightarrow> r' = length ids)"
  using assms
proof (induction n R s r ob arr rule: inter_step.induct)
  case (1 n R s r ob arr)
  note prems = "1.prems" and IH = "1.IH"
  show ?case
  proof (cases "r = length ids")
    case True
    then have "R ! r = 0" using prems by simp
    then have "inter_step n R s r ob arr = (True, r, ob, arr)"
      by (simp add: inter_step.simps [of n R s r])
    then show ?thesis using prems True by simp
  next
    case False
    then have lt: "r < length ids" using prems by simp
    define i where "i = ids ! r"
    have Ri: "R ! r = i" using prems lt by (simp add: nth_append i_def)
    have "i \<in> set ids" using lt by (simp add: i_def)
    then have i0: "i \<noteq> 0" using prems by metis
    have dr: "drop r ids = i # drop (Suc r) ids" by (simp add: i_def Cons_nth_drop_Suc lt)
    have so: "sorted_wrt (<) (drop r ids)" using prems by (simp add: sorted_wrt_drop)
    then have gt: "\<forall>y\<in>set (drop (Suc r) ids). i < y" by (simp add: dr)
    consider "i = s" | "i < s" | "s < i" by linarith
    then show ?thesis
    proof cases
      case 1
      then have "inter_step n R s r ob arr = (False, Suc r, Suc ob, arr[ob := s])"
        using i0 by (simp add: inter_step.simps [of n R s r] Ri)
      moreover have "filter (\<lambda>x. s < x) (drop (Suc r) ids) = drop (Suc r) ids"
        using gt 1 by simp
      ultimately show ?thesis using prems 1 lt by (simp add: dr)
    next
      case 2
      have n: "Suc r < n" using prems lt by simp
      then have "inter_step n R s r ob arr = inter_step n R s (Suc r) ob arr"
        using 2 i0 by (simp add: inter_step.simps [of n R s r] Ri)
      then have "Suc r \<le> r' \<and> r' \<le> length ids
          \<and> drop r' ids = filter (\<lambda>x. s < x) (drop (Suc r) ids)
          \<and> (ob', arr') = (if s \<in> set (drop (Suc r) ids) then (Suc ob, arr[ob := s]) else (ob, arr))
          \<and> (s \<in> set (drop (Suc r) ids) \<longrightarrow> Suc r < r') \<and> (stop \<longrightarrow> r' = length ids)"
        using IH [of i] prems 2 lt i0 Ri n by simp
      then show ?thesis using 2 by (simp add: dr)
    next
      case 3
      then have "inter_step n R s r ob arr = (False, r, ob, arr)"
        using i0 by (simp add: inter_step.simps [of n R s r] Ri)
      moreover have all: "\<forall>y\<in>set (drop r ids). s < y" using gt 3 by (auto simp: dr)
      moreover have "filter (\<lambda>x. s < x) (drop r ids) = drop r ids" using all by simp
      moreover have "s \<notin> set (drop r ids)" using all by blast
      ultimately show ?thesis using prems by simp
    qed
  qed
qed

lemma inter_loop_spec:
  assumes "R = ids @ 0 # rest" "0 \<notin> set ids" "length ids < n" "sorted_wrt (<) ids"
    "sorted_wrt (<) ss" "r \<le> length ids" "ob \<le> r" "length arr = n"
    "inter_loop n R ss r ob arr = (r', ob', arr')"
  defines "M \<equiv> filter (\<lambda>s. s \<in> set (drop r ids)) ss"
  shows "r' \<le> length ids \<and> ob' \<le> r' \<and> length arr' = n \<and> ob' = ob + length M
    \<and> take (ob + length M) arr' = take ob arr @ M"
  using assms(1-9) unfolding M_def
proof (induction ss arbitrary: r ob arr)
  case (Cons s ss)
  obtain stop r1 ob1 arr1 where step: "inter_step n R s r ob arr = (stop, r1, ob1, arr1)"
    by (metis prod_cases4)
  note sp = inter_step_spec [OF Cons.prems(1-4,6) step]
  have r1: "r \<le> r1" "r1 \<le> length ids" using sp by blast+
  have obn: "ob < length arr" using Cons.prems by simp
  have tk: "take ob1 arr1 = take ob arr @ (if s \<in> set (drop r ids) then [s] else [])"
    and ob1: "ob1 \<le> r1" "ob1 = ob + (if s \<in> set (drop r ids) then 1 else 0)"
    and len: "length arr1 = n"
    using sp obn Cons.prems(7,8) by (auto simp: take_Suc_conv_app_nth split: if_splits)
  have more: "filter (\<lambda>x. x \<in> set (drop r1 ids)) ss = filter (\<lambda>x. x \<in> set (drop r ids)) ss"
    using sp Cons.prems(5) by (intro filter_cong) auto
  show ?case
  proof (cases stop)
    case True
    then have "drop r1 ids = []" using sp by simp
    then have "filter (\<lambda>x. x \<in> set (drop r ids)) ss = []" using more by simp
    moreover have "r' = r1" "ob' = ob1" "arr' = arr1"
      using Cons.prems(9) step True by simp_all
    ultimately show ?thesis using tk ob1 len r1 by (simp split: if_splits)
  next
    case False
    then have lp: "inter_loop n R ss r1 ob1 arr1 = (r', ob', arr')"
      using Cons.prems(9) step by simp
    have "sorted_wrt (<) ss" using Cons.prems(5) by simp
    then have "r' \<le> length ids \<and> ob' \<le> r' \<and> length arr' = n
        \<and> ob' = ob1 + length (filter (\<lambda>x. x \<in> set (drop r1 ids)) ss)
        \<and> take (ob1 + length (filter (\<lambda>x. x \<in> set (drop r1 ids)) ss)) arr'
          = take ob1 arr1 @ filter (\<lambda>x. x \<in> set (drop r1 ids)) ss"
      by (rule Cons.IH [OF Cons.prems(1-4) _ r1(2) ob1(1) len lp])
    then show ?thesis using tk ob1 more by (simp split: if_splits)
  qed
qed simp

lemma id_list_mark_end:
  "\<lbrakk>take ob arr = M; ob < length arr; 0 \<notin> set M\<rbrakk> \<Longrightarrow> id_list (arr[ob := 0]) = M"
  by (simp add: upd_conv_take_nth_drop)

lemma inter_step_length:
  "inter_step n R s r ob arr = (stop, r', ob', arr') \<Longrightarrow> length arr' = length arr"
proof (induction n R s r ob arr rule: inter_step.induct)
  case (1 n R s r ob arr)
  show ?case
    using "1.prems" "1.IH" by (subst (asm) inter_step.simps) (auto simp: Let_def split: if_splits)
qed

lemma inter_loop_length:
  "inter_loop n R ss r ob arr = (r', ob', arr') \<Longrightarrow> length arr' = length arr"
  by (induction ss arbitrary: r ob arr) (auto split: prod.splits if_splits dest: inter_step_length)

lemma length_setSupp_from [simp]: "length (setSupp_from n k xs arr) = length arr"
  by (induction n k xs arr rule: setSupp_from.induct) auto

lemma SetSMART_IDsToRead_length:
  "length (SMART_IDsToRd (SetSMART_IDsToRead h supp toRead u)) = length (SMART_IDsToRd u)"
  by (auto simp: SetSMART_IDsToRead_def split: prod.splits dest: inter_loop_length)

lemma SetSMART_IDsToRead_list:
  assumes "length toRead = numSATA h" "length (SMART_IDsToRd u) = numSATA h"
    and "0 \<in> set toRead" "sorted_wrt (<) (id_list toRead)"
    and "sorted_wrt (<) supp" "0 \<notin> set supp" "length supp \<le> numSATA h"
  shows "id_list (SMART_IDsToRd (SetSMART_IDsToRead h supp toRead u)) =
    (if id_list toRead = [] then supp else filter (\<lambda>x. x \<in> set (id_list toRead)) supp)"
proof -
  obtain rest where R: "toRead = id_list toRead @ 0 # rest"
    using id_list_split assms(3) by metis
  have n: "length (id_list toRead) < numSATA h"
    using arg_cong [OF R, of length] assms(1) by simp
  show ?thesis
  proof (cases "id_list toRead")
    case Nil
    then have "toRead ! 0 = 0" using R by (metis append_Nil nth_Cons_0)
    then show ?thesis
      using Nil assms setSupp_from_list [of "SMART_IDsToRd u" "numSATA h" 0 supp]
      by (simp add: SetSMART_IDsToRead_def)
  next
    case (Cons a l)
    then have "toRead ! 0 = a" using R by (metis append_Cons nth_Cons_0)
    moreover have "a \<noteq> 0" using Cons zero_notin_id_list [of toRead] by force
    moreover obtain r ob arr where
      lp: "inter_loop (numSATA h) toRead supp 0 0 (SMART_IDsToRd u) = (r, ob, arr)"
      by (metis prod_cases3)
    moreover note sp = inter_loop_spec [OF R zero_notin_id_list n assms(4,5) le0 le0 assms(2) lp]
    ultimately show ?thesis
      using n Cons assms(6)
        id_list_mark_end [of ob arr "filter (\<lambda>x. x \<in> set (id_list toRead)) supp"]
      by (simp add: SetSMART_IDsToRead_def)
  qed
qed

text \<open>
  C1: The IDs \<open>SetSMART_IDsToRead\<close> stores are the supported ones that are
  also among the IDs to read, in ascending order; with no IDs to read they are
  all supported ones.
\<close>

theorem SetSMART_IDsToRead_intersection:
  assumes "length toRead = numSATA h" "length (SMART_IDsToRd u) = numSATA h"
    and "0 \<in> set toRead" "sorted_wrt (<) (id_list toRead)"
    and "sorted_wrt (<) supp" "0 \<notin> set supp" "length supp \<le> numSATA h"
  shows "id_list (SMART_IDsToRd (SetSMART_IDsToRead h supp toRead u)) =
    (if id_list toRead = [] then supp else filter (\<lambda>x. x \<in> set (id_list toRead)) supp)"
  by (rule SetSMART_IDsToRead_list [OF assms])

theorem SetSMART_IDsToRead_witness:
  "let u = blank_uid\<lparr>SMART_IDsToRd := replicate 4 7\<rparr>;
     h = std_sizes\<lparr>numSATA := 4\<rparr>
   in id_list (SMART_IDsToRd (SetSMART_IDsToRead h [1, 5, 9] [4, 5, 9, 0] u)) = [5, 9]"
  unfolding Let_def
  by (subst SetSMART_IDsToRead_intersection) (simp_all add: std_sizes_def id_list_def)

section \<open>The order of drives\<close>

definition uid_less :: "hw_sizes \<Rightarrow> SMARTuniqueID \<Rightarrow> SMARTuniqueID \<Rightarrow> bool" where
  "uid_less h l r =
     (let c = strncmp (numModelBytes h) (modelName l) (modelName r) in
      if c < 0 then True
      else if c = 0 then
        let c' = strncmp (numFWbytes h) (firmWareName l) (firmWareName r) in
        if c' < 0 then True
        else if c' = 0 then
          if strncmp (numSNbytes h) (serialNumber l) (serialNumber r) < 0 then True else False
        else False
      else False)"

text \<open>The three strings as the comparison sees them.\<close>

definition uid_key :: "hw_sizes \<Rightarrow> SMARTuniqueID \<Rightarrow> nat list \<times> nat list \<times> nat list" where
  "uid_key h u = (str_key (numModelBytes h) (modelName u), str_key (numFWbytes h) (firmWareName u),
     str_key (numSNbytes h) (serialNumber u))"

lemma uid_less_key: "uid_less h l r \<longleftrightarrow> uid_key h l < uid_key h r"
  by (simp add: uid_less_def uid_key_def Let_def strncmp_less_iff strncmp_eq_iff less_prod_def')

interpretation uid: strict_weak_order "uid_less h" for h
  by (rule strict_weak_order_key [of _ "uid_key h"]) (simp add: uid_less_key)

lemma uid_equiv_key: "\<not> uid_less h l r \<and> \<not> uid_less h r l \<longleftrightarrow> uid_key h l = uid_key h r"
  by (auto simp: uid_less_key)

text \<open>
  A drive put into a \<open>std::set\<close> ordered by this comparison is found
  again under any identification with the same model, firmware and serial
  number, and putting it in does not change what is found for any other drive.
\<close>

theorem uid_set_insert_find:
  assumes "sorted_wrt (uid_less h) xs"
  shows "sorted_wrt (uid_less h) (set_insert (uid_less h) u xs)
    \<and> (uid_key h v = uid_key h u \<longrightarrow>
        (\<exists>w. set_find (uid_less h) v (set_insert (uid_less h) u xs) = Some w \<and> uid_key h w = uid_key h u))
    \<and> (uid_key h v \<noteq> uid_key h u \<longrightarrow>
        set_find (uid_less h) v (set_insert (uid_less h) u xs) = set_find (uid_less h) v xs)"
proof (intro conjI impI)
  show "sorted_wrt (uid_less h) (set_insert (uid_less h) u xs)"
    by (rule uid.set_insert_sorted [OF assms])
next
  assume eq: "uid_key h v = uid_key h u"
  then have "uid_less h v = uid_less h u" "(\<lambda>x. uid_less h x v) = (\<lambda>x. uid_less h x u)"
    by (simp_all add: uid_less_key fun_eq_iff)
  then have "set_find (uid_less h) v ys = set_find (uid_less h) u ys" for ys
    by (induction ys) (simp_all add: fun_eq_iff)
  then show "\<exists>w. set_find (uid_less h) v (set_insert (uid_less h) u xs) = Some w \<and> uid_key h w = uid_key h u"
    using uid.set_find_insert [OF assms, of u] uid_equiv_key by metis
next
  assume "uid_key h v \<noteq> uid_key h u"
  then show "set_find (uid_less h) v (set_insert (uid_less h) u xs) = set_find (uid_less h) v xs"
    using uid.set_find_insert_other [OF assms] uid_equiv_key by metis
qed

theorem uid_set_insert_find_witness:
  "let u = blank_uid\<lparr>modelName := ''A'', firmWareName := ''f'', serialNumber := ''1''\<rparr>;
     v = u\<lparr>serialNumber := ''2''\<rparr>
   in set_find (uid_less std_sizes) v (set_insert (uid_less std_sizes) u []) = None"
  unfolding Let_def
  by (subst uid_set_insert_find [THEN conjunct2, THEN conjunct2, rule_format])
     (simp_all add: uid_key_def std_sizes_def str_key_def cstr_def NUL_def)

text \<open>
  Assignment of a drive identification keeps its place in the containers:
  the copy is equivalent to the original in the order of drives, whatever the
  target held before.
\<close>

theorem assign_same_key: "uid_key h (assign h this orig) = uid_key h orig"
  by (simp add: assign_def uid_key_def str_key_strncpy)

text \<open>
  Assignment copies the arrays of attribute IDs up to their terminating 0
  when \<open>m_numDiffrntSMARTattrIDs\<close> of the target is at least their length,
  and copies nothing of them when it is 0. No constructor and no other
  operation of the source gives that member a value.
\<close>

theorem assign_copies_ids:
  assumes "0 \<in> set (SMART_IDsToRd orig)"
    and "length (SMART_IDsToRd this) = length (SMART_IDsToRd orig)"
  shows "(length (id_list (SMART_IDsToRd orig)) < numDiffrntSMARTattrIDs this \<longrightarrow>
      id_list (SMART_IDsToRd (assign h this orig)) = id_list (SMART_IDsToRd orig))
    \<and> (numDiffrntSMARTattrIDs this = 0 \<longrightarrow>
      SMART_IDsToRd (assign h this orig) = SMART_IDsToRd this)"
proof (intro conjI impI)
  assume n: "length (id_list (SMART_IDsToRd orig)) < numDiffrntSMARTattrIDs this"
  obtain rest where "SMART_IDsToRd orig = id_list (SMART_IDsToRd orig) @ 0 # rest"
    using id_list_split [OF assms(1)] by metis
  then show "id_list (SMART_IDsToRd (assign h this orig)) = id_list (SMART_IDsToRd orig)"
    using copyArr_from_terminated [of _ _ rest 0 "numDiffrntSMARTattrIDs this" "SMART_IDsToRd this"]
      n assms(2) by (fastforce simp: assign_def copyArr_def)
qed (simp add: assign_def copyArr_def)

theorem assign_copies_ids_witness:
  "let o1 = blank_uid\<lparr>SMART_IDsToRd := [5, 9, 0, 0]\<rparr>;
     t = blank_uid\<lparr>SMART_IDsToRd := [1, 0, 0, 0], numDiffrntSMARTattrIDs := 4\<rparr>
   in id_list (SMART_IDsToRd (assign std_sizes t o1)) = [5, 9]"
  unfolding Let_def
  by (subst assign_copies_ids [THEN conjunct1, rule_format]) (simp_all add: id_list_def)

text \<open>
  \<open>SetSerialNumber\<close> never writes the last element of the array, so a
  full-length serial number is terminated only by what was there before.
\<close>

theorem SetSerialNumber_last:
  assumes "length (serialNumber u) = numSNbytes h + 1"
  shows "serialNumber (SetSerialNumber h s u) ! numSNbytes h = serialNumber u ! numSNbytes h
    \<and> str_key (numSNbytes h) (serialNumber (SetSerialNumber h s u)) = str_key (numSNbytes h) s
    \<and> (length s = numSNbytes h \<and> NUL \<notin> set s \<and> serialNumber u ! numSNbytes h \<noteq> NUL
        \<longrightarrow> NUL \<notin> set (serialNumber (SetSerialNumber h s u)))"
proof -
  have d: "drop (numSNbytes h) (serialNumber u) = [serialNumber u ! numSNbytes h]"
    using assms by (simp flip: Cons_nth_drop_Suc)
  have k: "str_key (numSNbytes h) (serialNumber (SetSerialNumber h s u)) = str_key (numSNbytes h) s"
    by (simp add: SetSerialNumber_def str_key_strncpy)
  have l: "serialNumber (SetSerialNumber h s u) ! numSNbytes h = serialNumber u ! numSNbytes h"
    by (simp add: SetSerialNumber_def strncpy_def Let_def d nth_append min_def)
  show ?thesis
    using k l by (auto simp: SetSerialNumber_def strncpy_def Let_def d)
qed

theorem SetSerialNumber_last_witness:
  "let h = std_sizes\<lparr>numSNbytes := 2\<rparr>;
     u = blank_uid\<lparr>serialNumber := ''xyz''\<rparr>
   in NUL \<notin> set (serialNumber (SetSerialNumber h ''ab'' u))"
  unfolding Let_def
  by (rule SetSerialNumber_last [THEN conjunct2, THEN conjunct2, rule_format])
     (simp_all add: std_sizes_def NUL_def)

end
