(* ===== verification/UnitGuess.thy ===== *)
theory UnitGuess
  imports UniqueID "HOL-Library.Signed_Division"
begin

unbundle bit_operations_syntax

text \<open>
  \<open>SMARTuniqueID::guessUnit\<close>: estimating the unit of an attribute's raw
  value from a second metric (milliseconds of uptime, bytes written) that is
  sampled together with it, on a machine with 64 bit \<open>long int\<close>.

  The state machine of an attribute is followed over a whole run: a drive that
  counts in units of \<open>U\<close> has the raw value \<open>(m + c) div U\<close> when
  the metric is \<open>m\<close>; the relation \<open>unit_run\<close> collects the states
  the sampled values lead to, and its invariant bounds the estimates.
\<close>

definition GetBitMaskForMostSignificantBit :: "64 word" where
  "GetBitMaskForMostSignificantBit = push_bit 63 1"

definition setGreaterBit :: "64 word \<Rightarrow> 64 word" where
  "setGreaterBit v = v OR GetBitMaskForMostSignificantBit"

definition GetUnMaskedValue :: "64 word \<Rightarrow> 64 word" where
  "GetUnMaskedValue t = t AND NOT GetBitMaskForMostSignificantBit"

text \<open>Whether the user interface shows the unit with a ``greater or equal'' sign.\<close>

definition greaterBit :: "64 word \<Rightarrow> bool" where
  "greaterBit t = (t AND GetBitMaskForMostSignificantBit \<noteq> 0)"

text \<open>Division of \<open>long int\<close> values: truncated towards 0.\<close>

definition sdivw :: "64 word \<Rightarrow> 64 word \<Rightarrow> 64 word" where
  "sdivw a b = word_of_int (sint a sdiv sint b)"

definition guessUnit :: "attr_id \<Rightarrow> 64 word \<Rightarrow> 64 word \<Rightarrow> SMARTuniqueID \<Rightarrow> SMARTuniqueID" where
  "guessUnit i raw other u =
     (case ustate u i of
        getMinUnit \<Rightarrow>
          if other < otherMetricVal u i
          then u\<lparr>otherMetricVal := (otherMetricVal u)(i := other),
                 prevSMARTrawVals := (prevSMARTrawVals u)(i := raw)\<rparr>
          else if prevSMARTrawVals u i < raw
          then let unit = other - otherMetricVal u i in
               u\<lparr>ustate := (ustate u)(i := getUnitTillValInc),
                 lowerUnitBound := (lowerUnitBound u)(i := unit),
                 units := (units u)(i := unit),
                 otherMetricVal := (otherMetricVal u)(i := other),
                 prevSMARTrawVals := (prevSMARTrawVals u)(i := raw)\<rparr>
          else u\<lparr>units := (units u)(i := setGreaterBit (other - otherMetricVal u i))\<rparr>
      | getUnitTillValInc \<Rightarrow>
          if prevSMARTrawVals u i < raw
          then let rawDiff = raw - prevSMARTrawVals u i;
                   diff = other - otherMetricVal u i;
                   unit = diff div rawDiff in
               u\<lparr>ustate := (ustate u)(i := getUnit),
                 SMARTrawValDiffs := (SMARTrawValDiffs u)(i := rawDiff),
                 lowerUnitBound := (lowerUnitBound u)(i := unit),
                 upperUnitBound := (upperUnitBound u)(i := unit),
                 units := (units u)(i := unit)\<rparr>
          else let unit = other - otherMetricVal u i in
               u\<lparr>lowerUnitBound := (lowerUnitBound u)(i :=
                    if lowerUnitBound u i <s unit then unit else lowerUnitBound u i),
                 units := (units u)(i := setGreaterBit unit)\<rparr>
      | getUnit \<Rightarrow>
          if prevSMARTrawVals u i < raw
          then let rawDiff = raw - prevSMARTrawVals u i in
               if SMARTrawValDiffs u i < rawDiff
               then let otherDiff = other - otherMetricVal u i;
                        calc = otherDiff div rawDiff;
                        lo = (if calc <s lowerUnitBound u i then calc else lowerUnitBound u i);
                        hi = (if \<not> calc <s lowerUnitBound u i \<and> upperUnitBound u i <s calc
                              then calc else upperUnitBound u i) in
                    u\<lparr>SMARTrawValDiffs := (SMARTrawValDiffs u)(i := rawDiff),
                      lowerUnitBound := (lowerUnitBound u)(i := lo),
                      upperUnitBound := (upperUnitBound u)(i := hi),
                      otherMtrcValAtLastSMARTrawValInc :=
                        (otherMtrcValAtLastSMARTrawValInc u)(i := calc),
                      units := (units u)(i := lo + sdivw (hi - lo) 2)\<rparr>
               else u
          else u)"

section \<open>Words below \<open>2 ^ 63\<close>\<close>

lemma sint_uint_small:
  assumes "uint (w :: 64 word) < 2 ^ 63"
  shows "sint w = uint w"
proof -
  have "- (2 ^ 63) \<le> uint w" by (rule order_trans [OF _ uint_ge_0]) simp
  then show ?thesis
    using assms signed_take_bit_int_eq_self [of 63 "uint w"] by (simp add: sint_uint)
qed

lemma small_sint: "unat (w :: 64 word) < 2 ^ 63 \<Longrightarrow> sint w = uint w"
  by (rule sint_uint_small) (simp add: nat_less_iff flip: nat_uint_eq)

lemma small_sless:
  "\<lbrakk>unat (v :: 64 word) < 2 ^ 63; unat w < 2 ^ 63\<rbrakk> \<Longrightarrow> v <s w \<longleftrightarrow> unat v < unat w"
  by (simp add: word_sless_alt small_sint flip: word_less_def word_less_nat_alt)

lemma small_sle:
  "\<lbrakk>unat (v :: 64 word) < 2 ^ 63; unat w < 2 ^ 63\<rbrakk> \<Longrightarrow> v \<le>s w \<longleftrightarrow> unat v \<le> unat w"
  by (simp add: word_sle_eq small_sint flip: word_le_def word_le_nat_alt)

lemma unat_of_nat_small: "m < 2 ^ 64 \<Longrightarrow> unat (of_nat m :: 64 word) = m"
  by (simp add: unat_of_nat)

lemma of_nat_diff_small:
  "\<lbrakk>m0 \<le> m; m < 2 ^ 64\<rbrakk> \<Longrightarrow> unat (of_nat m - of_nat m0 :: 64 word) = m - m0"
  by (simp add: unat_of_nat_small flip: of_nat_diff)

lemma half_between:
  assumes "unat (lo :: 64 word) \<le> unat hi" "unat hi < 2 ^ 63"
  shows "unat (lo + sdivw (hi - lo) 2) = unat lo + (unat hi - unat lo) div 2"
proof -
  have le: "lo \<le> hi" using assms by (simp add: word_le_nat_alt)
  then have d: "unat (hi - lo) = unat hi - unat lo" by (rule unat_sub)
  define n where "n = unat hi - unat lo"
  have "unat (hi - lo) < 2 ^ 63" using assms d by simp
  then have "sint (hi - lo) = int (unat (hi - lo))"
    unfolding uint_nat [symmetric] by (rule small_sint)
  then have "sint (hi - lo) = int n" by (simp only: d n_def)
  then have "sdivw (hi - lo) 2 = word_of_int (int n sdiv 2)"
    by (simp add: sdivw_def small_sint)
  also have "int n sdiv 2 = int (n div 2)"
    by (simp add: signed_divide_int_def sgn_if zdiv_int)
  finally have "sdivw (hi - lo) 2 = of_nat ((unat hi - unat lo) div 2)"
    by (simp add: n_def)
  then have "unat (sdivw (hi - lo) 2) = (unat hi - unat lo) div 2"
    using assms by (simp add: unat_of_nat_small)
  moreover have "unat lo + (unat hi - unat lo) div 2 < 2 ^ 64" using assms by simp
  ultimately show ?thesis by (simp add: unat_word_ariths)
qed

lemma bit_mask_iff: "bit GetBitMaskForMostSignificantBit n \<longleftrightarrow> n = 63"
  unfolding GetBitMaskForMostSignificantBit_def
  by (subst bit_push_bit_iff) (auto simp: bit_1_iff)

lemma greaterBit_small:
  assumes "unat v < 2 ^ 63"
  shows "\<not> greaterBit v" "greaterBit (setGreaterBit v)" "GetUnMaskedValue (setGreaterBit v) = v"
    "GetUnMaskedValue v = v"
proof -
  have "v div 2 ^ 63 = 0" using assms by (simp add: word_unat_eq_iff unat_div)
  then have b: "\<not> bit v 63" by (simp add: bit_iff_odd)
  then have g: "bit v n \<Longrightarrow> n < 63" for n
    using bit_imp_le_length [of v n] by (cases "n = 63") auto
  have "v AND GetBitMaskForMostSignificantBit = 0"
    by (rule bit_word_eqI) (auto simp: bit_and_iff bit_mask_iff b)
  then show "\<not> greaterBit v" by (simp add: greaterBit_def)
  have "bit (setGreaterBit v AND GetBitMaskForMostSignificantBit) 63"
    by (simp add: setGreaterBit_def bit_and_iff bit_or_iff bit_mask_iff)
  then show "greaterBit (setGreaterBit v)" by (auto simp: greaterBit_def)
  show "GetUnMaskedValue (setGreaterBit v) = v" "GetUnMaskedValue v = v"
    by (rule bit_word_eqI; use b g in \<open>auto simp: GetUnMaskedValue_def setGreaterBit_def
        bit_and_iff bit_or_iff bit_not_iff bit_mask_iff\<close>)+
qed

section \<open>Runs\<close>

text \<open>
  Attribute \<open>i\<close> of a drive that counts in units of \<open>U\<close>, offset by
  what it had counted before the operating system started. The metric never
  decreases and stays below \<open>2 ^ 62\<close>, as does the offset.
\<close>

inductive unit_run :: "nat \<Rightarrow> nat \<Rightarrow> attr_id \<Rightarrow> SMARTuniqueID \<Rightarrow> nat \<Rightarrow> bool" for U c i where
  start: "unit_run U c i (initAttrVals u) 0"
| sample: "\<lbrakk>unit_run U c i u m; m \<le> m'; m' < 2 ^ 62\<rbrakk>
    \<Longrightarrow> unit_run U c i (guessUnit i (of_nat ((m' + c) div U)) (of_nat m') u) m'"

text \<open>What holds of attribute \<open>i\<close> in the three states.\<close>

definition unit_inv :: "nat \<Rightarrow> nat \<Rightarrow> attr_id \<Rightarrow> SMARTuniqueID \<Rightarrow> nat \<Rightarrow> bool" where
  "unit_inv U c i u m =
     (m < 2 ^ 62 \<and>
      (case ustate u i of
         getMinUnit \<Rightarrow>
           (otherMetricVal u i = - 1 \<and> units u i = 0) \<or>
           (\<exists>m0\<le>m. otherMetricVal u i = of_nat m0
              \<and> prevSMARTrawVals u i = of_nat ((m0 + c) div U)
              \<and> (m0 + c) div U = (m + c) div U
              \<and> (units u i = 0 \<or> units u i = setGreaterBit (of_nat (m - m0))))
       | getUnitTillValInc \<Rightarrow>
           (\<exists>m0\<le>m. otherMetricVal u i = of_nat m0
              \<and> prevSMARTrawVals u i = of_nat ((m0 + c) div U)
              \<and> (m0 + c) div U = (m + c) div U
              \<and> (unat (units u i) < 2 ^ 63 \<or> units u i = setGreaterBit (of_nat (m - m0))))
       | getUnit \<Rightarrow>
           (\<exists>m0\<le>m. otherMetricVal u i = of_nat m0
              \<and> prevSMARTrawVals u i = of_nat ((m0 + c) div U))
           \<and> 0 < unat (SMARTrawValDiffs u i)
           \<and> 0 < unat (lowerUnitBound u i)
           \<and> unat (lowerUnitBound u i) \<le> unat (units u i)
           \<and> unat (units u i) \<le> unat (upperUnitBound u i)
           \<and> unat (upperUnitBound u i) < 2 * U \<and> unat (upperUnitBound u i) < 2 ^ 62))"

lemma raw_small: "\<lbrakk>m < 2 ^ 62; c < 2 ^ 62\<rbrakk> \<Longrightarrow> (m + c) div U < (2 ^ 63 :: nat)"
  by (rule le_less_trans [OF div_le_dividend]) simp

lemma same_count_close:
  assumes "0 < U" "m0 \<le> m" "(m0 + c) div U = (m + c) div U"
  shows "m - m0 < (U :: nat)"
proof -
  have "m + c < U + (m + c) div U * U" using assms(1) by (rule dividend_less_div_times)
  moreover have "(m + c) div U * U \<le> m0 + c" unfolding assms(3) [symmetric] by simp
  ultimately have "m + c < U + (m0 + c)" by (rule less_le_trans [OF _ add_left_mono])
  then show ?thesis using assms by simp
qed

text \<open>
  The quotient of the two differences: positive, and less than twice the unit.
\<close>

lemma count_quotient:
  assumes "0 < (U :: nat)" "m0 \<le> m" "(m0 + c) div U < (m + c) div U"
  defines "d \<equiv> (m + c) div U - (m0 + c) div U"
  shows "0 < (m - m0) div d \<and> (m - m0) div d < 2 * U"
proof -
  define a where "a = (m0 + c) div U"
  define b where "b = (m + c) div U"
  have dpos: "0 < d" "b = a + d" using assms by (auto simp: a_def b_def)
  have lo: "a * U \<le> m0 + c" "m0 + c < a * U + U"
    using assms(1) dividend_less_div_times [of U "m0 + c"] by (simp_all add: a_def)
  have hi: "b * U \<le> m + c" "m + c < b * U + U"
    using assms(1) dividend_less_div_times [of U "m + c"] by (simp_all add: b_def)
  have "d * U \<le> m + c - a * U" using hi dpos by (simp add: algebra_simps)
  then have "d * U < m - m0 + U" using lo assms(2) by linarith
  then have "d \<le> m - m0"
  proof -
    have "(d - 1) * U < m - m0" using \<open>d * U < m - m0 + U\<close> dpos assms(1)
      by (cases d) (simp_all add: algebra_simps)
    moreover have "d - 1 \<le> (d - 1) * U" using assms(1) by simp
    ultimately show ?thesis by linarith
  qed
  moreover have "m - m0 < d * (2 * U)"
  proof -
    have "m - m0 < d * U + U" using hi lo dpos assms(2) by (simp add: algebra_simps)
    also have "\<dots> \<le> d * (2 * U)" using dpos by (cases d) simp_all
    finally show ?thesis .
  qed
  ultimately show ?thesis
    using dpos by (simp add: div_greater_zero_iff less_mult_imp_div_less mult.commute)
qed

lemma of_nat_less_small:
  "\<lbrakk>a < 2 ^ 64; b < 2 ^ 64\<rbrakk> \<Longrightarrow> (of_nat a :: 64 word) < of_nat b \<longleftrightarrow> a < b"
  by (simp add: word_less_nat_alt unat_of_nat_small)

lemma metric_below_init: "m < 2 ^ 62 \<Longrightarrow> (of_nat m :: 64 word) < - 1"
  by (simp add: word_less_nat_alt unat_of_nat_small unsigned_minus_1_eq_mask mask_eq_exp_minus_1)

lemma quotient_word:
  assumes "0 < U" "m0 \<le> m" "m < 2 ^ 62" "c < 2 ^ 62" "(m0 + c) div U < (m + c) div U"
  defines "w \<equiv> (of_nat m - of_nat m0 :: 64 word) div (of_nat ((m + c) div U) - of_nat ((m0 + c) div U))"
  shows "0 < unat w \<and> unat w < 2 * U \<and> unat w < 2 ^ 62"
    and "0 < unat (of_nat ((m + c) div U) - of_nat ((m0 + c) div U) :: 64 word)"
proof -
  have r: "(m + c) div U < 2 ^ 63" by (rule raw_small [OF assms(3,4)])
  have d: "unat (of_nat ((m + c) div U) - of_nat ((m0 + c) div U) :: 64 word)
      = (m + c) div U - (m0 + c) div U"
    using r assms(5) by (intro of_nat_diff_small) simp_all
  show "0 < unat (of_nat ((m + c) div U) - of_nat ((m0 + c) div U) :: 64 word)"
    using d assms(5) by simp
  have w: "unat w = (m - m0) div ((m + c) div U - (m0 + c) div U)"
    unfolding w_def unat_div d using assms(2,3) by (subst of_nat_diff_small) simp_all
  have "unat w \<le> m" unfolding w using div_le_dividend [of "m - m0"] by (rule order_trans) simp
  then have "unat w < 2 ^ 62" using assms(3) by (rule le_less_trans)
  moreover have "0 < unat w \<and> unat w < 2 * U"
    using count_quotient [OF assms(1,2,5)] by (simp only: w)
  ultimately show "0 < unat w \<and> unat w < 2 * U \<and> unat w < 2 ^ 62" by simp
qed

lemma unit_inv_sample:
  assumes U: "0 < U" and c: "c < 2 ^ 62" and inv: "unit_inv U c i u m"
    and le: "m \<le> m'" and m': "m' < 2 ^ 62"
  shows "unit_inv U c i (guessUnit i (of_nat ((m' + c) div U)) (of_nat m') u) m'"
proof -
  have r': "(m' + c) div U < 2 ^ 63" by (rule raw_small [OF m' c])
  have cmp: "(of_nat ((m0 + c) div U) :: 64 word) < of_nat ((m' + c) div U)
      \<longleftrightarrow> (m0 + c) div U < (m' + c) div U"
    "(of_nat m' :: 64 word) < of_nat m0 \<longleftrightarrow> m' < m0" if "m0 \<le> m" for m0
    using that le m' r' raw_small [of m0 c U] c by (simp_all add: of_nat_less_small)
  have eq: "(m0 + c) div U = (m' + c) div U"
    if "m0 \<le> m" "\<not> (m0 + c) div U < (m' + c) div U" for m0
    using that le div_le_mono [of "m0 + c" "m' + c" U] by simp
  have dif: "(of_nat m' - of_nat m0 :: 64 word) = of_nat (m' - m0)" if "m0 \<le> m" for m0
    using that le by simp
  show ?thesis
  proof (cases "ustate u i")
    case getMinUnit
    consider "otherMetricVal u i = - 1" "units u i = 0"
      | m0 where "m0 \<le> m" "otherMetricVal u i = of_nat m0"
          "prevSMARTrawVals u i = of_nat ((m0 + c) div U)" "(m0 + c) div U = (m + c) div U"
      using inv getMinUnit by (auto simp: unit_inv_def)
    then show ?thesis
    proof cases
      case 1
      then show ?thesis using getMinUnit m' metric_below_init [OF m']
        by (auto simp: unit_inv_def guessUnit_def)
    next
      case 2
      have u: "unat (of_nat (m' - m0) :: 64 word) < 2 ^ 63"
        using m' by (subst unat_of_nat_small) simp_all
      show ?thesis
      proof (cases "(m0 + c) div U < (m' + c) div U")
        case True
        then show ?thesis using getMinUnit 2 cmp [OF 2(1)] dif [OF 2(1)] le m' u
          by (auto simp: unit_inv_def guessUnit_def Let_def)
      next
        case False
        then show ?thesis
          using getMinUnit 2 cmp [OF 2(1)] eq [OF 2(1)] dif [OF 2(1)] le m'
          by (auto simp: unit_inv_def guessUnit_def Let_def intro!: exI [of _ m0])
      qed
    qed
  next
    case getUnitTillValInc
    then obtain m0 where m0: "m0 \<le> m" "otherMetricVal u i = of_nat m0"
          "prevSMARTrawVals u i = of_nat ((m0 + c) div U)" "(m0 + c) div U = (m + c) div U"
      using inv by (auto simp: unit_inv_def)
    then have m0': "m0 \<le> m'" using le by simp
    show ?thesis
    proof (cases "(m0 + c) div U < (m' + c) div U")
      case True
      then show ?thesis
        using getUnitTillValInc m0 m0' cmp [OF m0(1)] quotient_word [OF U m0' m' c True] m'
        by (auto simp: unit_inv_def guessUnit_def Let_def)
    next
      case False
      then show ?thesis
        using getUnitTillValInc m0 m0' cmp [OF m0(1)] eq [OF m0(1)] dif [OF m0(1)] m'
        by (auto simp: unit_inv_def guessUnit_def Let_def)
    qed
  next
    case getUnit
    then obtain m0 where m0: "m0 \<le> m" "otherMetricVal u i = of_nat m0"
          "prevSMARTrawVals u i = of_nat ((m0 + c) div U)"
      using inv by (auto simp: unit_inv_def)
    then have m0': "m0 \<le> m'" using le by simp
    define L where "L = lowerUnitBound u i"
    define H where "H = upperUnitBound u i"
    have LH: "0 < unat L" "unat L \<le> unat H" "unat H < 2 * U" "unat H < 2 ^ 62"
      using inv getUnit by (auto simp: unit_inv_def L_def H_def)
    show ?thesis
    proof (cases "(m0 + c) div U < (m' + c) div U \<and>
        SMARTrawValDiffs u i < of_nat ((m' + c) div U) - of_nat ((m0 + c) div U)")
      case True
      define w where "w = (of_nat m' - of_nat m0 :: 64 word)
        div (of_nat ((m' + c) div U) - of_nat ((m0 + c) div U))"
      note q = quotient_word [OF U m0' m' c True [THEN conjunct1], folded w_def]
      define lo where "lo = (if w <s L then w else L)"
      define hi where "hi = (if \<not> w <s L \<and> H <s w then w else H)"
      have s: "w <s L \<longleftrightarrow> unat w < unat L" "H <s w \<longleftrightarrow> unat H < unat w"
        using q LH by (simp_all add: small_sless)
      have b: "0 < unat lo" "unat lo \<le> unat hi" "unat hi < 2 * U" "unat hi < 2 ^ 62"
        using s q LH by (simp_all add: lo_def hi_def)
      then have "unat (lo + sdivw (hi - lo) 2) = unat lo + (unat hi - unat lo) div 2"
        by (intro half_between) simp_all
      then have "unat lo \<le> unat (lo + sdivw (hi - lo) 2)"
          "unat (lo + sdivw (hi - lo) 2) \<le> unat hi"
        using b by simp_all
      moreover have "guessUnit i (of_nat ((m' + c) div U)) (of_nat m') u =
          u\<lparr>SMARTrawValDiffs := (SMARTrawValDiffs u)(i := of_nat ((m' + c) div U) - of_nat ((m0 + c) div U)),
            lowerUnitBound := (lowerUnitBound u)(i := lo),
            upperUnitBound := (upperUnitBound u)(i := hi),
            otherMtrcValAtLastSMARTrawValInc := (otherMtrcValAtLastSMARTrawValInc u)(i := w),
            units := (units u)(i := lo + sdivw (hi - lo) 2)\<rparr>"
        using True getUnit m0 cmp [OF m0(1)]
        by (simp add: guessUnit_def Let_def L_def H_def lo_def hi_def w_def)
      ultimately show ?thesis
        using getUnit m0 m0' m' q b by (auto simp: unit_inv_def)
    next
      case False
      then have "guessUnit i (of_nat ((m' + c) div U)) (of_nat m') u = u"
        using getUnit m0 cmp [OF m0(1)] by (auto simp: guessUnit_def Let_def)
      then show ?thesis using inv getUnit m0 m0' m' by (auto simp: unit_inv_def)
    qed
  qed
qed

lemma unit_run_inv:
  assumes "unit_run U c i u m" "0 < U" "c < 2 ^ 62"
  shows "unit_inv U c i u m"
  using assms(1)
proof induction
  case (start u)
  show ?case by (simp add: unit_inv_def initAttrVals_def)
next
  case (sample u m m')
  then show ?case using unit_inv_sample [OF assms(2,3)] by blast
qed


definition run_example :: SMARTuniqueID where
  "run_example = guessUnit 9 1 10 (guessUnit 9 0 0 (initAttrVals blank_uid))"

lemma unit_run_start2: "unit_run 10 0 9 run_example 10"
  unfolding run_example_def
  using unit_run.sample [OF unit_run.sample [OF unit_run.start, of 0 10 0 9 blank_uid], of 10] by simp


text \<open>
  A unit marked with the greater bit is a true lower bound: without the bit
  it is less than the unit the drive counts in.
\<close>

theorem guessUnit_greater_bit:
  assumes "unit_run U c i u m" "0 < U" "c < 2 ^ 62" "greaterBit (units u i)"
  shows "unat (GetUnMaskedValue (units u i)) < U"
proof -
  note inv = unit_run_inv [OF assms(1-3)]
  have z: "\<not> greaterBit 0" by (rule greaterBit_small) simp
  have g: "unat (GetUnMaskedValue (setGreaterBit (of_nat (m - m0)))) < U"
    if "m0 \<le> m" "(m0 + c) div U = (m + c) div U" for m0
  proof -
    have "m - m0 < U" by (rule same_count_close [OF assms(2) that])
    moreover have "m < 2 ^ 62" using inv by (simp add: unit_inv_def)
    then have "unat (of_nat (m - m0) :: 64 word) = m - m0"
      by (intro unat_of_nat_small) simp
    moreover then have "unat (of_nat (m - m0) :: 64 word) < 2 ^ 63"
      using \<open>m < 2 ^ 62\<close> by simp
    ultimately show ?thesis by (simp only: greaterBit_small)
  qed
  show ?thesis
  proof (cases "ustate u i")
    case getMinUnit
    then show ?thesis using inv assms(4) z g by (auto simp: unit_inv_def)
  next
    case getUnitTillValInc
    then show ?thesis using inv assms(4) g greaterBit_small(1) [of "units u i"]
      by (auto simp: unit_inv_def)
  next
    case getUnit
    then have "unat (units u i) < 2 ^ 63" using inv by (simp add: unit_inv_def)
    then show ?thesis using greaterBit_small(1) assms(4) by blast
  qed
qed

theorem guessUnit_greater_bit_witness:
  "unat (GetUnMaskedValue (units (guessUnit 9 1 17 run_example) 9)) < 10"
proof (rule guessUnit_greater_bit [of 10 0 9 _ 17])
  show "unit_run 10 0 9 (guessUnit 9 1 17 run_example) 17"
    using unit_run.sample [OF unit_run_start2, of 17] by simp
  show "greaterBit (units (guessUnit 9 1 17 run_example) 9)" by code_simp
qed simp_all

end
