(* ===== verification/AttrValue.thy ===== *)
theory AttrValue
  imports UnitGuess
begin

unbundle bit_operations_syntax

text \<open>
  \<open>attributes/SMARTattr.hpp\<close>, \<open>SMARTattrVal.cpp\<close>,
  \<open>SMARTuniqueIDandValues.cpp\<close> and \<open>.hpp\<close>: one S.M.A.R.T.
  attribute as it is shared between the thread that reads the drive and the
  threads that show or send it, and a drive with all its attributes.

  The type \<open>'lw\<close> is \<open>long int\<close>, a word type \<open>'l word\<close> in the operations, the unit of the atomic
  operations; it has 32 or 64 bits. Values of 64 bits (the raw value, the time
  of retrieval) are stored as the list of their \<open>long int\<close> parts, least
  significant part first, together with the exclusive or of the parts. The
  field \<open>m_rawValue\<close> is the arbitrary precision number
  (\<open>boost::multiprecision::cpp_int\<close>) that the build with that library
  stores instead of the parts.
\<close>

record 'lw SMARTattr =
  m_rawValue :: int
  rawParts :: "'lw list"
  rawValueCheckSum :: 'lw
  timeStampOfRetrieval :: "'lw list"
  timeCheckSum :: 'lw
  successfullyReadSMARTrawValue :: 'lw
  normedCurrVal :: 'lw
  normedThresh :: 'lw
  valsCapacity :: nat

definition sizeOfLongIntInBytes :: "'l::len itself \<Rightarrow> nat" where
  "sizeOfLongIntInBytes T = LENGTH('l) div 8"

definition numTimesLongIntFitsInto8Bytes :: "'l::len itself \<Rightarrow> nat" where
  "numTimesLongIntFitsInto8Bytes T = 8 div sizeOfLongIntInBytes T"

definition highBytesSet :: "'l::len itself \<Rightarrow> byte list \<Rightarrow> nat \<Rightarrow> bool" where
  "highBytesSet T arr numBytes =
     (\<exists>arrIdx\<in>set [0..<numBytes - sizeOfLongIntInBytes T]. arr ! arrIdx \<noteq> 0)"

text \<open>The part of a 64 bit value at one index, and the value of a list of parts.\<close>

definition part64 :: "64 word \<Rightarrow> nat \<Rightarrow> 'l::len word" where
  "part64 v i = ucast (drop_bit (LENGTH('l) * i) v)"

fun join_parts :: "'l::len word list \<Rightarrow> 64 word" where
  "join_parts [] = 0"
| "join_parts (p # ps) = ucast p OR push_bit (LENGTH('l)) (join_parts ps)"

section \<open>The raw value in parts\<close>

fun setRawVal_loop :: "64 word \<Rightarrow> nat list \<Rightarrow> 'l::len word SMARTattr \<Rightarrow> 'l word SMARTattr" where
  "setRawVal_loop v [] a = a"
| "setRawVal_loop v (i # is) a = setRawVal_loop v is
     (a\<lparr>rawParts := (rawParts a)[i := part64 v i],
        rawValueCheckSum := rawValueCheckSum a XOR part64 v i\<rparr>)"

definition setRawVal :: "64 word \<Rightarrow> 'l::len word SMARTattr \<Rightarrow> 'l word SMARTattr" where
  "setRawVal v a =
     (let a0 = a\<lparr>rawValueCheckSum := 0\<rparr> in
      if sizeOfLongIntInBytes TYPE('l) < 8
      then setRawVal_loop v [0..<numTimesLongIntFitsInto8Bytes TYPE('l)] a0
      else a0\<lparr>rawParts := (rawParts a0)[0 := ucast v], rawValueCheckSum := ucast v\<rparr>)"

text \<open>
  \<open>IsConsistent\<close>: the loop over the parts counts down with an unsigned
  index and runs while the index is greater than the constant -1 of that type.
  The type \<open>'u\<close> is \<open>faststUint\<close>.
\<close>

function isConsistent_loop :: "'u::len word \<Rightarrow> 'l::len word SMARTattr \<Rightarrow> 64 word \<Rightarrow> 'l word
    \<Rightarrow> 64 word \<times> 'l word" where
  "isConsistent_loop idx a raw chk =
     (if - 1 < idx
      then isConsistent_loop (idx - 1) a
        (push_bit (sizeOfLongIntInBytes TYPE('l) * unat idx * 8)
          (raw OR ucast (rawParts a ! unat idx)))
        (chk XOR rawParts a ! unat idx)
      else (raw, chk))"
  by pat_completeness auto
termination
  by (relation "measure (\<lambda>(idx, _). unat idx)") (auto simp: word_n1_ge leD)

declare isConsistent_loop.simps [simp del]

definition IsConsistent :: "'u::len itself \<Rightarrow> 'l::len word SMARTattr \<Rightarrow> bool \<times> 64 word" where
  "IsConsistent T a =
     (let (raw, chk) =
        (if sizeOfLongIntInBytes TYPE('l) < 8
         then isConsistent_loop
           (of_nat (numTimesLongIntFitsInto8Bytes TYPE('l)) - 1 :: 'u word) a 0 0
         else (ucast (rawParts a ! 0), rawParts a ! 0))
      in (chk = rawValueCheckSum a, raw))"

lemma isConsistent_loop_no_iteration: "isConsistent_loop idx a raw chk = (raw, chk)"
  by (subst isConsistent_loop.simps) (simp add: word_n1_ge leD)

section \<open>The time of retrieval\<close>

text \<open>
  The writes \<open>SetRetrievalTime\<close> makes, one after the other, for an uptime
  of \<open>ms\<close> milliseconds: the first part, the check sum, and then every
  further part followed by the check sum it changes.
\<close>

definition time_first_steps :: "64 word \<Rightarrow> ('l::len word SMARTattr \<Rightarrow> 'l word SMARTattr) list" where
  "time_first_steps ms =
     [\<lambda>a. a\<lparr>timeStampOfRetrieval := (timeStampOfRetrieval a)[0 := ucast ms]\<rparr>,
      \<lambda>a. a\<lparr>timeCheckSum := ucast ms\<rparr>]"

definition time_part_steps :: "64 word \<Rightarrow> nat \<Rightarrow> ('l::len word SMARTattr \<Rightarrow> 'l word SMARTattr) list" where
  "time_part_steps ms idx =
     [\<lambda>a. a\<lparr>timeStampOfRetrieval := (timeStampOfRetrieval a)[idx := part64 ms idx]\<rparr>,
      \<lambda>a. a\<lparr>timeCheckSum := timeCheckSum a XOR part64 ms idx\<rparr>]"

definition time_steps :: "64 word \<Rightarrow> ('l::len word SMARTattr \<Rightarrow> 'l word SMARTattr) list" where
  "time_steps ms = time_first_steps ms
     @ concat (map (time_part_steps ms) [1..<numTimesLongIntFitsInto8Bytes TYPE('l)])"

definition run_steps :: "('s \<Rightarrow> 's) list \<Rightarrow> 's \<Rightarrow> 's" where
  "run_steps fs s = fold (\<lambda>f. f) fs s"

definition SetRetrievalTime :: "64 word \<Rightarrow> 'l::len word SMARTattr \<Rightarrow> 'l word SMARTattr" where
  "SetRetrievalTime ms a = run_steps (time_steps ms) a"

text \<open>
  \<open>GetRetrievalTime\<close>. Its \<open>for\<close> header is spread over a call that
  the source has in the middle of it; the loop is read as the one of
  \<open>SetRetrievalTime\<close>, over the parts from index 1.
\<close>

definition GetRetrievalTime :: "'l::len word SMARTattr \<Rightarrow> bool \<times> 64 word" where
  "GetRetrievalTime a =
     (let chk = fold (\<lambda>idx c. c XOR timeStampOfRetrieval a ! idx)
            [1..<numTimesLongIntFitsInto8Bytes TYPE('l)] (timeStampOfRetrieval a ! 0)
      in (chk = timeCheckSum a, join_parts (timeStampOfRetrieval a)))"

lemma sizes32 [simp]:
  "sizeOfLongIntInBytes TYPE(32) = 4" "numTimesLongIntFitsInto8Bytes TYPE(32) = 2"
  by (simp_all add: sizeOfLongIntInBytes_def numTimesLongIntFitsInto8Bytes_def)

lemma sizes64 [simp]:
  "sizeOfLongIntInBytes TYPE(64) = 8" "numTimesLongIntFitsInto8Bytes TYPE(64) = 1"
  by (simp_all add: sizeOfLongIntInBytes_def numTimesLongIntFitsInto8Bytes_def)

lemma upt_0_2 [simp]: "[0..<2] = [0, Suc 0]" "[Suc 0..<2] = [Suc 0]"
  by (simp_all add: upt_rec)

lemma xor_word_iff: "(p XOR q = r) \<longleftrightarrow> q = p XOR (r :: 'w::len word)"
  by (metis bit.xor_left_self)

lemma part64_0: "part64 v 0 = ucast v"
  by (simp add: part64_def)

text \<open>Splitting a 64 bit value into two parts of 32 bits loses nothing.\<close>

lemma join_parts32: "join_parts [part64 v 0, part64 v 1 :: 32 word] = v"
proof (rule bit_word_eqI)
  fix n assume n: "n < LENGTH(64)"
  then show "bit (join_parts [part64 v 0, part64 v 1 :: 32 word]) n = bit v n"
    by (cases "n < 32") (auto simp: part64_def bit_simps)
qed

lemma join_parts64: "join_parts [a :: 64 word] = a"
  by simp

text \<open>
  On a machine with 64 bit \<open>long int\<close> the raw value that was stored is
  read back and found consistent.
\<close>

theorem raw_value_roundtrip64:
  fixes a :: "64 word SMARTattr"
  assumes "rawParts a \<noteq> []"
  shows "IsConsistent TYPE('u::len) (setRawVal v a) = (True, v)"
  using assms by (cases "rawParts a") (simp_all add: IsConsistent_def setRawVal_def)

theorem raw_value_roundtrip64_witness:
  "IsConsistent TYPE(32) (setRawVal 281474976710655 \<lparr>m_rawValue = 0, rawParts = [7 :: 64 word],
     rawValueCheckSum = 9, timeStampOfRetrieval = [0], timeCheckSum = 0,
     successfullyReadSMARTrawValue = 0, normedCurrVal = 0, normedThresh = 0, valsCapacity = 0\<rparr>)
   = (True, 281474976710655)"
  by (rule raw_value_roundtrip64) simp

text \<open>
  On a machine with 32 bit \<open>long int\<close> the loop of \<open>IsConsistent\<close> is never
  entered: it returns the value 0 whatever was stored, and accepts it exactly
  when the two halves of the stored value are equal.
\<close>

theorem raw_value_lost32:
  fixes a :: "32 word SMARTattr"
  assumes "length (rawParts a) = 2"
  shows "IsConsistent TYPE('u::len) (setRawVal v a) = ((part64 v 0 :: 32 word) = part64 v 1, 0)"
  using assms
  by (auto simp: IsConsistent_def setRawVal_def isConsistent_loop_no_iteration xor_word_iff)

theorem raw_value_lost32_witness:
  "IsConsistent TYPE(32) (setRawVal 12067 \<lparr>m_rawValue = 0, rawParts = [0, 0 :: 32 word],
     rawValueCheckSum = 0, timeStampOfRetrieval = [0, 0], timeCheckSum = 0,
     successfullyReadSMARTrawValue = 1, normedCurrVal = 0, normedThresh = 0, valsCapacity = 0\<rparr>)
   = (False, 0)"
  by (subst raw_value_lost32) (simp, code_simp)

section \<open>Reading the time while it is written\<close>

lemma run_steps_append [simp]: "run_steps (fs @ gs) s = run_steps gs (run_steps fs s)"
  by (simp add: run_steps_def)

lemma time_steps32:
  "time_steps ms = [\<lambda>a :: 32 word SMARTattr. a\<lparr>timeStampOfRetrieval := (timeStampOfRetrieval a)[0 := ucast ms]\<rparr>,
     \<lambda>a. a\<lparr>timeCheckSum := ucast ms\<rparr>,
     \<lambda>a. a\<lparr>timeStampOfRetrieval := (timeStampOfRetrieval a)[1 := part64 ms 1]\<rparr>,
     \<lambda>a. a\<lparr>timeCheckSum := timeCheckSum a XOR part64 ms 1\<rparr>]"
  by (simp add: time_steps_def time_first_steps_def time_part_steps_def)

lemma GetRetrievalTime32:
  "timeStampOfRetrieval a = [x, y :: 32 word] \<Longrightarrow>
    GetRetrievalTime a = (x XOR y = timeCheckSum a, join_parts [x, y])"
  by (simp add: GetRetrievalTime_def)

text \<open>
  C19: What a reader sees of the time of retrieval, on a machine with 32 bit
  \<open>long int\<close>, between any two writes of \<open>SetRetrievalTime\<close>: a time that passes
  the check is the time before or the new one, except that with an old time
  below \<open>2 ^ 32\<close> milliseconds the low half of the new time alone is accepted
  after the second write.
\<close>

theorem torn_time_read:
  fixes a :: "32 word SMARTattr"
  assumes "timeStampOfRetrieval a = [x, y]" "timeCheckSum a = x XOR y" "k \<le> 4"
    and "GetRetrievalTime (run_steps (take k (time_steps ms)) a) = (True, t)"
  shows "t = join_parts [x, y] \<or> t = ms \<or>
    (k = 2 \<and> y = 0 \<and> t = join_parts [part64 ms 0, 0 :: 32 word])"
proof -
  have ms: "join_parts [ucast ms, part64 ms 1 :: 32 word] = ms"
    using join_parts32 [of ms] by (simp only: part64_0)
  have eq0: "(p XOR q = p) \<longleftrightarrow> q = 0" for p q :: "32 word"
    by (simp add: xor_word_iff)
  have eq1: "(p XOR y = x XOR y) \<longleftrightarrow> p = x" for p :: "32 word"
    by (metis xor.commute xor_word_iff)
  have st: "timeStampOfRetrieval (run_steps (take k (time_steps ms)) a) =
      [if 1 \<le> k then ucast ms else x, if 3 \<le> k then part64 ms 1 else y]"
    "timeCheckSum (run_steps (take k (time_steps ms)) a) =
      (if k \<le> 1 then x XOR y else if k \<le> 3 then ucast ms else ucast ms XOR part64 ms 1)"
    using assms(1-3)
    by (auto simp: time_steps32 run_steps_def take_Cons' numeral_eq_Suc le_Suc_eq)
  show ?thesis
    using assms(3,4) ms unfolding GetRetrievalTime32 [OF st(1)] st(2)
    by (auto simp: part64_0 eq0 eq1 le_Suc_eq numeral_eq_Suc split: if_splits)
qed

definition attr_example :: "32 word SMARTattr" where
  "attr_example = \<lparr>m_rawValue = 0, rawParts = [0, 0], rawValueCheckSum = 0,
     timeStampOfRetrieval = [4294967295, 0], timeCheckSum = 4294967295,
     successfullyReadSMARTrawValue = 1, normedCurrVal = 100, normedThresh = 10, valsCapacity = 0\<rparr>"

text \<open>
  49.7 days after the system start the exception is met: the time before is
  \<open>2 ^ 32 - 1\<close> ms, the new one one second later, and the reader gets 999 ms.
\<close>

lemma torn_time_read_accepted:
  "GetRetrievalTime (run_steps (take 2 (time_steps 4294968295)) attr_example) = (True, 999)"
  by code_simp

theorem torn_time_read_witness:
  "(999 :: 64 word) = join_parts [4294967295, 0 :: 32 word] \<or> (999 :: 64 word) = 4294968295 \<or>
    ((2 :: nat) = 2 \<and> (0 :: 32 word) = 0
      \<and> (999 :: 64 word) = join_parts [part64 4294968295 0, 0 :: 32 word])"
  using torn_time_read [of attr_example 4294967295 0 2 4294968295 999] torn_time_read_accepted
  by (simp add: attr_example_def)

text \<open>
  A time stored completely is read back, with 32 and with 64 bit
  \<open>long int\<close>.
\<close>

theorem retrieval_time_roundtrip:
  fixes a :: "32 word SMARTattr" and b :: "64 word SMARTattr"
  assumes "length (timeStampOfRetrieval a) = 2" "length (timeStampOfRetrieval b) = 1"
  shows "GetRetrievalTime (SetRetrievalTime ms a) = (True, ms)
    \<and> GetRetrievalTime (SetRetrievalTime ms b) = (True, ms)"
proof
  obtain x y where xy: "timeStampOfRetrieval a = [x, y]"
    using assms(1) by (auto simp: numeral_2_eq_2 length_Suc_conv)
  have "timeStampOfRetrieval (SetRetrievalTime ms a) = [ucast ms, part64 ms 1]"
    "timeCheckSum (SetRetrievalTime ms a) = ucast ms XOR part64 ms 1"
    by (simp_all add: SetRetrievalTime_def time_steps32 run_steps_def xy)
  moreover have "join_parts [ucast ms, part64 ms 1 :: 32 word] = ms"
    using join_parts32 [of ms] by (simp only: part64_0)
  ultimately show "GetRetrievalTime (SetRetrievalTime ms a) = (True, ms)"
    by (simp only: GetRetrievalTime32 refl)
next
  obtain z where "timeStampOfRetrieval b = [z]"
    using assms(2) by (auto simp: length_Suc_conv)
  then show "GetRetrievalTime (SetRetrievalTime ms b) = (True, ms)"
    by (simp add: SetRetrievalTime_def time_steps_def time_first_steps_def run_steps_def
        GetRetrievalTime_def)
qed

theorem retrieval_time_roundtrip_witness:
  "GetRetrievalTime (SetRetrievalTime 4294968295 attr_example) = (True, 4294968295)"
  by (rule retrieval_time_roundtrip [THEN conjunct1, of attr_example
        "\<lparr>m_rawValue = 0, rawParts = [0], rawValueCheckSum = 0, timeStampOfRetrieval = [0],
          timeCheckSum = 0, successfullyReadSMARTrawValue = 0, normedCurrVal = 0,
          normedThresh = 0, valsCapacity = 0\<rparr>"])
     (simp_all add: attr_example_def)

section \<open>The raw value as a number, under a critical section\<close>

text \<open>
  The build with \<open>boost::multiprecision\<close>: the raw value is the number the
  bytes stand for, least significant byte first. The calls of the critical
  section of all attributes are recorded in the order they are made.
\<close>

datatype cs_call = CS_Enter | CS_Leave

fun bytes_value :: "byte list \<Rightarrow> int" where
  "bytes_value [] = 0"
| "bytes_value (b # bs) = uint b + 256 * bytes_value bs"

text \<open>
  \<open>setRawVal\<close> for bytes enters the critical section only for more bytes than a
  \<open>long int\<close> has, and leaves it always.
\<close>

definition setRawVal_bytes :: "byte list \<Rightarrow> nat \<Rightarrow> 64 word \<Rightarrow> 'l::len word SMARTattr
    \<Rightarrow> 'l word SMARTattr \<times> cs_call list" where
  "setRawVal_bytes raw numB ms a =
     (let a1 = SetRetrievalTime ms (a\<lparr>successfullyReadSMARTrawValue := 1\<rparr>);
          enter = (if sizeOfLongIntInBytes TYPE('l) < numB then [CS_Enter] else [])
      in (a1\<lparr>m_rawValue := bytes_value (take numB raw)\<rparr>, enter @ [CS_Leave]))"

definition getRawVal :: "nat \<Rightarrow> 'l::len word SMARTattr \<Rightarrow> int \<times> cs_call list" where
  "getRawVal numB a =
     (m_rawValue a, (if sizeOfLongIntInBytes TYPE('l) < numB then [CS_Enter] else []) @ [CS_Leave])"

text \<open>The owner's nesting depth after a sequence of calls; leaving without owning is an error.\<close>

fun cs_run :: "cs_call list \<Rightarrow> nat \<Rightarrow> nat option" where
  "cs_run [] d = Some d"
| "cs_run (CS_Enter # cs) d = cs_run cs (Suc d)"
| "cs_run (CS_Leave # cs) d = (if d = 0 then None else cs_run cs (d - 1))"

text \<open>
  Reading and writing a raw value use the critical section correctly
  exactly when the value has more bytes than a \<open>long int\<close>; a 6 byte ATA value on
  a machine with 64 bit \<open>long int\<close> leaves a section it has not entered.
\<close>

theorem critical_section_balanced:
  fixes a :: "'l::len word SMARTattr"
  shows "cs_run (snd (setRawVal_bytes raw numB ms a)) 0
      = (if sizeOfLongIntInBytes TYPE('l) < numB then Some 0 else None)
    \<and> cs_run (snd (getRawVal numB a)) 0
      = (if sizeOfLongIntInBytes TYPE('l) < numB then Some 0 else None)"
  by (simp add: setRawVal_bytes_def getRawVal_def Let_def)

lemma bytes_value_bound: "0 \<le> bytes_value bs \<and> bytes_value bs < 256 ^ length bs"
proof (induction bs)
  case (Cons b bs)
  have "uint b < 256" using uint_lt2p [of b] by simp
  moreover have "0 \<le> uint b" by simp
  ultimately show ?case using Cons by (simp del: uint_ge_0)
qed simp

lemma run_steps_raw:
  "m_rawValue (run_steps (time_steps ms) a) = m_rawValue a
    \<and> successfullyReadSMARTrawValue (run_steps (time_steps ms) a) = successfullyReadSMARTrawValue a
    \<and> normedCurrVal (run_steps (time_steps ms) a) = normedCurrVal a
    \<and> normedThresh (run_steps (time_steps ms) a) = normedThresh a"
proof -
  let ?P = "\<lambda>f. \<forall>a :: 'a word SMARTattr. m_rawValue (f a) = m_rawValue a
    \<and> successfullyReadSMARTrawValue (f a) = successfullyReadSMARTrawValue a
    \<and> normedCurrVal (f a) = normedCurrVal a \<and> normedThresh (f a) = normedThresh a"
  have "?P (run_steps fs)" if "\<forall>f\<in>set fs. ?P f" for fs
    using that by (induction fs) (simp_all add: run_steps_def)
  moreover have "\<forall>f\<in>set (time_steps ms). ?P f"
    by (auto simp: time_steps_def time_first_steps_def time_part_steps_def)
  ultimately show ?thesis by blast
qed

section \<open>Copying an attribute\<close>

text \<open>
  \<open>copyAttrs\<close>, used by the copy constructor and the assignment operator: the
  time, its check sum, the success flag and the raw value.
\<close>

definition copyAttrs :: "'l::len word SMARTattr \<Rightarrow> 'l word SMARTattr \<Rightarrow> 'l word SMARTattr" where
  "copyAttrs src dst =
     setRawVal (join_parts (rawParts src))
       (dst\<lparr>timeStampOfRetrieval := timeStampOfRetrieval src,
             timeCheckSum := timeCheckSum src,
             successfullyReadSMARTrawValue := successfullyReadSMARTrawValue src,
             m_rawValue := m_rawValue src\<rparr>)"

lemma setRawVal_other:
  "timeStampOfRetrieval (setRawVal v a) = timeStampOfRetrieval a
    \<and> timeCheckSum (setRawVal v a) = timeCheckSum a
    \<and> successfullyReadSMARTrawValue (setRawVal v a) = successfullyReadSMARTrawValue a
    \<and> m_rawValue (setRawVal v a) = m_rawValue a
    \<and> normedCurrVal (setRawVal v a) = normedCurrVal a
    \<and> normedThresh (setRawVal v a) = normedThresh a"
proof -
  have "timeStampOfRetrieval (setRawVal_loop v ks b) = timeStampOfRetrieval b
    \<and> timeCheckSum (setRawVal_loop v ks b) = timeCheckSum b
    \<and> successfullyReadSMARTrawValue (setRawVal_loop v ks b) = successfullyReadSMARTrawValue b
    \<and> m_rawValue (setRawVal_loop v ks b) = m_rawValue b
    \<and> normedCurrVal (setRawVal_loop v ks b) = normedCurrVal b
    \<and> normedThresh (setRawVal_loop v ks b) = normedThresh b" for ks and b :: "'a word SMARTattr"
    by (induction ks arbitrary: b) simp_all
  then show ?thesis by (simp add: setRawVal_def Let_def)
qed

text \<open>
  A copied attribute has the raw value, the success flag and the time of
  the original, and with 64 bit \<open>long int\<close> is as consistent as it; its
  normalised current value and threshold are those the target had before.
\<close>

theorem copyAttrs_copies:
  fixes src :: "64 word SMARTattr"
  assumes "length (rawParts src) = 1" "length (rawParts dst) = 1"
  shows "rawParts (copyAttrs src dst) = rawParts src
    \<and> fst (IsConsistent TYPE('u::len) (copyAttrs src dst))
    \<and> GetRetrievalTime (copyAttrs src dst) = GetRetrievalTime src
    \<and> successfullyReadSMARTrawValue (copyAttrs src dst) = successfullyReadSMARTrawValue src
    \<and> normedCurrVal (copyAttrs src dst) = normedCurrVal dst
    \<and> normedThresh (copyAttrs src dst) = normedThresh dst"
proof -
  obtain r t where r: "rawParts src = [r]" and t: "rawParts dst = [t]"
    using assms by (auto simp: length_Suc_conv)
  have "rawParts (copyAttrs src dst) = rawParts src"
    "rawValueCheckSum (copyAttrs src dst) = r"
    by (simp_all add: copyAttrs_def setRawVal_def r t)
  moreover have "GetRetrievalTime (copyAttrs src dst) = GetRetrievalTime src"
    by (simp add: GetRetrievalTime_def copyAttrs_def setRawVal_other)
  ultimately show ?thesis
    by (simp add: IsConsistent_def r) (simp add: copyAttrs_def setRawVal_other)
qed

definition attr_example64 :: "64 word SMARTattr" where
  "attr_example64 = \<lparr>m_rawValue = 5, rawParts = [5], rawValueCheckSum = 5,
     timeStampOfRetrieval = [8], timeCheckSum = 8, successfullyReadSMARTrawValue = 1,
     normedCurrVal = 1, normedThresh = 36, valsCapacity = 6\<rparr>"

theorem copyAttrs_copies_witness:
  "normedCurrVal (copyAttrs attr_example64
      (attr_example64\<lparr>rawParts := [0], normedCurrVal := 100, normedThresh := 10\<rparr>)) = 100"
  using copyAttrs_copies [where 'u = 32, of attr_example64
      "attr_example64\<lparr>rawParts := [0], normedCurrVal := 100, normedThresh := 10\<rparr>"]
  by (simp add: attr_example64_def)

section \<open>A drive with its attributes\<close>

record 'lw SMARTuniqueIDandValues =
  m_SMARTuniqueID :: SMARTuniqueID
  m_SMARTattrs :: "attr_id \<Rightarrow> 'lw SMARTattr"

text \<open>\<open>SetCapacity\<close> of the byte array of each attribute, for the bus of the drive.\<close>

definition setNumAttrRawValBytes ::
    "hw_sizes \<Rightarrow> 'lw SMARTuniqueIDandValues \<Rightarrow> 'lw SMARTuniqueIDandValues" where
  "setNumAttrRawValBytes h d =
     (let (n, cap) = (case busType (m_SMARTuniqueID d) of
            NVMe \<Rightarrow> (numNVMePlus1 h, rawB_NVMe h)
          | _ \<Rightarrow> (numMaxATAplus1 h, rawB_ATA h))
      in d\<lparr>m_SMARTattrs := (\<lambda>i. if i < n then (m_SMARTattrs d i)\<lparr>valsCapacity := cap\<rparr>
                               else m_SMARTattrs d i)\<rparr>)"

definition SetDataCarrierID ::
    "hw_sizes \<Rightarrow> SMARTuniqueID \<Rightarrow> 'lw SMARTuniqueIDandValues \<Rightarrow> 'lw SMARTuniqueIDandValues" where
  "SetDataCarrierID h u d =
     setNumAttrRawValBytes h (d\<lparr>m_SMARTuniqueID := assign h (m_SMARTuniqueID d) u\<rparr>)"

definition getSMARTattr :: "attr_id \<Rightarrow> 'l::len word SMARTuniqueIDandValues
    \<Rightarrow> 'l word SMARTattr \<Rightarrow> 'l word SMARTattr \<times> int" where
  "getSMARTattr i d target = (copyAttrs (m_SMARTattrs d i) target, 0)"

definition drive_less :: "hw_sizes \<Rightarrow> 'lw SMARTuniqueIDandValues \<Rightarrow> 'lw SMARTuniqueIDandValues \<Rightarrow> bool" where
  "drive_less h l r = uid_less h (m_SMARTuniqueID l) (m_SMARTuniqueID r)"

interpretation drive: strict_weak_order "drive_less h" for h
  by (rule strict_weak_order_key [of _ "\<lambda>d. uid_key h (m_SMARTuniqueID d)"])
     (simp add: drive_less_def uid_less_key)

text \<open>
  \<open>setSMART_IDsToReadFromSuccSMARTrawValUpd8\<close>: the loop over the attribute IDs
  from 1, writing every one that was read at the next index.
\<close>

fun setIDsFromRead_loop :: "(attr_id \<Rightarrow> bool) \<Rightarrow> attr_id list \<Rightarrow> nat \<Rightarrow> attr_id list
    \<Rightarrow> nat \<times> attr_id list" where
  "setIDsFromRead_loop ok [] idx arr = (idx, arr)"
| "setIDsFromRead_loop ok (i # ks) idx arr =
     (if ok i then setIDsFromRead_loop ok ks (Suc idx) (arr[idx := i])
      else setIDsFromRead_loop ok ks idx arr)"

definition setSMART_IDsToReadFromSuccSMARTrawValUpd8 ::
    "hw_sizes \<Rightarrow> 'l::len word SMARTuniqueIDandValues \<Rightarrow> 'l word SMARTuniqueIDandValues" where
  "setSMART_IDsToReadFromSuccSMARTrawValUpd8 h d =
     (let (idx, arr) = setIDsFromRead_loop
            (\<lambda>i. successfullyReadSMARTrawValue (m_SMARTattrs d i) \<noteq> 0) [1..<numSATA h] 0
            (SMART_IDsToRd (m_SMARTuniqueID d))
      in d\<lparr>m_SMARTuniqueID := (m_SMARTuniqueID d)\<lparr>SMART_IDsToRd := arr[idx := 0]\<rparr>\<rparr>)"

lemma setIDsFromRead_loop_spec:
  "\<lbrakk>setIDsFromRead_loop ok ks idx arr = (idx', arr'); idx + length ks \<le> length arr\<rbrakk>
    \<Longrightarrow> idx' = idx + length (filter ok ks) \<and> length arr' = length arr
      \<and> take (idx + length (filter ok ks)) arr' = take idx arr @ filter ok ks"
proof (induction ks arbitrary: idx arr)
  case (Cons k ks)
  show ?case
  proof (cases "ok k")
    case True
    then have "idx' = Suc idx + length (filter ok ks) \<and> length arr' = length arr
      \<and> take (Suc idx + length (filter ok ks)) arr' = take (Suc idx) (arr[idx := k]) @ filter ok ks"
      using Cons.IH [of "Suc idx" "arr[idx := k]"] Cons.prems by simp
    then show ?thesis using True Cons.prems by (simp add: take_Suc_conv_app_nth)
  next
    case False
    then have "setIDsFromRead_loop ok ks idx arr = (idx', arr')" using Cons.prems by simp
    moreover have "idx + length ks \<le> length arr" using Cons.prems by simp
    ultimately show ?thesis using Cons.IH [of idx arr] False by auto
  qed
qed simp

text \<open>
  After an update the IDs to read are exactly the IDs whose value was read
  successfully, in ascending order.
\<close>

theorem IDsToRead_from_read_values:
  assumes "length (SMART_IDsToRd (m_SMARTuniqueID d)) = numSATA h" "0 < numSATA h"
  shows "id_list (SMART_IDsToRd (m_SMARTuniqueID (setSMART_IDsToReadFromSuccSMARTrawValUpd8 h d)))
    = filter (\<lambda>i. successfullyReadSMARTrawValue (m_SMARTattrs d i) \<noteq> 0) [1..<numSATA h]"
proof -
  let ?ok = "\<lambda>i. successfullyReadSMARTrawValue (m_SMARTattrs d i) \<noteq> 0"
  let ?F = "filter ?ok [1..<numSATA h]"
  obtain idx arr where lp: "setIDsFromRead_loop ?ok [1..<numSATA h] 0
      (SMART_IDsToRd (m_SMARTuniqueID d)) = (idx, arr)" by fastforce
  have "idx = length ?F" "length arr = numSATA h" "take (length ?F) arr = ?F"
    using setIDsFromRead_loop_spec [OF lp] assms by simp_all
  moreover have "length ?F < numSATA h"
    using length_filter_le [of ?ok "[1..<numSATA h]"] assms(2) by simp
  moreover have "0 \<notin> set ?F" by simp
  ultimately have "id_list (arr[idx := 0]) = ?F" by (simp add: id_list_mark_end del: set_filter)
  then show ?thesis
    unfolding setSMART_IDsToReadFromSuccSMARTrawValUpd8_def lp by simp
qed

theorem IDsToRead_from_read_values_witness:
  "let d = \<lparr>m_SMARTuniqueID = blank_uid\<lparr>SMART_IDsToRd := [0, 0, 0, 0, 0]\<rparr>,
            m_SMARTattrs = (\<lambda>i. attr_example\<lparr>successfullyReadSMARTrawValue := if i = 3 then 1 else 0\<rparr>)\<rparr>
   in id_list (SMART_IDsToRd (m_SMARTuniqueID (setSMART_IDsToReadFromSuccSMARTrawValUpd8
        (std_sizes\<lparr>numSATA := 5\<rparr>) d))) = [3]"
  unfolding Let_def
  by (subst IDsToRead_from_read_values) (simp_all add: std_sizes_def upt_rec)

section \<open>Detecting the unit of an attribute\<close>

text \<open>
  \<open>SMARTaccessBase::possiblyAutoDetectUnit\<close>. The uptime in nanoseconds and the
  numbers of bytes written and read, with their success, come from the
  operating system.
\<close>

record os_metrics =
  uptimeInNs :: "64 word"
  numWrittenBsinceOSstart :: "64 word option"
  numReadBsinceOSstart :: "64 word option"

definition possiblyAutoDetectUnit ::
    "ata_ids \<Rightarrow> os_metrics \<Rightarrow> attr_id \<Rightarrow> 64 word \<Rightarrow> SMARTuniqueID \<Rightarrow> SMARTuniqueID" where
  "possiblyAutoDetectUnit A os i raw u =
     (if i = PowerOnTime A then guessUnit i raw (uptimeInNs os div 1000000) u
      else if i = GiB_Erased A then u
      else if i = TotalDataWritten A then
        (case numWrittenBsinceOSstart os of Some n \<Rightarrow> guessUnit i raw n u | None \<Rightarrow> u)
      else if i = TotalDataRead A then
        (case numReadBsinceOSstart os of Some n \<Rightarrow> guessUnit i raw n u | None \<Rightarrow> u)
      else u)"

lemma guessUnit_other:
  "j \<noteq> i \<Longrightarrow> units (guessUnit i raw m u) j = units u j \<and> ustate (guessUnit i raw m u) j = ustate u j
    \<and> lowerUnitBound (guessUnit i raw m u) j = lowerUnitBound u j
    \<and> upperUnitBound (guessUnit i raw m u) j = upperUnitBound u j"
  by (auto simp: guessUnit_def Let_def split: unit_state.splits)

text \<open>
  Detecting the unit of one attribute leaves the units, states and bounds
  of all others alone, and nothing changes for an attribute that is neither a
  time nor an amount of data, or whose metric the operating system cannot tell.
\<close>

theorem possiblyAutoDetectUnit_frame:
  "(j \<noteq> i \<longrightarrow> units (possiblyAutoDetectUnit A os i raw u) j = units u j
      \<and> lowerUnitBound (possiblyAutoDetectUnit A os i raw u) j = lowerUnitBound u j
      \<and> upperUnitBound (possiblyAutoDetectUnit A os i raw u) j = upperUnitBound u j)
    \<and> (i \<notin> {PowerOnTime A, TotalDataWritten A, TotalDataRead A} \<longrightarrow>
      possiblyAutoDetectUnit A os i raw u = u)
    \<and> (numWrittenBsinceOSstart os = None \<and> numReadBsinceOSstart os = None \<and> i \<noteq> PowerOnTime A \<longrightarrow>
      possiblyAutoDetectUnit A os i raw u = u)"
  by (auto simp: possiblyAutoDetectUnit_def guessUnit_other split: option.splits)

theorem possiblyAutoDetectUnit_frame_witness:
  "units (possiblyAutoDetectUnit std_ata \<lparr>uptimeInNs = 5000000, numWrittenBsinceOSstart = Some 4096,
     numReadBsinceOSstart = None\<rparr> 9 1 blank_uid) 241 = units blank_uid 241"
  by (rule possiblyAutoDetectUnit_frame [THEN conjunct1, rule_format, THEN conjunct1]) simp

end
