(* ===== verification/AtaAccess.thy ===== *)
theory AtaAccess
  imports AttrValue
begin

text \<open>
  \<open>libATA_SMART/SMARTaccess.cpp\<close> and \<open>SMARTaccess.hpp\<close>: reading the
  attributes of ATA drives through the library libatasmart.

  The library is a parameter: \<open>sk_disk\<close> is what its calls answer for one
  opened device. Its parser hands the attributes of the device to a callback,
  one after the other; every call comes with the figures the operating system
  has at that moment.
\<close>

record sk_attr =
  sk_name :: string
  sk_id :: byte
  sk_threshold :: byte
  sk_current :: byte
  sk_raw :: "byte list"
  sk_behind_raw :: "byte list"

type_synonym sk_call = "sk_attr \<times> os_metrics \<times> 64 word"

record sk_disk =
  open_rc :: int
  read_data_rc :: int
  identify_avail_rc :: int
  identify_avail :: bool
  identify_parse :: "(char list \<times> char list \<times> char list) option"
  parse_calls :: "sk_call list"
  parse_rc :: int
  errno_EACCES :: bool

datatype retCodes = success | accessDenied | noSingleSMARTdevice | gotSMARTattributeValue
  | unset | getBusTypFaild | otherError

abbreviation call_id :: "sk_call \<Rightarrow> attr_id" where
  "call_id c \<equiv> unat (sk_id (fst c))"

section \<open>Supported attributes\<close>

text \<open>
  \<open>suppSMART_IDsType\<close>: a \<open>std::set\<close> of names and IDs, ordered by the ID.
\<close>

definition nameAndID_less :: "string \<times> attr_id \<Rightarrow> string \<times> attr_id \<Rightarrow> bool" where
  "nameAndID_less l r = (snd l < snd r)"

interpretation nameAndID: strict_weak_order nameAndID_less
  by (rule strict_weak_order_key [of _ snd]) (simp add: nameAndID_less_def)

definition getDriveSupportedSMART_IDs :: "sk_call \<Rightarrow> (string \<times> attr_id) list \<Rightarrow> (string \<times> attr_id) list" where
  "getDriveSupportedSMART_IDs c supp = set_insert nameAndID_less (sk_name (fst c), call_id c) supp"

definition GetSupportedSMART_IDs :: "sk_disk \<Rightarrow> (string \<times> attr_id) list \<Rightarrow> int \<times> (string \<times> attr_id) list" where
  "GetSupportedSMART_IDs D supp =
     (if open_rc D = - 1 then (- 1, supp)
      else if read_data_rc D = 0 then (parse_rc D, fold getDriveSupportedSMART_IDs (parse_calls D) supp)
      else (read_data_rc D, supp))"

section \<open>The callback that copies the attributes to read\<close>

text \<open>
  \<open>SetRawValue\<close> stores the raw value in both representations of the attribute.
\<close>

definition cpySMARTattrThreadSafe :: "64 word \<Rightarrow> 64 word \<Rightarrow> 'l::len word SMARTattr \<Rightarrow> 'l word SMARTattr" where
  "cpySMARTattrThreadSafe raw ms a =
     SetRetrievalTime ms
       (((setRawVal raw a)\<lparr>m_rawValue := uint raw\<rparr>)\<lparr>successfullyReadSMARTrawValue := 1\<rparr>)"

record 'lw attr_helper =
  ah_drive :: "'lw SMARTuniqueIDandValues"
  currSMART_IDtoReadIdx :: nat
  IDsOfSMARTattrsToRd :: "attr_id list"

text \<open>The loop that moves the index on; None is an access behind the array.\<close>

function seek_id :: "attr_id list \<Rightarrow> attr_id \<Rightarrow> nat \<Rightarrow> nat option" where
  "seek_id R i k =
     (if k < length R then
        if R ! k < i then if R ! k = 0 then Some k else seek_id R i (Suc k)
        else Some k
      else None)"
  by pat_completeness auto
termination by (relation "measure (\<lambda>(R, i, k). length R - k)") auto

declare seek_id.simps [simp del]

text \<open>
  The raw value is read as 8 bytes from the array of the library's 6 bytes: the
  upper two are those behind the array.
\<close>

definition callback_raw :: "sk_attr \<Rightarrow> 64 word" where
  "callback_raw a = word_of_int (bytes_value (take 8 (sk_raw a @ sk_behind_raw a)))"

definition store_attr :: "ata_ids \<Rightarrow> sk_call \<Rightarrow> 'l::len word SMARTuniqueIDandValues
    \<Rightarrow> 'l word SMARTuniqueIDandValues" where
  "store_attr A c d = (case c of (a, os, ms) \<Rightarrow>
     (let i = unat (sk_id a); raw = callback_raw a;
          v = cpySMARTattrThreadSafe raw ms (m_SMARTattrs d i)
      in d\<lparr>m_SMARTuniqueID := possiblyAutoDetectUnit A os i raw (m_SMARTuniqueID d),
           m_SMARTattrs := (m_SMARTattrs d)(i :=
             v\<lparr>normedThresh := ucast (sk_threshold a), normedCurrVal := ucast (sk_current a)\<rparr>)\<rparr>))"

definition clear_attr :: "attr_id \<Rightarrow> 'l::len word SMARTuniqueIDandValues
    \<Rightarrow> 'l word SMARTuniqueIDandValues" where
  "clear_attr i d = d\<lparr>m_SMARTattrs := (m_SMARTattrs d)(i :=
     (m_SMARTattrs d i)\<lparr>successfullyReadSMARTrawValue := 0\<rparr>)\<rparr>"

definition getSMARTrawValueCallback :: "ata_ids \<Rightarrow> sk_call \<Rightarrow> 'l::len word attr_helper
    \<Rightarrow> 'l word attr_helper option" where
  "getSMARTrawValueCallback A c H =
     (case seek_id (IDsOfSMARTattrsToRd H) (call_id c) (currSMART_IDtoReadIdx H) of
        None \<Rightarrow> None
      | Some k \<Rightarrow>
          Some (H\<lparr>currSMART_IDtoReadIdx := k,
                  ah_drive := (if IDsOfSMARTattrsToRd H ! k = call_id c
                               then store_attr A c (ah_drive H)
                               else clear_attr (call_id c) (ah_drive H))\<rparr>))"

fun parse_attributes :: "ata_ids \<Rightarrow> sk_call list \<Rightarrow> 'l::len word attr_helper \<Rightarrow> 'l word attr_helper option" where
  "parse_attributes A [] H = Some H"
| "parse_attributes A (c # cs) H =
     (case getSMARTrawValueCallback A c H of None \<Rightarrow> None | Some H1 \<Rightarrow> parse_attributes A cs H1)"

text \<open>\<open>readSMARTAttrs\<close>; what it returns only decides what \<open>copySMARTvalues\<close> logs.\<close>

definition readSMARTAttrs :: "ata_ids \<Rightarrow> sk_disk \<Rightarrow> 'l::len word attr_helper
    \<Rightarrow> (int \<times> 'l word attr_helper) option" where
  "readSMARTAttrs A D H =
     map_option (\<lambda>H1. (if parse_rc D < 0 then - 1 else 0, H1)) (parse_attributes A (parse_calls D) H)"

definition copySMARTvalues :: "ata_ids \<Rightarrow> sk_disk \<Rightarrow> 'l::len word attr_helper \<Rightarrow> 'l word attr_helper option" where
  "copySMARTvalues A D H = map_option snd (readSMARTAttrs A D H)"

section \<open>One device\<close>

text \<open>
  \<open>fill\<close>: the identification of the device, where every call of the library
  succeeds.
\<close>

definition fill :: "hw_sizes \<Rightarrow> sk_disk \<Rightarrow> SMARTuniqueID \<Rightarrow> SMARTuniqueID" where
  "fill h D u =
     (if open_rc D \<noteq> - 1 \<and> read_data_rc D = 0 \<and> identify_avail_rc D = 0 \<and> identify_avail D
      then (case identify_parse D of
              Some (fw, model, serial) \<Rightarrow>
                u\<lparr>firmWareName := strncpy (numFWbytes h + 1) fw (firmWareName u),
                  modelName := strncpy (numModelBytes h + 1) model (modelName u),
                  serialNumber := strncpy (numSNbytes h + 1) serial (serialNumber u)\<rparr>
            | None \<Rightarrow> u)
      else u)"

text \<open>
  The constructor of an object from its identification, and the copy
  constructor that puts it into the container; \<open>d0\<close> is an object before its
  constructor has run.
\<close>

definition drive_new :: "hw_sizes \<Rightarrow> 'l::len word SMARTuniqueIDandValues \<Rightarrow> SMARTuniqueID
    \<Rightarrow> 'l word SMARTuniqueIDandValues" where
  "drive_new h d0 u = d0\<lparr>m_SMARTuniqueID := assign h (m_SMARTuniqueID d0) u\<rparr>"

definition drive_copy :: "hw_sizes \<Rightarrow> 'l::len word SMARTuniqueIDandValues
    \<Rightarrow> 'l word SMARTuniqueIDandValues \<Rightarrow> 'l word SMARTuniqueIDandValues" where
  "drive_copy h d0 obj =
     \<lparr>m_SMARTuniqueID = assign h (m_SMARTuniqueID d0) (m_SMARTuniqueID obj),
      m_SMARTattrs = (\<lambda>i. if i < numMaxATAplus1 h then copyAttrs (m_SMARTattrs obj i) (m_SMARTattrs d0 i)
                          else m_SMARTattrs d0 i)\<rparr>"

text \<open>The element of the container that is equivalent to \<open>x\<close>, changed in place.\<close>

definition set_modify :: "('a \<Rightarrow> 'a \<Rightarrow> bool) \<Rightarrow> 'a \<Rightarrow> 'a \<Rightarrow> 'a list \<Rightarrow> 'a list" where
  "set_modify lt x y xs = map (\<lambda>z. if \<not> lt z x \<and> \<not> lt x z then y else z) xs"

text \<open>
  \<open>dataCarrierID2devicePath\<close>, a \<open>std::map\<close>: the path first stored for a data
  carrier stays.
\<close>

definition path_less :: "hw_sizes \<Rightarrow> SMARTuniqueID \<times> string \<Rightarrow> SMARTuniqueID \<times> string \<Rightarrow> bool" where
  "path_less h l r = uid_less h (fst l) (fst r)"

definition readSMARTforDevice :: "hw_sizes \<Rightarrow> ata_ids \<Rightarrow> 'l::len word SMARTuniqueIDandValues \<Rightarrow> sk_disk \<Rightarrow> string
    \<Rightarrow> SMARTuniqueID \<Rightarrow> attr_id list
    \<Rightarrow> 'l word SMARTuniqueIDandValues list \<times> (SMARTuniqueID \<times> string) list
    \<Rightarrow> (retCodes \<times> 'l word SMARTuniqueIDandValues list \<times> (SMARTuniqueID \<times> string) list) option" where
  "readSMARTforDevice h A d0 D device u ids st =
     (case st of (drives, paths) \<Rightarrow>
      (let ret = (\<lambda>r. if errno_EACCES D then accessDenied else r) in
       if open_rc D = - 1 then Some (ret unset, drives, paths)
       else if read_data_rc D \<noteq> 0 then Some (ret noSingleSMARTdevice, drives, paths)
       else if identify_avail_rc D = 0 \<and> identify_avail D then
         (let d = drive_copy h d0 (drive_new h d0 u);
              drives1 = set_insert (drive_less h) d drives
          in case set_find (drive_less h) d drives1 of
               None \<Rightarrow> None
             | Some e \<Rightarrow>
                 (let paths1 = set_insert (path_less h) (m_SMARTuniqueID e, device) paths in
                  case copySMARTvalues A D \<lparr>ah_drive = e, currSMART_IDtoReadIdx = 0, IDsOfSMARTattrsToRd = ids\<rparr> of
                    None \<Rightarrow> None
                  | Some H \<Rightarrow> Some (ret success, set_modify (drive_less h) d (ah_drive H) drives1, paths1)))
       else Some (ret unset, drives, paths)))"

section \<open>All devices\<close>

text \<open>
  The loop over the device names: each ends with a tabulator, and only names of
  three characters are data carriers. What follows the last tabulator is not
  looked at.
\<close>

definition TAB :: char where "TAB = CHR 0x09"

fun dvcFiles :: "string \<Rightarrow> string \<Rightarrow> string list" where
  "dvcFiles cur [] = []"
| "dvcFiles cur (c # cs) =
     (if c = TAB then (if length cur = 3 then [cur] else []) @ dvcFiles [] cs
      else dvcFiles (cur @ [c]) cs)"

text \<open>What the library answers for a path, at each of the three times a device is opened.\<close>

record sk_lib =
  at_fill :: "string \<Rightarrow> sk_disk"
  at_supported :: "string \<Rightarrow> sk_disk"
  at_read :: "string \<Rightarrow> sk_disk"

definition scan_uid :: "hw_sizes \<Rightarrow> sk_lib \<Rightarrow> attr_id list \<Rightarrow> SMARTuniqueID \<Rightarrow> string \<Rightarrow> SMARTuniqueID" where
  "scan_uid h L toRead u00 path =
     (let u = fill h (at_fill L path) (initAttrVals u00) in
      if supportedSMART_IDs u ! 0 = 0 then
        (case GetSupportedSMART_IDs (at_supported L path) [] of (rc, supp) \<Rightarrow>
           if rc = 0
           then SetSMART_IDsToRead h (map snd supp) toRead (setSupportedSMART_IDs h (map snd supp) u)
           else u)
      else u)"

definition scan_ret :: "retCodes \<Rightarrow> retCodes \<Rightarrow> retCodes" where
  "scan_ret overall r = (if r = success then success else if r = accessDenied then accessDenied else overall)"

fun scan_devices :: "hw_sizes \<Rightarrow> ata_ids \<Rightarrow> sk_lib \<Rightarrow> attr_id list \<Rightarrow> SMARTuniqueID
    \<Rightarrow> 'l::len word SMARTuniqueIDandValues \<Rightarrow> string list
    \<Rightarrow> retCodes \<times> 'l word SMARTuniqueIDandValues list \<times> (SMARTuniqueID \<times> string) list
    \<Rightarrow> (retCodes \<times> 'l word SMARTuniqueIDandValues list \<times> (SMARTuniqueID \<times> string) list) option" where
  "scan_devices h A L toRead u00 d0 [] st = Some st"
| "scan_devices h A L toRead u00 d0 (n # ns) (overall, st) =
     (let path = ''/dev/'' @ n; u = scan_uid h L toRead u00 path in
      case readSMARTforDevice h A d0 (at_read L path) path u (SMART_IDsToRd u) st of
        None \<Rightarrow> None
      | Some (r, st1) \<Rightarrow> scan_devices h A L toRead u00 d0 ns (scan_ret overall r, st1))"

definition ReadSMARTValuesForAllDrives :: "hw_sizes \<Rightarrow> ata_ids \<Rightarrow> sk_lib \<Rightarrow> attr_id list \<Rightarrow> SMARTuniqueID
    \<Rightarrow> 'l::len word SMARTuniqueIDandValues \<Rightarrow> string
    \<Rightarrow> 'l word SMARTuniqueIDandValues list \<times> (SMARTuniqueID \<times> string) list
    \<Rightarrow> (retCodes \<times> 'l word SMARTuniqueIDandValues list \<times> (SMARTuniqueID \<times> string) list) option" where
  "ReadSMARTValuesForAllDrives h A L toRead u00 d0 arch st =
     scan_devices h A L toRead u00 d0 (dvcFiles [] arch) (noSingleSMARTdevice, st)"

section \<open>Properties\<close>

text \<open>
  Where the loop stops: behind the IDs that are smaller, at the latest at the
  terminating 0, and never behind it.
\<close>

definition seek_stop :: "attr_id list \<Rightarrow> attr_id \<Rightarrow> nat \<Rightarrow> nat \<Rightarrow> bool" where
  "seek_stop ids i k k' \<longleftrightarrow> k \<le> k' \<and> k' \<le> length ids
     \<and> (\<forall>j. k \<le> j \<and> j < k' \<longrightarrow> ids ! j < i) \<and> (k' < length ids \<longrightarrow> i \<le> ids ! k')"

lemma seek_id_stops:
  assumes "0 \<notin> set ids"
  shows "k \<le> length ids \<Longrightarrow> \<exists>k'. seek_id (ids @ 0 # rest) i k = Some k' \<and> seek_stop ids i k k'"
proof (induction "length ids - k" arbitrary: k)
  case 0
  then have "seek_id (ids @ 0 # rest) i k = Some k"
    by (subst seek_id.simps) (simp add: nth_append)
  then show ?case using 0 by (simp add: seek_stop_def)
next
  case (Suc n)
  then have k: "k < length ids" by simp
  then have nth: "(ids @ 0 # rest) ! k = ids ! k" "ids ! k \<noteq> 0"
    using assms by (auto simp: nth_append in_set_conv_nth)
  show ?case
  proof (cases "ids ! k < i")
    case True
    have "n = length ids - Suc k" "Suc k \<le> length ids" using Suc.hyps(2) k by simp_all
    from Suc.hyps(1) [OF this] obtain k' where
      k': "seek_id (ids @ 0 # rest) i (Suc k) = Some k'" "seek_stop ids i (Suc k) k'" by blast
    have "\<forall>j. k \<le> j \<and> j < k' \<longrightarrow> ids ! j < i"
      using k'(2) True by (metis seek_stop_def le_eq_less_or_eq Suc_leI)
    then have "seek_stop ids i k k'" using k'(2) by (simp add: seek_stop_def)
    moreover have "seek_id (ids @ 0 # rest) i k = Some k'"
      using k'(1) True nth k by (subst seek_id.simps) simp
    ultimately show ?thesis by blast
  next
    case False
    then have "seek_id (ids @ 0 # rest) i k = Some k"
      using nth k by (subst seek_id.simps) simp
    then show ?thesis using False k by (simp add: seek_stop_def)
  qed
qed

text \<open>
  C21: For every sequence of attributes a device can report, in any order, the
  callbacks end and never look behind the terminating 0 of the IDs to read.
\<close>

theorem parse_attributes_returns:
  assumes "0 \<in> set (IDsOfSMARTattrsToRd H)"
    and "currSMART_IDtoReadIdx H \<le> length (id_list (IDsOfSMARTattrsToRd H))"
  shows "\<exists>H1. parse_attributes A calls H = Some H1
    \<and> IDsOfSMARTattrsToRd H1 = IDsOfSMARTattrsToRd H
    \<and> currSMART_IDtoReadIdx H \<le> currSMART_IDtoReadIdx H1
    \<and> currSMART_IDtoReadIdx H1 \<le> length (id_list (IDsOfSMARTattrsToRd H))"
  using assms
proof (induction calls arbitrary: H)
  case (Cons c cs)
  obtain rest where R: "IDsOfSMARTattrsToRd H = id_list (IDsOfSMARTattrsToRd H) @ 0 # rest"
    using id_list_split Cons.prems(1) by metis
  obtain k where k: "seek_id (IDsOfSMARTattrsToRd H) (call_id c) (currSMART_IDtoReadIdx H) = Some k"
    "currSMART_IDtoReadIdx H \<le> k" "k \<le> length (id_list (IDsOfSMARTattrsToRd H))"
    using seek_id_stops [OF zero_notin_id_list Cons.prems(2)] R by (metis seek_stop_def)
  then obtain H1 where H1: "getSMARTrawValueCallback A c H = Some H1" "currSMART_IDtoReadIdx H1 = k"
    "IDsOfSMARTattrsToRd H1 = IDsOfSMARTattrsToRd H"
    by (simp add: getSMARTrawValueCallback_def)
  then obtain H2 where "parse_attributes A cs H1 = Some H2"
    "IDsOfSMARTattrsToRd H2 = IDsOfSMARTattrsToRd H"
    "k \<le> currSMART_IDtoReadIdx H2" "currSMART_IDtoReadIdx H2 \<le> length (id_list (IDsOfSMARTattrsToRd H))"
    using Cons.IH [of H1] Cons.prems(1) k(3) by auto
  then show ?case using H1 k(2) by auto
qed simp

text \<open>
  The specification: every reported attribute is stored if its ID is among the
  IDs to read, and marked as not read if it is not.
\<close>

definition read_spec :: "ata_ids \<Rightarrow> attr_id set \<Rightarrow> sk_call list \<Rightarrow> 'l::len word SMARTuniqueIDandValues
    \<Rightarrow> 'l word SMARTuniqueIDandValues" where
  "read_spec A ids = fold (\<lambda>c d. if call_id c \<in> ids then store_attr A c d else clear_attr (call_id c) d)"

lemma callback_refines:
  assumes "IDsOfSMARTattrsToRd H = ids @ 0 # rest" "0 \<notin> set ids" "call_id c \<noteq> 0"
    and "sorted_wrt (<) ids" "currSMART_IDtoReadIdx H \<le> length ids"
    and "\<forall>j < currSMART_IDtoReadIdx H. ids ! j < call_id c"
  obtains H1 where "getSMARTrawValueCallback A c H = Some H1"
    "IDsOfSMARTattrsToRd H1 = ids @ 0 # rest" "currSMART_IDtoReadIdx H1 \<le> length ids"
    "\<forall>j < currSMART_IDtoReadIdx H1. ids ! j < call_id c"
    "ah_drive H1 = read_spec A (set ids) [c] (ah_drive H)"
proof -
  obtain k where k: "seek_id (ids @ 0 # rest) (call_id c) (currSMART_IDtoReadIdx H) = Some k"
    "k \<le> length ids"
    "\<And>j. \<lbrakk>currSMART_IDtoReadIdx H \<le> j; j < k\<rbrakk> \<Longrightarrow> ids ! j < call_id c"
    "k < length ids \<Longrightarrow> call_id c \<le> ids ! k"
    using seek_id_stops [OF assms(2,5), of rest "call_id c"] by (auto simp: seek_stop_def)
  have less: "\<forall>j < k. ids ! j < call_id c" using k(3) assms(6) by (meson not_le)
  have "(ids @ 0 # rest) ! k = call_id c \<longleftrightarrow> call_id c \<in> set ids"
  proof
    assume "(ids @ 0 # rest) ! k = call_id c"
    then show "call_id c \<in> set ids"
      using k(2) assms(3) nth_mem [of k ids] by (cases "k < length ids") (simp_all add: nth_append)
  next
    assume "call_id c \<in> set ids"
    then obtain j where j: "j < length ids" "ids ! j = call_id c" by (auto simp: in_set_conv_nth)
    have "\<not> j < k" using less j by force
    then have "k < length ids" using j by simp
    moreover have "\<not> k < j"
      using k(4) \<open>k < length ids\<close> sorted_wrt_nth_less [OF assms(4), of k j] j by auto
    ultimately show "(ids @ 0 # rest) ! k = call_id c"
      using \<open>\<not> j < k\<close> j by (simp add: nth_append)
  qed
  with k(1,2) less assms(1) show thesis
    by (intro that [of "H\<lparr>currSMART_IDtoReadIdx := k,
          ah_drive := (if call_id c \<in> set ids then store_attr A c (ah_drive H)
                       else clear_attr (call_id c) (ah_drive H))\<rparr>"])
      (simp_all add: getSMARTrawValueCallback_def read_spec_def)
qed

lemma parse_attributes_spec:
  assumes "0 \<in> set (IDsOfSMARTattrsToRd H)" "currSMART_IDtoReadIdx H = 0"
    and "sorted_wrt (<) (id_list (IDsOfSMARTattrsToRd H))"
    and "sorted_wrt (<) (map call_id calls)" "0 \<notin> call_id ` set calls"
  shows "map_option ah_drive (parse_attributes A calls H)
    = Some (read_spec A (set (id_list (IDsOfSMARTattrsToRd H))) calls (ah_drive H))"
proof -
  define ids where "ids = id_list (IDsOfSMARTattrsToRd H)"
  obtain rest where R: "IDsOfSMARTattrsToRd H = ids @ 0 # rest"
    using id_list_split assms(1) ids_def by metis
  have z: "0 \<notin> set ids" and s: "sorted_wrt (<) ids" using assms(3) by (simp_all add: ids_def)
  have "map_option ah_drive (parse_attributes A calls H) = Some (read_spec A (set ids) calls (ah_drive H))"
    if "IDsOfSMARTattrsToRd H = ids @ 0 # rest" "currSMART_IDtoReadIdx H \<le> length ids"
      "\<forall>c\<in>set calls. \<forall>j < currSMART_IDtoReadIdx H. ids ! j < call_id c"
      "sorted_wrt (<) (map call_id calls)" "0 \<notin> call_id ` set calls" for H calls
    using that
  proof (induction calls arbitrary: H)
    case (Cons c cs)
    have "call_id c \<noteq> 0" "\<forall>j < currSMART_IDtoReadIdx H. ids ! j < call_id c"
      using Cons.prems(3,5) by auto
    then obtain H1 where H1: "getSMARTrawValueCallback A c H = Some H1"
      "IDsOfSMARTattrsToRd H1 = ids @ 0 # rest" "currSMART_IDtoReadIdx H1 \<le> length ids"
      "\<forall>j < currSMART_IDtoReadIdx H1. ids ! j < call_id c"
      "ah_drive H1 = read_spec A (set ids) [c] (ah_drive H)"
      using callback_refines [OF Cons.prems(1) z _ s Cons.prems(2)] by metis
    have "\<forall>c\<in>set cs. \<forall>j < currSMART_IDtoReadIdx H1. ids ! j < call_id c"
      using H1(4) Cons.prems(4) by fastforce
    then show ?case
      using Cons.IH [of H1] H1 Cons.prems(4,5) by (simp add: read_spec_def)
  qed (simp add: read_spec_def)
  from this [OF R _ _ assms(4,5)] show ?thesis by (simp add: assms(2) ids_def)
qed

text \<open>
  C4: A device that reports its attributes in ascending order: the callbacks
  with their common index into the IDs to read do what the specification says by
  membership, an attribute is stored exactly if its ID is to be read.
\<close>

theorem parse_attributes_refines:
  assumes "0 \<in> set (IDsOfSMARTattrsToRd H)" "currSMART_IDtoReadIdx H = 0"
    and "sorted_wrt (<) (id_list (IDsOfSMARTattrsToRd H))"
    and "sorted_wrt (<) (map call_id calls)" "0 \<notin> call_id ` set calls"
  shows "map_option ah_drive (parse_attributes A calls H)
    = Some (read_spec A (set (id_list (IDsOfSMARTattrsToRd H))) calls (ah_drive H))"
  by (rule parse_attributes_spec [OF assms])

text \<open>What the specification means for one attribute of the drive.\<close>

lemma store_attr_at:
  "successfullyReadSMARTrawValue (m_SMARTattrs (store_attr A c d) (call_id c)) = 1
    \<and> m_rawValue (m_SMARTattrs (store_attr A c d) (call_id c)) = uint (callback_raw (fst c))
    \<and> normedThresh (m_SMARTattrs (store_attr A c d) (call_id c)) = ucast (sk_threshold (fst c))
    \<and> normedCurrVal (m_SMARTattrs (store_attr A c d) (call_id c)) = ucast (sk_current (fst c))"
  by (cases c) (simp add: store_attr_def Let_def cpySMARTattrThreadSafe_def SetRetrievalTime_def run_steps_raw)

lemma store_attr_other:
  "j \<noteq> call_id c \<Longrightarrow> m_SMARTattrs (store_attr A c d) j = m_SMARTattrs d j"
  by (cases c) (simp add: store_attr_def Let_def)

lemma clear_attr_at:
  "m_SMARTattrs (clear_attr i d) j = (if j = i
     then (m_SMARTattrs d i)\<lparr>successfullyReadSMARTrawValue := 0\<rparr> else m_SMARTattrs d j)"
  by (simp add: clear_attr_def)

lemma read_spec_other:
  "j \<notin> call_id ` set calls \<Longrightarrow> m_SMARTattrs (read_spec A ids calls d) j = m_SMARTattrs d j"
  unfolding read_spec_def
  by (induction calls arbitrary: d) (auto simp: store_attr_other clear_attr_at)

lemma read_spec_reported:
  assumes "distinct (map call_id calls)" "c \<in> set calls"
  shows "if call_id c \<in> ids
    then successfullyReadSMARTrawValue (m_SMARTattrs (read_spec A ids calls d) (call_id c)) = 1
      \<and> m_rawValue (m_SMARTattrs (read_spec A ids calls d) (call_id c)) = uint (callback_raw (fst c))
      \<and> normedThresh (m_SMARTattrs (read_spec A ids calls d) (call_id c)) = ucast (sk_threshold (fst c))
      \<and> normedCurrVal (m_SMARTattrs (read_spec A ids calls d) (call_id c)) = ucast (sk_current (fst c))
    else successfullyReadSMARTrawValue (m_SMARTattrs (read_spec A ids calls d) (call_id c)) = 0"
proof -
  obtain xs ys where calls: "calls = xs @ c # ys" using split_list [OF assms(2)] by blast
  define d1 where "d1 = read_spec A ids xs d"
  define d2 where "d2 = (if call_id c \<in> ids then store_attr A c d1 else clear_attr (call_id c) d1)"
  have "read_spec A ids calls d = read_spec A ids ys d2"
    by (simp add: calls d1_def d2_def read_spec_def)
  moreover have "call_id c \<notin> call_id ` set ys" using assms(1) by (auto simp: calls)
  ultimately have "m_SMARTattrs (read_spec A ids calls d) (call_id c) = m_SMARTattrs d2 (call_id c)"
    by (simp add: read_spec_other)
  then show ?thesis by (simp add: d2_def store_attr_at clear_attr_at)
qed

section \<open>The container of the drives\<close>

context strict_weak_order
begin

lemma equiv_less_l: "\<lbrakk>lt a b; \<not> lt a a'; \<not> lt a' a\<rbrakk> \<Longrightarrow> lt a' b"
  using cotrans [of a b a'] by blast

lemma equiv_less_r: "\<lbrakk>lt a b; \<not> lt b b'; \<not> lt b' b\<rbrakk> \<Longrightarrow> lt a b'"
  using cotrans [of a b b'] by blast

lemma set_modify_sorted:
  assumes "sorted_wrt lt xs" "\<not> lt y x" "\<not> lt x y"
  shows "sorted_wrt lt (set_modify lt x y xs)"
proof -
  define f where "f z = (if \<not> lt z x \<and> \<not> lt x z then y else z)" for z
  have eq: "\<not> lt z (f z) \<and> \<not> lt (f z) z" for z
    using incomp_trans [of z x y] assms(2,3) irrefl by (auto simp: f_def)
  have "lt (f a) (f b)" if "lt a b" for a b
    using that equiv_less_l [of a b "f a"] equiv_less_r [of "f a" b "f b"] eq by blast
  moreover have "set_modify lt x y xs = map f xs" by (simp add: set_modify_def f_def)
  ultimately show ?thesis
    using assms(1) by (simp add: sorted_wrt_map) (metis (no_types, lifting) sorted_wrt_mono_rel)
qed

lemma set_find_modify:
  assumes "sorted_wrt lt xs" "set_find lt x xs = Some e" "\<not> lt y x" "\<not> lt x y"
  shows "set_find lt x (set_modify lt x y xs) = Some y"
proof -
  have "e \<in> set xs" "\<not> lt e x" "\<not> lt x e" using set_find_iff [OF assms(1)] assms(2) by auto
  then have "y \<in> set (set_modify lt x y xs)" by (force simp: set_modify_def)
  then show ?thesis
    using set_find_iff [OF set_modify_sorted [OF assms(1,3,4)]] assms(3,4) by blast
qed

end

lemma guessUnit_key: "uid_key h (guessUnit i raw m u) = uid_key h u"
  by (simp add: guessUnit_def Let_def uid_key_def split: unit_state.splits)

lemma possiblyAutoDetectUnit_key: "uid_key h (possiblyAutoDetectUnit A os i raw u) = uid_key h u"
  by (auto simp: possiblyAutoDetectUnit_def guessUnit_key split: option.splits)

lemma store_clear_key:
  "uid_key h (m_SMARTuniqueID (store_attr A c d)) = uid_key h (m_SMARTuniqueID d)"
  "uid_key h (m_SMARTuniqueID (clear_attr i d)) = uid_key h (m_SMARTuniqueID d)"
  by (cases c) (simp_all add: store_attr_def clear_attr_def Let_def possiblyAutoDetectUnit_key)

lemma parse_attributes_key:
  "parse_attributes A calls H = Some H1 \<Longrightarrow>
    uid_key h (m_SMARTuniqueID (ah_drive H1)) = uid_key h (m_SMARTuniqueID (ah_drive H))"
  by (induction calls arbitrary: H)
     (auto simp: getSMARTrawValueCallback_def store_clear_key split: option.splits if_splits)

lemma drive_less_key: "drive_less h l r \<longleftrightarrow> uid_key h (m_SMARTuniqueID l) < uid_key h (m_SMARTuniqueID r)"
  by (simp add: drive_less_def uid_less_key)

interpretation paths: strict_weak_order "path_less h" for h
  by (rule strict_weak_order_key [of _ "\<lambda>p. uid_key h (fst p)"]) (simp add: path_less_def uid_less_key)

text \<open>
  A well-formed state: the drives and the paths are strictly ordered, so that no
  two drives share an identification, and every path is that of a drive.
\<close>

definition access_wf :: "hw_sizes \<Rightarrow> 'l::len word SMARTuniqueIDandValues list \<times> (SMARTuniqueID \<times> string) list \<Rightarrow> bool" where
  "access_wf h st \<longleftrightarrow> sorted_wrt (drive_less h) (fst st) \<and> sorted_wrt (path_less h) (snd st)
     \<and> uid_key h ` fst ` set (snd st) \<subseteq> uid_key h ` m_SMARTuniqueID ` set (fst st)"

lemma drive_keys_insert:
  "uid_key h ` m_SMARTuniqueID ` set (set_insert (drive_less h) d xs)
    = insert (uid_key h (m_SMARTuniqueID d)) (uid_key h ` m_SMARTuniqueID ` set xs)"
  by (induction xs) (auto simp: drive_less_key)

lemma drive_keys_modify:
  "uid_key h (m_SMARTuniqueID y) = uid_key h (m_SMARTuniqueID x) \<Longrightarrow>
    uid_key h ` m_SMARTuniqueID ` set (set_modify (drive_less h) x y xs) = uid_key h ` m_SMARTuniqueID ` set xs"
  unfolding set_modify_def set_map image_image
  by (rule image_cong) (auto simp: drive_less_key)

text \<open>What every scan does with the containers: enter a drive, change it in place, enter its path.\<close>

lemma access_wf_enter:
  assumes "access_wf h (drives, paths)"
    and "uid_key h (m_SMARTuniqueID e) = uid_key h (m_SMARTuniqueID d)"
    and "uid_key h (fst p) = uid_key h (m_SMARTuniqueID d)"
  defines "drives1 \<equiv> set_insert (drive_less h) d drives"
  shows "access_wf h (set_modify (drive_less h) d e drives1, set_insert (path_less h) p paths)"
    "uid_key h ` m_SMARTuniqueID ` set (set_modify (drive_less h) d e drives1)
      = insert (uid_key h (m_SMARTuniqueID d)) (uid_key h ` m_SMARTuniqueID ` set drives)"
proof -
  show keys: "uid_key h ` m_SMARTuniqueID ` set (set_modify (drive_less h) d e drives1)
      = insert (uid_key h (m_SMARTuniqueID d)) (uid_key h ` m_SMARTuniqueID ` set drives)"
    by (simp add: drive_keys_modify [OF assms(2)] drives1_def drive_keys_insert)
  have "sorted_wrt (drive_less h) drives1"
    using assms(1) by (simp add: drives1_def access_wf_def drive.set_insert_sorted)
  then have "sorted_wrt (drive_less h) (set_modify (drive_less h) d e drives1)"
    using assms(2) by (intro drive.set_modify_sorted) (simp_all add: drive_less_key)
  moreover have "uid_key h ` fst ` set (set_insert (path_less h) p paths)
      \<subseteq> insert (uid_key h (m_SMARTuniqueID d)) (uid_key h ` fst ` set paths)"
    using image_mono [OF image_mono [OF paths.set_insert_set [of h p paths]], of "uid_key h" fst]
      assms(3) by simp
  moreover have "uid_key h ` fst ` set paths \<subseteq> uid_key h ` m_SMARTuniqueID ` set drives"
    "sorted_wrt (path_less h) (set_insert (path_less h) p paths)"
    using assms(1) by (simp_all add: access_wf_def paths.set_insert_sorted)
  ultimately show "access_wf h (set_modify (drive_less h) d e drives1, set_insert (path_less h) p paths)"
    unfolding access_wf_def fst_conv snd_conv keys by (meson insert_mono subset_trans)
qed

lemma set_find_inserted_key:
  assumes "access_wf h (drives, paths)"
  obtains e where "set_find (drive_less h) d (set_insert (drive_less h) d drives) = Some e"
    "e \<in> set (set_insert (drive_less h) d drives)"
    "uid_key h (m_SMARTuniqueID e) = uid_key h (m_SMARTuniqueID d)"
proof -
  have sorted: "sorted_wrt (drive_less h) (set_insert (drive_less h) d drives)"
    using assms by (simp add: access_wf_def drive.set_insert_sorted)
  obtain e where "set_find (drive_less h) d (set_insert (drive_less h) d drives) = Some e"
    using drive.set_find_insert assms by (force simp: access_wf_def)
  with drive.set_find_iff [OF sorted] show ?thesis
    by (intro that [of e]) (auto simp: drive_less_key)
qed

lemma readSMARTforDevice_wf:
  assumes "access_wf h st" "readSMARTforDevice h A d0 D device u ids st = Some (r, st1)"
  shows "access_wf h st1"
proof (cases "open_rc D \<noteq> - 1 \<and> read_data_rc D = 0 \<and> identify_avail_rc D = 0 \<and> identify_avail D")
  case False
  then show ?thesis using assms
    by (auto simp: readSMARTforDevice_def Let_def split: prod.splits if_splits)
next
  case True
  obtain drives paths where st: "st = (drives, paths)" by (cases st)
  define d where "d = drive_copy h d0 (drive_new h d0 u)"
  obtain e where e: "set_find (drive_less h) d (set_insert (drive_less h) d drives) = Some e"
    "uid_key h (m_SMARTuniqueID e) = uid_key h (m_SMARTuniqueID d)"
    using set_find_inserted_key assms(1) unfolding st by metis
  obtain H where H: "copySMARTvalues A D \<lparr>ah_drive = e, currSMART_IDtoReadIdx = 0, IDsOfSMARTattrsToRd = ids\<rparr> = Some H"
    and st1: "st1 = (set_modify (drive_less h) d (ah_drive H) (set_insert (drive_less h) d drives),
        set_insert (path_less h) (m_SMARTuniqueID e, device) paths)"
    using assms(2) True e(1) by (auto simp: readSMARTforDevice_def Let_def st d_def split: option.splits)
  have "uid_key h (m_SMARTuniqueID (ah_drive H)) = uid_key h (m_SMARTuniqueID d)"
    using H parse_attributes_key e(2) by (fastforce simp: copySMARTvalues_def readSMARTAttrs_def)
  then show ?thesis
    unfolding st1 using assms(1) e(2) by (intro access_wf_enter) (simp_all add: st)
qed

text \<open>
  C20: Reading all drives keeps the containers well formed, whatever the devices
  answer: no two drives with the same identification, and a device path only for
  a drive that is in the container.
\<close>

theorem ReadSMARTValuesForAllDrives_wf:
  assumes "access_wf h st"
    and "ReadSMARTValuesForAllDrives h A L toRead u00 d0 arch st = Some (r, st1)"
  shows "access_wf h st1"
proof -
  have "access_wf h st1" if "scan_devices h A L toRead u00 d0 ns (ov, st) = Some (r, st1)" "access_wf h st"
    for ns ov st
    using that
  proof (induction ns arbitrary: ov st)
    case (Cons n ns)
    then show ?case
      by (auto simp: Let_def split: option.splits prod.splits dest: readSMARTforDevice_wf)
  qed simp
  then show ?thesis using assms by (simp add: ReadSMARTValuesForAllDrives_def)
qed

section \<open>From the device to the container\<close>

lemma supported_ids_sorted:
  "sorted_wrt nameAndID_less supp \<Longrightarrow>
    sorted_wrt nameAndID_less (fold getDriveSupportedSMART_IDs calls supp)"
  by (induction calls arbitrary: supp)
     (simp_all add: getDriveSupportedSMART_IDs_def nameAndID.set_insert_sorted)

lemma supported_ids_insert:
  "snd ` set (set_insert nameAndID_less x xs) = insert (snd x) (snd ` set xs)"
  by (induction xs) (auto simp: nameAndID_less_def)

lemma supported_ids_set:
  "snd ` set (fold getDriveSupportedSMART_IDs calls supp) = call_id ` set calls \<union> snd ` set supp"
  by (induction calls arbitrary: supp)
     (auto simp: getDriveSupportedSMART_IDs_def supported_ids_insert)

text \<open>
  What the scan stores as the IDs to read of a device, from the attributes the
  device reports and the IDs the user wants.
\<close>

lemma scan_uid_ids:
  assumes "open_rc D \<noteq> - 1" "read_data_rc D = 0" "parse_rc D = 0" "at_supported L path = D"
    and "0 \<notin> call_id ` set (parse_calls D)" "length (parse_calls D) < numSATA h"
    and "length (SMART_IDsToRd u00) = numSATA h" "supportedSMART_IDs u00 \<noteq> []"
    and "length toRead = numSATA h" "0 \<in> set toRead" "sorted_wrt (<) (id_list toRead)"
  defines "R \<equiv> SMART_IDsToRd (scan_uid h L toRead u00 path)"
  shows "0 \<in> set R" "sorted_wrt (<) (id_list R)"
    "set (id_list R) = {i \<in> call_id ` set (parse_calls D). id_list toRead = [] \<or> i \<in> set (id_list toRead)}"
proof -
  define supp where "supp = map snd (fold getDriveSupportedSMART_IDs (parse_calls D) [])"
  define u where "u = setSupportedSMART_IDs h supp (fill h (at_fill L path) (initAttrVals u00))"
  have "supportedSMART_IDs (fill h (at_fill L path) (initAttrVals u00)) = (supportedSMART_IDs u00)[0 := 0]"
    by (simp add: fill_def initAttrVals_def split: option.splits prod.splits)
  then have R: "R = SMART_IDsToRd (SetSMART_IDsToRead h supp toRead u)"
    using assms(1-4,8) by (simp add: R_def scan_uid_def GetSupportedSMART_IDs_def u_def supp_def)
  have len: "length (SMART_IDsToRd u) = numSATA h"
    using assms(7) by (simp add: u_def setSupportedSMART_IDs_def fill_def initAttrVals_def
        split: option.splits prod.splits)
  have srt: "sorted_wrt (<) supp"
    using supported_ids_sorted [of "[]" "parse_calls D"]
    by (simp add: supp_def sorted_wrt_map nameAndID_less_def [abs_def])
  have set: "set supp = call_id ` set (parse_calls D)"
    using supported_ids_set [of "parse_calls D" "[]"] by (simp add: supp_def)
  have "length supp = card (set supp)"
    using srt by (simp add: distinct_card sorted_wrt_less_distinct)
  then have n: "length supp < numSATA h"
    using set card_image_le [of "set (parse_calls D)" call_id] card_length [of "parse_calls D"] assms(6)
    by simp
  have ids: "id_list R = (if id_list toRead = [] then supp else filter (\<lambda>x. x \<in> set (id_list toRead)) supp)"
    unfolding R by (rule SetSMART_IDsToRead_list [OF assms(9) len assms(10,11) srt])
      (use set assms(5) n in simp_all)
  show "sorted_wrt (<) (id_list R)" using ids srt sorted_wrt_filter by (simp split: if_splits)
  show "set (id_list R) = {i \<in> call_id ` set (parse_calls D). id_list toRead = [] \<or> i \<in> set (id_list toRead)}"
    using ids set by auto
  have "length (id_list R) \<le> length supp" by (simp add: ids)
  moreover have "length R = numSATA h" unfolding R by (simp add: SetSMART_IDsToRead_length len)
  ultimately have "id_list R \<noteq> R" using n by auto
  then show "0 \<in> set R" using id_list_no_zero by metis
qed

text \<open>
  One device that answers all calls: the container then finds, under the
  identification it was read for, a drive with the attributes of the array.
\<close>

lemma readSMARTforDevice_reads:
  fixes d0 :: "'l::len word SMARTuniqueIDandValues"
  assumes "open_rc D \<noteq> - 1" "read_data_rc D = 0"
    "identify_avail_rc D = 0" "identify_avail D" "\<not> errno_EACCES D"
    and "sorted_wrt (<) (map call_id (parse_calls D))" "0 \<notin> call_id ` set (parse_calls D)"
    and "0 \<in> set arr" "sorted_wrt (<) (id_list arr)" and "access_wf h (drives, paths)"
  shows "\<exists>drives2 paths2 e. readSMARTforDevice h A d0 D path u arr (drives, paths)
      = Some (success, drives2, paths2)
    \<and> set_find (drive_less h) (drive_new h d0 u) drives2
      = Some (read_spec A (set (id_list arr)) (parse_calls D) e)"
proof -
  define new where "new = drive_new h d0 u"
  define d where "d = drive_copy h d0 new"
  define drives1 where "drives1 = set_insert (drive_less h) d drives"
  have sorted: "sorted_wrt (drive_less h) drives1"
    using assms(10) by (simp add: drives1_def access_wf_def drive.set_insert_sorted)
  obtain e where e: "set_find (drive_less h) d drives1 = Some e"
    using drive.set_find_insert assms(10) by (force simp: drives1_def access_wf_def)
  define H where "H = \<lparr>ah_drive = e, currSMART_IDtoReadIdx = 0, IDsOfSMARTattrsToRd = arr\<rparr>"
  obtain H1 where H1: "parse_attributes A (parse_calls D) H = Some H1"
    "ah_drive H1 = read_spec A (set (id_list arr)) (parse_calls D) e"
    using parse_attributes_spec [of H "parse_calls D" A] assms(6-9) by (auto simp: H_def)
  define drives2 where "drives2 = set_modify (drive_less h) d (ah_drive H1) drives1"
  have dev: "readSMARTforDevice h A d0 D path u arr (drives, paths)
      = Some (success, drives2, set_insert (path_less h) (m_SMARTuniqueID e, path) paths)"
    using assms(1-5) e H1(1)
    by (simp add: readSMARTforDevice_def Let_def copySMARTvalues_def readSMARTAttrs_def
        d_def new_def drives1_def drives2_def H_def)
  have "uid_key h (m_SMARTuniqueID e) = uid_key h (m_SMARTuniqueID d)"
    using drive.set_find_iff [OF sorted] e by (force simp: drive_less_key)
  moreover have "uid_key h (m_SMARTuniqueID (ah_drive H1)) = uid_key h (m_SMARTuniqueID e)"
    using parse_attributes_key [OF H1(1)] by (simp add: H_def)
  ultimately have "set_find (drive_less h) d drives2 = Some (ah_drive H1)"
    unfolding drives2_def by (intro drive.set_find_modify [OF sorted e]) (simp_all add: drive_less_key)
  moreover have "uid_key h (m_SMARTuniqueID new) = uid_key h (m_SMARTuniqueID d)"
    by (simp add: d_def drive_copy_def assign_same_key)
  then have "drive_less h new = drive_less h d" "\<And>x. drive_less h x new = drive_less h x d"
    by (simp_all add: drive_less_key fun_eq_iff)
  then have "set_find (drive_less h) new ys = set_find (drive_less h) d ys" for ys
    by (induction ys) simp_all
  ultimately show ?thesis using dev H1(2) unfolding new_def by metis
qed

text \<open>
  C5: One device that answers all calls and reports its attributes, fewer than
  the array has places, in ascending order of their IDs, none of them 0; the
  wanted IDs are in ascending order too. Afterwards the container holds a drive
  under the identification the device gave, and each attribute the device
  reports is read exactly if the user wants it, or wants all; every other
  reported attribute is marked as not read. One that is read has the threshold
  and the current value reported, and as raw value the number in the 6 bytes
  reported and the 2 bytes that follow them in the memory of the library.
\<close>

theorem scan_reads_wanted_attributes:
  fixes d0 :: "'l::len word SMARTuniqueIDandValues"
  assumes "open_rc D \<noteq> - 1" "read_data_rc D = 0" "parse_rc D = 0"
    "identify_avail_rc D = 0" "identify_avail D" "\<not> errno_EACCES D"
    and "at_supported L (''/dev/'' @ n) = D" "at_read L (''/dev/'' @ n) = D"
    and "sorted_wrt (<) (map call_id (parse_calls D))" "0 \<notin> call_id ` set (parse_calls D)"
    "length (parse_calls D) < numSATA h"
    and "length (SMART_IDsToRd u00) = numSATA h" "supportedSMART_IDs u00 \<noteq> []"
    and "length toRead = numSATA h" "0 \<in> set toRead" "sorted_wrt (<) (id_list toRead)"
    and "access_wf h st"
  shows "\<exists>drives paths e. scan_devices h A L toRead u00 d0 [n] (noSingleSMARTdevice, st)
      = Some (success, drives, paths)
    \<and> set_find (drive_less h) (drive_new h d0 (scan_uid h L toRead u00 (''/dev/'' @ n))) drives = Some e
    \<and> (\<forall>c\<in>set (parse_calls D).
        if id_list toRead = [] \<or> call_id c \<in> set (id_list toRead)
        then successfullyReadSMARTrawValue (m_SMARTattrs e (call_id c)) = 1
          \<and> m_rawValue (m_SMARTattrs e (call_id c)) = uint (callback_raw (fst c))
          \<and> normedThresh (m_SMARTattrs e (call_id c)) = ucast (sk_threshold (fst c))
          \<and> normedCurrVal (m_SMARTattrs e (call_id c)) = ucast (sk_current (fst c))
        else successfullyReadSMARTrawValue (m_SMARTattrs e (call_id c)) = 0)"
proof -
  define u where "u = scan_uid h L toRead u00 (''/dev/'' @ n)"
  obtain drives paths where st: "st = (drives, paths)" by (cases st)
  note ids = scan_uid_ids [OF assms(1-3,7,10-16), folded u_def]
  obtain drives2 paths2 e where
    dev: "readSMARTforDevice h A d0 D (''/dev/'' @ n) u (SMART_IDsToRd u) st = Some (success, drives2, paths2)"
    and e: "set_find (drive_less h) (drive_new h d0 u) drives2
      = Some (read_spec A (set (id_list (SMART_IDsToRd u))) (parse_calls D) e)"
    using readSMARTforDevice_reads [OF assms(1,2,4-6,9,10) ids(1,2)] assms(17) unfolding st by metis
  have scan: "scan_devices h A L toRead u00 d0 [n] (noSingleSMARTdevice, st) = Some (success, drives2, paths2)"
    by (simp only: scan_devices.simps Let_def u_def [symmetric] assms(8) dev option.case prod.case
        scan_ret_def simp_thms if_True)
  have mem: "call_id c \<in> set (id_list (SMART_IDsToRd u)) \<longleftrightarrow>
      id_list toRead = [] \<or> call_id c \<in> set (id_list toRead)" if "c \<in> set (parse_calls D)" for c
    using that by (auto simp: ids(3))
  show ?thesis
  proof (intro exI conjI ballI)
    show "scan_devices h A L toRead u00 d0 [n] (noSingleSMARTdevice, st) = Some (success, drives2, paths2)"
      by (rule scan)
    show "set_find (drive_less h) (drive_new h d0 (scan_uid h L toRead u00 (''/dev/'' @ n))) drives2
        = Some (read_spec A (set (id_list (SMART_IDsToRd u))) (parse_calls D) e)"
      using e unfolding u_def .
  qed (use read_spec_reported [OF sorted_wrt_less_distinct [OF assms(9)],
      of _ "set (id_list (SMART_IDsToRd u))" A e] mem in \<open>simp only:\<close>)
qed

text \<open>A device of three attributes and the objects it is read into, for the witnesses.\<close>

definition call_example :: "byte \<Rightarrow> byte \<Rightarrow> sk_call" where
  "call_example i v =
     (\<lparr>sk_name = ''a'', sk_id = i, sk_threshold = 10, sk_current = 100,
       sk_raw = [v, 0, 0, 0, 0, 0], sk_behind_raw = [0, 0]\<rparr>,
      \<lparr>uptimeInNs = 0, numWrittenBsinceOSstart = None, numReadBsinceOSstart = None\<rparr>, 1000)"

definition disk_example :: sk_disk where
  "disk_example = \<lparr>open_rc = 0, read_data_rc = 0, identify_avail_rc = 0, identify_avail = True,
     identify_parse = Some (''fw'', ''model'', ''serial''),
     parse_calls = [call_example 5 1, call_example 9 2, call_example 241 3],
     parse_rc = 0, errno_EACCES = False\<rparr>"

definition lib_example :: sk_lib where
  "lib_example = \<lparr>at_fill = (\<lambda>_. disk_example), at_supported = (\<lambda>_. disk_example),
     at_read = (\<lambda>_. disk_example)\<rparr>"

definition drive0_example :: "64 word SMARTuniqueIDandValues" where
  "drive0_example = \<lparr>m_SMARTuniqueID = blank_uid, m_SMARTattrs = (\<lambda>_. attr_example64)\<rparr>"

definition helper_example :: "attr_id list \<Rightarrow> 64 word attr_helper" where
  "helper_example R = \<lparr>ah_drive = drive0_example, currSMART_IDtoReadIdx = 0, IDsOfSMARTattrsToRd = R\<rparr>"

lemma call_example_id: "call_id (call_example i v) = unat i"
  by (simp add: call_example_def)

theorem parse_attributes_returns_witness:
  "\<exists>H1. parse_attributes std_ata [call_example 241 3, call_example 5 1] (helper_example [5, 9, 0]) = Some H1
    \<and> currSMART_IDtoReadIdx H1 \<le> 2"
  using parse_attributes_returns [of "helper_example [5, 9, 0]" std_ata "[call_example 241 3, call_example 5 1]"]
  by (auto simp: helper_example_def id_list_def)

theorem parse_attributes_refines_witness:
  "map_option ah_drive (parse_attributes std_ata (parse_calls disk_example) (helper_example [5, 9, 0]))
    = Some (read_spec std_ata {5, 9} (parse_calls disk_example) drive0_example)"
  using parse_attributes_refines [of "helper_example [5, 9, 0]" "parse_calls disk_example" std_ata]
  by (simp add: helper_example_def disk_example_def call_example_id id_list_def)

theorem ReadSMARTValuesForAllDrives_wf_witness:
  "\<exists>r st1. ReadSMARTValuesForAllDrives std_sizes std_ata lib_example [0] blank_uid drive0_example
      [CHR ''s'', CHR ''d'', TAB] ([], []) = Some (r, st1) \<and> access_wf std_sizes st1"
proof -
  have "access_wf std_sizes ([] :: 64 word SMARTuniqueIDandValues list, [])" by (simp add: access_wf_def)
  moreover have "ReadSMARTValuesForAllDrives std_sizes std_ata lib_example [0] blank_uid drive0_example
      [CHR ''s'', CHR ''d'', TAB] ([], []) = Some (noSingleSMARTdevice, [], [])"
    by (simp add: ReadSMARTValuesForAllDrives_def TAB_def)
  ultimately show ?thesis using ReadSMARTValuesForAllDrives_wf by blast
qed

theorem scan_reads_wanted_attributes_witness:
  "\<exists>drives paths e. scan_devices (std_sizes\<lparr>numSATA := 5\<rparr>) std_ata lib_example [5, 241, 0, 0, 0]
      (blank_uid\<lparr>SMART_IDsToRd := replicate 5 7\<rparr>) drive0_example [''sda''] (noSingleSMARTdevice, ([], []))
      = Some (success, drives, paths)
    \<and> set_find (drive_less (std_sizes\<lparr>numSATA := 5\<rparr>)) (drive_new (std_sizes\<lparr>numSATA := 5\<rparr>) drive0_example
        (scan_uid (std_sizes\<lparr>numSATA := 5\<rparr>) lib_example [5, 241, 0, 0, 0]
          (blank_uid\<lparr>SMART_IDsToRd := replicate 5 7\<rparr>) (''/dev/'' @ ''sda''))) drives = Some e
    \<and> m_rawValue (m_SMARTattrs e 241) = 3
    \<and> successfullyReadSMARTrawValue (m_SMARTattrs e 9) = 0"
proof -
  have ex: "length (parse_calls disk_example) = 3" "id_list [5, 241, 0, 0, 0] = [5, 241]"
    "call_id (call_example 9 2) = 9" "call_id (call_example 241 3) = 241"
    "uint (callback_raw (fst (call_example 241 3))) = 3"
    "call_example 9 2 \<in> set (parse_calls disk_example)" "call_example 241 3 \<in> set (parse_calls disk_example)"
    "sorted_wrt (<) (map call_id (parse_calls disk_example))" "0 \<notin> call_id ` set (parse_calls disk_example)"
    by (simp_all add: disk_example_def id_list_def call_example_id call_example_def callback_raw_def)
  define h :: hw_sizes where "h = std_sizes\<lparr>numSATA := 5\<rparr>"
  define u0 where "u0 = blank_uid\<lparr>SMART_IDsToRd := replicate 5 7\<rparr>"
  define toRead :: "attr_id list" where "toRead = [5, 241, 0, 0, 0]"
  have p: "open_rc disk_example \<noteq> - 1" "read_data_rc disk_example = 0" "parse_rc disk_example = 0"
    "identify_avail_rc disk_example = 0" "identify_avail disk_example" "\<not> errno_EACCES disk_example"
    by (simp_all add: disk_example_def)
  have l: "at_supported lib_example (''/dev/'' @ ''sda'') = disk_example"
    "at_read lib_example (''/dev/'' @ ''sda'') = disk_example"
    by (simp_all add: lib_example_def)
  have n: "length (parse_calls disk_example) < numSATA h" "length (SMART_IDsToRd u0) = numSATA h"
    "supportedSMART_IDs u0 \<noteq> []" "length toRead = numSATA h" "0 \<in> set toRead"
    "sorted_wrt (<) (id_list toRead)"
    by (simp_all add: h_def std_sizes_def u0_def toRead_def ex blank_uid_def initAttrVals_def)
  have w: "access_wf h ([] :: 64 word SMARTuniqueIDandValues list, [])"
    by (simp add: access_wf_def)
  obtain drives paths e where
    s: "scan_devices h std_ata lib_example toRead u0 drive0_example [''sda''] (noSingleSMARTdevice, ([], []))
      = Some (success, drives, paths)" and
    f: "set_find (drive_less h) (drive_new h drive0_example
        (scan_uid h lib_example toRead u0 (''/dev/'' @ ''sda''))) drives = Some e" and
    c: "\<forall>c\<in>set (parse_calls disk_example).
        if id_list toRead = [] \<or> call_id c \<in> set (id_list toRead)
        then successfullyReadSMARTrawValue (m_SMARTattrs e (call_id c)) = 1
          \<and> m_rawValue (m_SMARTattrs e (call_id c)) = uint (callback_raw (fst c))
          \<and> normedThresh (m_SMARTattrs e (call_id c)) = ucast (sk_threshold (fst c))
          \<and> normedCurrVal (m_SMARTattrs e (call_id c)) = ucast (sk_current (fst c))
        else successfullyReadSMARTrawValue (m_SMARTattrs e (call_id c)) = 0"
    using scan_reads_wanted_attributes [OF p l ex(8,9) n w, of std_ata drive0_example]
    by (elim exE conjE) (rule that)
  have "id_list toRead = [5, 241]" using ex(2) by (simp add: toRead_def)
  then have "m_rawValue (m_SMARTattrs e 241) = 3" "successfullyReadSMARTrawValue (m_SMARTattrs e 9) = 0"
    using bspec [OF c ex(7)] bspec [OF c ex(6)] by (simp_all only: ex(3-5)) simp_all
  then show ?thesis using s f unfolding h_def toRead_def u0_def by blast
qed

section \<open>Results and corner cases\<close>

text \<open>
  The overall result: the last device that could be read or was denied decides,
  all others do not count.
\<close>

lemma scan_ret_last:
  "foldl scan_ret noSingleSMARTdevice rs =
    (case filter (\<lambda>r. r = success \<or> r = accessDenied) rs of [] \<Rightarrow> noSingleSMARTdevice | r # rs' \<Rightarrow> last (r # rs'))"
proof (induction rs rule: rev_induct)
  case (snoc r rs)
  then show ?case by (auto simp: scan_ret_def split: list.splits)
qed simp

text \<open>
  A device that reports an attribute after one with a greater ID: the index has
  passed the smaller ID, and the attribute is not read.
\<close>

lemma out_of_order_not_read:
  "map_option (\<lambda>H. successfullyReadSMARTrawValue (m_SMARTattrs (ah_drive H) 5))
     (parse_attributes std_ata [call_example 9 2, call_example 5 1] (helper_example [5, 9, 0])) = Some 0"
  by (simp add: getSMARTrawValueCallback_def helper_example_def call_example_id seek_id.simps clear_attr_def)

text \<open>The two bytes behind the 6 bytes of the raw value are its upper part.\<close>

lemma bytes_value_append:
  "bytes_value (xs @ ys) = bytes_value xs + 256 ^ length xs * bytes_value ys"
  by (induction xs) (simp_all add: algebra_simps)

lemma callback_raw_value:
  assumes "length (sk_raw a) = 6" "length (sk_behind_raw a) = 2"
  shows "uint (callback_raw a) = bytes_value (sk_raw a) + 2 ^ 48 * bytes_value (sk_behind_raw a)"
proof -
  have "uint (callback_raw a) = bytes_value (sk_raw a @ sk_behind_raw a) mod 2 ^ 64"
    using assms by (simp add: callback_raw_def uint_word_of_int)
  also have "\<dots> = bytes_value (sk_raw a @ sk_behind_raw a)"
    using bytes_value_bound [of "sk_raw a @ sk_behind_raw a"] assms by (intro mod_pos_pos_trivial) simp_all
  finally show ?thesis using assms by (simp add: bytes_value_append)
qed

end
