(* ===== verification/WinAccess.thy ===== *)
theory WinAccess
  imports AtaAccess
begin

text \<open>
  \<open>Windows/SMARTaccess.h\<close>: the scan of the drives on Windows and the read of
  the attributes of NVMe drives from their health information log.

  The operating system is a parameter: \<open>win_dev\<close> is what its functions answer
  for the drive of one number. Of the structure \<open>NVME_HEALTH_INFO_LOG\<close> the code
  uses the addresses of three members; \<open>nvme_log\<close> has their offsets in the
  header of the operating system. The calls of the critical section made while
  a raw value is stored are the subject of the theory of the attribute values.
\<close>

record log_layout =
  off_CriticalWarning :: nat
  off_AvailableSpare :: nat
  off_DataUnitRead :: nat

definition nvme_log :: log_layout where
  "nvme_log = \<lparr>off_CriticalWarning = 0, off_AvailableSpare = 3, off_DataUnitRead = 32\<rparr>"

datatype open_rslt = Handle | ERROR_FILE_NOT_FOUND | OtherOpenError
datatype log_rslt = HealthLog "byte list" | AllocBufFaild | OtherLogError

record win_dev =
  wd_open :: open_rslt
  wd_path :: string
  wd_storage :: "bus option"
  wd_model :: "char list \<Rightarrow> char list"
  wd_serial :: "char list \<Rightarrow> char list"
  wd_firmware :: "char list \<Rightarrow> char list"
  wd_bus :: bus
  wd_log :: log_rslt
  wd_uptime :: "64 word"

record win_lib =
  wl_layout :: log_layout
  wl_names :: "attr_id \<Rightarrow> string"
  wl_dev :: "nat \<Rightarrow> win_dev"

section \<open>Identification and supported attributes\<close>

definition win_fill :: "win_dev \<Rightarrow> SMARTuniqueID \<Rightarrow> SMARTuniqueID" where
  "win_fill D u = u\<lparr>modelName := wd_model D (modelName u), serialNumber := wd_serial D (serialNumber u),
     firmWareName := wd_firmware D (firmWareName u), busType := wd_bus D\<rparr>"

definition AddSuppSMARTattrNamesAndIDs :: "win_lib \<Rightarrow> attr_id \<Rightarrow> (string \<times> attr_id) list \<Rightarrow> (string \<times> attr_id) list" where
  "AddSuppSMARTattrNamesAndIDs W i supp = set_insert nameAndID_less (wl_names W i, i) supp"

definition GetSuppSMARTattrIDs :: "nvme_ids \<Rightarrow> win_lib \<Rightarrow> win_dev \<Rightarrow> (string \<times> attr_id) list
    \<Rightarrow> retCodes \<times> (string \<times> attr_id) list" where
  "GetSuppSMARTattrIDs nv W D supp =
     (success, if wd_bus D = NVMe
               then fold (AddSuppSMARTattrNamesAndIDs W) [CriticalWarning nv..<ErrorInfoLogEntryCount nv] supp
               else supp)"

section \<open>The health information log\<close>

text \<open>Offset and size of the bytes the code takes as the raw value of an attribute.\<close>

definition nvme_bytes :: "hw_sizes \<Rightarrow> nvme_ids \<Rightarrow> log_layout \<Rightarrow> attr_id \<Rightarrow> nat \<times> nat" where
  "nvme_bytes h nv L i =
     (if NV_TotalDataRead nv \<le> i
      then (off_DataUnitRead L + rawB_NVMe h * (i - NV_TotalDataRead nv), rawB_NVMe h)
      else if AvailableSpare nv \<le> i
      then (off_AvailableSpare L + rawB_NVMe1st h * (i - AvailableSpare nv), rawB_NVMe1st h)
      else (off_CriticalWarning L + i - 1, i))"

definition store_bytes :: "byte list \<Rightarrow> nat \<times> nat \<Rightarrow> 64 word \<Rightarrow> 'l::len word SMARTattr \<Rightarrow> 'l word SMARTattr" where
  "store_bytes log b ms a = fst (setRawVal_bytes (drop (fst b) log) (snd b) ms a)"

text \<open>
  The loop over the IDs to read. Bytes outside the log have no defined value.
\<close>

function nvme_loop :: "hw_sizes \<Rightarrow> nvme_ids \<Rightarrow> log_layout \<Rightarrow> byte list \<Rightarrow> 64 word \<Rightarrow> nat
    \<Rightarrow> 'l::len word SMARTuniqueIDandValues \<Rightarrow> 'l word SMARTuniqueIDandValues option" where
  "nvme_loop h nv L log ms idx d =
     (case SMART_IDsToReadNotEnd h (m_SMARTuniqueID d) idx of
        None \<Rightarrow> None
      | Some False \<Rightarrow> Some d
      | Some True \<Rightarrow>
          (let i = SMART_IDsToRd (m_SMARTuniqueID d) ! idx; b = nvme_bytes h nv L i in
           if fst b + snd b \<le> length log
           then nvme_loop h nv L log ms (Suc idx)
                  (d\<lparr>m_SMARTattrs := (m_SMARTattrs d)(i := store_bytes log b ms (m_SMARTattrs d i))\<rparr>)
           else None))"
  by pat_completeness auto
termination
  by (relation "measure (\<lambda>(h, nv, L, log, ms, idx, d). numSATA h - idx)")
     (auto simp: SMART_IDsToReadNotEnd_def split: if_splits)

declare nvme_loop.simps [simp del]

definition readSMARTviaNVMe :: "hw_sizes \<Rightarrow> nvme_ids \<Rightarrow> win_lib \<Rightarrow> win_dev \<Rightarrow> attr_id list
    \<Rightarrow> 'l::len word SMARTuniqueIDandValues \<Rightarrow> (retCodes \<times> 'l word SMARTuniqueIDandValues) option" where
  "readSMARTviaNVMe h nv W D ids d =
     (case wd_log D of
        AllocBufFaild \<Rightarrow> Some (otherError, d)
      | OtherLogError \<Rightarrow> Some (otherError, d)
      | HealthLog log \<Rightarrow>
          (let u = m_SMARTuniqueID d;
               supp = map snd (snd (GetSuppSMARTattrIDs nv W D []));
               d1 = (if isEmpty (supportedSMART_IDs u)
                     then d\<lparr>m_SMARTuniqueID := SetSMART_IDsToRead h supp ids (setSupportedSMART_IDs h supp u)\<rparr>
                     else d)
           in map_option (Pair success) (nvme_loop h nv (wl_layout W) log (wd_uptime D) 0 d1)))"

definition win_readSMARTforDevice :: "hw_sizes \<Rightarrow> nvme_ids \<Rightarrow> win_lib \<Rightarrow> win_dev \<Rightarrow> attr_id list
    \<Rightarrow> 'l::len word SMARTuniqueIDandValues \<Rightarrow> (retCodes \<times> 'l word SMARTuniqueIDandValues) option" where
  "win_readSMARTforDevice h nv W D ids d =
     (if busType (m_SMARTuniqueID d) = NVMe then readSMARTviaNVMe h nv W D ids d else Some (success, d))"

section \<open>All drives\<close>

text \<open>
  The body of the loop for a drive whose storage information was read; \<open>u00\<close>
  and \<open>d0\<close> are objects before their constructors have run. The IDs to read are
  those of the new identification, which has none yet, and the return code is
  not looked at.
\<close>

definition win_uid :: "win_dev \<Rightarrow> bus \<Rightarrow> SMARTuniqueID \<Rightarrow> SMARTuniqueID" where
  "win_uid D b u00 = (win_fill D (initAttrVals u00))\<lparr>busType := b\<rparr>"

definition win_drive :: "hw_sizes \<Rightarrow> nvme_ids \<Rightarrow> win_lib \<Rightarrow> SMARTuniqueID \<Rightarrow> 'l::len word SMARTuniqueIDandValues
    \<Rightarrow> win_dev \<Rightarrow> bus \<Rightarrow> 'l word SMARTuniqueIDandValues list \<times> (SMARTuniqueID \<times> string) list
    \<Rightarrow> ('l word SMARTuniqueIDandValues list \<times> (SMARTuniqueID \<times> string) list) option" where
  "win_drive h nv W u00 d0 D b st =
     (case st of (drives, paths) \<Rightarrow>
      (let u = win_uid D b u00;
           d = drive_copy h d0 (drive_new h d0 u);
           drives1 = set_insert (drive_less h) d drives
       in case set_find (drive_less h) d drives1 of
            None \<Rightarrow> None
          | Some e \<Rightarrow>
              (case win_readSMARTforDevice h nv W D (SMART_IDsToRd u) e of
                 None \<Rightarrow> None
               | Some (r, e1) \<Rightarrow> Some (set_modify (drive_less h) d e1 drives1,
                     set_insert (path_less h) (u, wd_path D) paths))))"

text \<open>
  The loop ends when the operating system has no drive of the next number, or
  gives no information about one; the value None stands for no end.
\<close>

partial_function (option) win_scan :: "hw_sizes \<Rightarrow> nvme_ids \<Rightarrow> win_lib \<Rightarrow> SMARTuniqueID \<Rightarrow> 'l::len word SMARTuniqueIDandValues
    \<Rightarrow> nat \<Rightarrow> 'l word SMARTuniqueIDandValues list \<times> (SMARTuniqueID \<times> string) list
    \<Rightarrow> (retCodes \<times> 'l word SMARTuniqueIDandValues list \<times> (SMARTuniqueID \<times> string) list) option" where
  "win_scan h nv W u00 d0 idx st =
     (if wd_open (wl_dev W idx) = ERROR_FILE_NOT_FOUND then Some (success, st)
      else (case wd_storage (wl_dev W idx) of
              None \<Rightarrow> Some (getBusTypFaild, st)
            | Some b \<Rightarrow>
                (case win_drive h nv W u00 d0 (wl_dev W idx) b st of
                   None \<Rightarrow> None
                 | Some st1 \<Rightarrow> win_scan h nv W u00 d0 (Suc idx) st1)))"

definition win_ReadSMARTValuesForAllDrives :: "hw_sizes \<Rightarrow> nvme_ids \<Rightarrow> win_lib \<Rightarrow> attr_id list \<Rightarrow> SMARTuniqueID
    \<Rightarrow> 'l::len word SMARTuniqueIDandValues \<Rightarrow> 'l word SMARTuniqueIDandValues list \<times> (SMARTuniqueID \<times> string) list
    \<Rightarrow> (retCodes \<times> 'l word SMARTuniqueIDandValues list \<times> (SMARTuniqueID \<times> string) list) option" where
  "win_ReadSMARTValuesForAllDrives h nv W toRead u00 d0 st = win_scan h nv W u00 d0 0 st"

section \<open>The read of one drive\<close>

lemma nvme_loop_spec:
  assumes "SMART_IDsToRd (m_SMARTuniqueID d) = ids @ 0 # rest" "0 \<notin> set ids" "distinct ids"
    "length ids < numSATA h" "k \<le> length ids"
    and "\<And>i. i \<in> set ids \<Longrightarrow> fst (nvme_bytes h nv L i) + snd (nvme_bytes h nv L i) \<le> length log"
  shows "nvme_loop h nv L log ms k d = Some (d\<lparr>m_SMARTattrs := (\<lambda>i. if i \<in> set (drop k ids)
           then store_bytes log (nvme_bytes h nv L i) ms (m_SMARTattrs d i) else m_SMARTattrs d i)\<rparr>)"
  using assms(1,5)
proof (induction "length ids - k" arbitrary: k d)
  case 0
  then show ?case using assms(4)
    by (subst nvme_loop.simps) (simp add: SMART_IDsToReadNotEnd_def nth_append)
next
  case (Suc m)
  then have k: "k < length ids" by simp
  define i where "i = ids ! k"
  have i: "i \<in> set ids" "SMART_IDsToRd (m_SMARTuniqueID d) ! k = i"
    using k Suc.prems by (simp_all add: i_def nth_append)
  then have i0: "i \<noteq> 0" using assms(2) by metis
  have dr: "drop k ids = i # drop (Suc k) ids" by (simp add: i_def Cons_nth_drop_Suc k)
  have ni: "i \<notin> set (drop (Suc k) ids)"
    using assms(3) dr by (metis distinct_drop distinct.simps(2))
  define d1 where "d1 = d\<lparr>m_SMARTattrs := (m_SMARTattrs d)(i := store_bytes log (nvme_bytes h nv L i) ms (m_SMARTattrs d i))\<rparr>"
  have "SMART_IDsToReadNotEnd h (m_SMARTuniqueID d) k = Some True"
    using Suc.prems i i0 k assms(4) by (simp add: SMART_IDsToReadNotEnd_def)
  then have "nvme_loop h nv L log ms k d = nvme_loop h nv L log ms (Suc k) d1"
    using assms(6) [OF i(1)] by (subst nvme_loop.simps) (simp add: i(2) d1_def Let_def)
  also have "\<dots> = Some (d1\<lparr>m_SMARTattrs := (\<lambda>j. if j \<in> set (drop (Suc k) ids)
      then store_bytes log (nvme_bytes h nv L j) ms (m_SMARTattrs d1 j) else m_SMARTattrs d1 j)\<rparr>)"
    by (rule Suc.hyps(1)) (use Suc k in \<open>simp_all add: d1_def\<close>)
  also have "\<dots> = Some (d\<lparr>m_SMARTattrs := (\<lambda>j. if j \<in> set (drop k ids)
      then store_bytes log (nvme_bytes h nv L j) ms (m_SMARTattrs d j) else m_SMARTattrs d j)\<rparr>)"
    using ni by (auto simp: d1_def dr fun_eq_iff)
  finally show ?case .
qed

text \<open>
  The fields of the health information log as the NVM Express specification
  numbers their bytes: attribute, first and last byte.
\<close>

definition health_log_fields :: "(attr_id \<times> nat \<times> nat) list" where
  "health_log_fields = [(1, 0, 0), (2, 1, 2), (3, 3, 3), (4, 4, 4), (5, 5, 5), (6, 32, 47), (7, 48, 63),
     (8, 64, 79), (9, 80, 95), (10, 96, 111), (11, 112, 127), (12, 128, 143), (13, 144, 159),
     (14, 160, 175), (15, 176, 191)]"

definition log_field :: "byte list \<Rightarrow> nat \<Rightarrow> nat \<Rightarrow> int" where
  "log_field log f l = bytes_value (take (Suc l - f) (drop f log))"

definition nvme_sizes :: "hw_sizes \<Rightarrow> bool" where
  "nvme_sizes h \<longleftrightarrow> rawB_NVMe h = 16 \<and> rawB_NVMe1st h = 1 \<and> 15 \<le> numSATA h"

lemma nvme_bytes_fields:
  "\<lbrakk>nvme_sizes h; (i, f, l) \<in> set health_log_fields\<rbrakk>
    \<Longrightarrow> nvme_bytes h std_nvme nvme_log i = (f, Suc l - f) \<and> l < 192 \<and> f \<le> l"
  by (auto simp: health_log_fields_def nvme_bytes_def nvme_sizes_def nvme_log_def std_nvme_def)

lemma nvme_bytes_inside:
  assumes "nvme_sizes h" "i \<in> {1..<15}" "192 \<le> length log"
  shows "fst (nvme_bytes h std_nvme nvme_log i) + snd (nvme_bytes h std_nvme nvme_log i) \<le> length log"
  using assms by (auto simp: nvme_bytes_def nvme_sizes_def nvme_log_def std_nvme_def)

lemma supported_ids_NVMe:
  "wd_bus D = NVMe \<Longrightarrow> map snd (snd (GetSuppSMARTattrIDs std_nvme W D [])) = [1..<15]"
  by (simp add: GetSuppSMARTattrIDs_def std_nvme_def upt_rec AddSuppSMARTattrNamesAndIDs_def nameAndID_less_def)

lemma store_bytes_value:
  "m_rawValue (store_bytes log (f, n) ms a) = bytes_value (take n (drop f log))"
  "successfullyReadSMARTrawValue (store_bytes log b ms a) = 1"
  by (simp_all add: store_bytes_def setRawVal_bytes_def Let_def SetRetrievalTime_def run_steps_raw)

text \<open>An identification whose IDs to read are attributes of the log, in order and ended by a 0.\<close>

definition nvme_ready :: "hw_sizes \<Rightarrow> SMARTuniqueID \<Rightarrow> bool" where
  "nvme_ready h u \<longleftrightarrow> length (SMART_IDsToRd u) = numSATA h \<and> supportedSMART_IDs u \<noteq> []
     \<and> 0 \<in> set (SMART_IDsToRd u) \<and> sorted_wrt (<) (id_list (SMART_IDsToRd u))
     \<and> set (id_list (SMART_IDsToRd u)) \<subseteq> {1..<15}"

lemma supported_ids_win: "map snd (snd (GetSuppSMARTattrIDs std_nvme W D [])) \<in> {[], [1..<15]}"
  using supported_ids_NVMe [of D W] by (cases "wd_bus D") (simp_all add: GetSuppSMARTattrIDs_def)

lemma setSupp_from_Nil: "setSupp_from n k xs arr = [] \<longleftrightarrow> arr = []"
  by (induction n k xs arr rule: setSupp_from.induct) auto

lemma SetSMART_IDsToRead_ready:
  assumes "nvme_sizes h" "nvme_ready h u" "supp \<in> {[], [1..<15]}"
    and "length ids = numSATA h" "0 \<in> set ids" "sorted_wrt (<) (id_list ids)"
  defines "u1 \<equiv> SetSMART_IDsToRead h supp ids (setSupportedSMART_IDs h supp u)"
  shows "nvme_ready h u1"
    "id_list (SMART_IDsToRd u1) = (if id_list ids = [] then supp else filter (\<lambda>x. x \<in> set (id_list ids)) supp)"
proof -
  have len: "length (SMART_IDsToRd (setSupportedSMART_IDs h supp u)) = numSATA h"
    using assms(2) by (simp add: setSupportedSMART_IDs_def nvme_ready_def)
  have supp: "sorted_wrt (<) supp" "set supp \<subseteq> {1..<15}" "length supp < numSATA h"
    using assms(1,3) by (auto simp: nvme_sizes_def)
  then have "0 \<notin> set supp" by auto
  from SetSMART_IDsToRead_list [OF assms(4) len assms(5,6) supp(1) this] supp(3)
  show ids: "id_list (SMART_IDsToRd u1) = (if id_list ids = [] then supp else filter (\<lambda>x. x \<in> set (id_list ids)) supp)"
    by (simp add: u1_def)
  have "length (id_list (SMART_IDsToRd u1)) \<le> length supp" by (simp add: ids)
  moreover have L: "length (SMART_IDsToRd u1) = numSATA h"
    by (simp add: u1_def SetSMART_IDsToRead_length len)
  ultimately have "id_list (SMART_IDsToRd u1) \<noteq> SMART_IDsToRd u1" using supp(3) by auto
  then have "0 \<in> set (SMART_IDsToRd u1)" using id_list_no_zero by metis
  moreover have "supportedSMART_IDs u1 \<noteq> []"
    using assms(2) by (auto simp: u1_def SetSMART_IDsToRead_def setSupportedSMART_IDs_def nvme_ready_def
        setSupp_from_Nil split: prod.splits)
  ultimately show "nvme_ready h u1"
    using L supp by (auto simp: nvme_ready_def ids sorted_wrt_filter)
qed

lemma nvme_loop_ready:
  assumes "nvme_sizes h" "nvme_ready h (m_SMARTuniqueID d)" "192 \<le> length log"
  shows "nvme_loop h std_nvme nvme_log log ms 0 d = Some (d\<lparr>m_SMARTattrs := (\<lambda>i.
    if i \<in> set (id_list (SMART_IDsToRd (m_SMARTuniqueID d)))
    then store_bytes log (nvme_bytes h std_nvme nvme_log i) ms (m_SMARTattrs d i) else m_SMARTattrs d i)\<rparr>)"
proof -
  define ids where "ids = id_list (SMART_IDsToRd (m_SMARTuniqueID d))"
  obtain rest where R: "SMART_IDsToRd (m_SMARTuniqueID d) = ids @ 0 # rest"
    using id_list_split assms(2) unfolding nvme_ready_def ids_def by metis
  have "length ids < numSATA h"
    using assms(2) arg_cong [OF R, of length] by (simp add: nvme_ready_def)
  moreover have "distinct ids" "set ids \<subseteq> {1..<15}"
    using assms(2) by (auto simp: nvme_ready_def ids_def dest: sorted_wrt_less_distinct)
  ultimately show ?thesis
    using nvme_loop_spec [OF R, of h 0 std_nvme nvme_log log ms] nvme_bytes_inside [OF assms(1) _ assms(3)]
    by (simp add: ids_def subset_iff)
qed

lemma readSMARTviaNVMe_ready:
  assumes "nvme_sizes h" "wl_layout W = nvme_log" "wd_log D = HealthLog log" "192 \<le> length log"
    and "nvme_ready h (m_SMARTuniqueID d)"
    and "length ids = numSATA h" "0 \<in> set ids" "sorted_wrt (<) (id_list ids)"
  shows "\<exists>u1. readSMARTviaNVMe h std_nvme W D ids d = Some (success,
      d\<lparr>m_SMARTuniqueID := u1, m_SMARTattrs := (\<lambda>i. if i \<in> set (id_list (SMART_IDsToRd u1))
        then store_bytes log (nvme_bytes h std_nvme nvme_log i) (wd_uptime D) (m_SMARTattrs d i)
        else m_SMARTattrs d i)\<rparr>)
    \<and> nvme_ready h u1 \<and> uid_key h u1 = uid_key h (m_SMARTuniqueID d)
    \<and> (isEmpty (supportedSMART_IDs (m_SMARTuniqueID d)) \<and> wd_bus D = NVMe \<longrightarrow>
        id_list (SMART_IDsToRd u1)
          = (if id_list ids = [] then [1..<15] else filter (\<lambda>x. x \<in> set (id_list ids)) [1..<15]))"
proof (cases "isEmpty (supportedSMART_IDs (m_SMARTuniqueID d))")
  case True
  define supp where "supp = map snd (snd (GetSuppSMARTattrIDs std_nvme W D []))"
  define u1 where "u1 = SetSMART_IDsToRead h supp ids (setSupportedSMART_IDs h supp (m_SMARTuniqueID d))"
  have supp: "supp \<in> {[], [1..<15]}" by (simp only: supp_def supported_ids_win)
  note u1 = SetSMART_IDsToRead_ready [OF assms(1,5) supp assms(6-8), folded u1_def]
  have "uid_key h u1 = uid_key h (m_SMARTuniqueID d)"
    by (simp add: u1_def uid_key_def SetSMART_IDsToRead_def setSupportedSMART_IDs_def split: prod.splits)
  moreover have "readSMARTviaNVMe h std_nvme W D ids d = map_option (Pair success)
      (nvme_loop h std_nvme nvme_log log (wd_uptime D) 0 (d\<lparr>m_SMARTuniqueID := u1\<rparr>))"
    using True by (simp add: readSMARTviaNVMe_def assms(2,3) u1_def supp_def Let_def)
  moreover have "supp = [1..<15]" if "wd_bus D = NVMe"
    using supported_ids_NVMe [OF that] by (simp only: supp_def)
  ultimately show ?thesis
    using u1 nvme_loop_ready [OF assms(1) _ assms(4), of "d\<lparr>m_SMARTuniqueID := u1\<rparr>" "wd_uptime D"]
    by (intro exI [of _ u1]) (simp cong: if_cong)
next
  case False
  then show ?thesis
    using nvme_loop_ready [OF assms(1,5,4), of "wd_uptime D"] assms(5)
    by (intro exI [of _ "m_SMARTuniqueID d"]) (simp add: readSMARTviaNVMe_def assms(2,3) Let_def)
qed

text \<open>
  C6: The attributes of an NVMe drive that is read for the first time: each
  wanted attribute, or each of the first 14 if none is chosen, gets the number in
  the bytes the NVM Express specification gives it in the health information log,
  and the others keep what they had. The 15th, the number of entries of the error
  log, is never read.
\<close>

theorem nvme_values_read:
  assumes "nvme_sizes h" "wl_layout W = nvme_log" "wd_log D = HealthLog log" "192 \<le> length log"
    and "wd_bus D = NVMe" "nvme_ready h (m_SMARTuniqueID d)"
    and "isEmpty (supportedSMART_IDs (m_SMARTuniqueID d))"
    and "length ids = numSATA h" "0 \<in> set ids" "sorted_wrt (<) (id_list ids)"
  shows "\<exists>d1. readSMARTviaNVMe h std_nvme W D ids d = Some (success, d1)
    \<and> (\<forall>(i, f, l)\<in>set health_log_fields.
        if i \<noteq> 15 \<and> (id_list ids = [] \<or> i \<in> set (id_list ids))
        then successfullyReadSMARTrawValue (m_SMARTattrs d1 i) = 1
          \<and> m_rawValue (m_SMARTattrs d1 i) = log_field log f l
        else m_SMARTattrs d1 i = m_SMARTattrs d i)"
proof -
  obtain u1 where d1: "readSMARTviaNVMe h std_nvme W D ids d = Some (success,
      d\<lparr>m_SMARTuniqueID := u1, m_SMARTattrs := (\<lambda>i. if i \<in> set (id_list (SMART_IDsToRd u1))
        then store_bytes log (nvme_bytes h std_nvme nvme_log i) (wd_uptime D) (m_SMARTattrs d i)
        else m_SMARTattrs d i)\<rparr>)"
    and u1: "id_list (SMART_IDsToRd u1)
      = (if id_list ids = [] then [1..<15] else filter (\<lambda>x. x \<in> set (id_list ids)) [1..<15])"
    using readSMARTviaNVMe_ready [OF assms(1-4,6,8-10)] assms(5,7) by blast
  have field: "i \<in> {1..<16} \<and> nvme_bytes h std_nvme nvme_log i = (f, Suc l - f)"
    if "(i, f, l) \<in> set health_log_fields" for i f l
    using that nvme_bytes_fields [OF assms(1) that] by (auto simp: health_log_fields_def)
  show ?thesis
    unfolding d1
    by (intro exI conjI, rule refl)
       (auto simp: u1 store_bytes_value log_field_def dest!: field)
qed

section \<open>The scan\<close>

text \<open>
  The containers of a scan: well formed, with drives whose IDs to read are
  attributes of the log.
\<close>

definition win_wf :: "hw_sizes \<Rightarrow> 'l::len word SMARTuniqueIDandValues list \<times> (SMARTuniqueID \<times> string) list \<Rightarrow> bool" where
  "win_wf h st \<longleftrightarrow> access_wf h st \<and> (\<forall>e\<in>set (fst st). nvme_ready h (m_SMARTuniqueID e))"

text \<open>A drive that answers: a log that is read has the bytes of all fields.\<close>

definition log_complete :: "win_dev \<Rightarrow> bool" where
  "log_complete D = (case wd_log D of HealthLog log \<Rightarrow> 192 \<le> length log | _ \<Rightarrow> True)"

lemma win_readSMARTforDevice_ready:
  assumes "nvme_sizes h" "wl_layout W = nvme_log" "log_complete D" "nvme_ready h (m_SMARTuniqueID d)"
    and "length ids = numSATA h" "id_list ids = []" "0 \<in> set ids"
  shows "\<exists>r d1. win_readSMARTforDevice h std_nvme W D ids d = Some (r, d1)
    \<and> nvme_ready h (m_SMARTuniqueID d1) \<and> uid_key h (m_SMARTuniqueID d1) = uid_key h (m_SMARTuniqueID d)"
proof (cases "wd_log D")
  case (HealthLog log)
  then have "192 \<le> length log" using assms(3) by (simp add: log_complete_def)
  from readSMARTviaNVMe_ready [OF assms(1,2) HealthLog this assms(4,5,7)] assms(4,6) show ?thesis
    by (auto simp: win_readSMARTforDevice_def)
qed (use assms(4) in \<open>simp_all add: win_readSMARTforDevice_def readSMARTviaNVMe_def\<close>)

text \<open>An identification without IDs to read, as its constructor leaves it.\<close>

definition no_ids :: "hw_sizes \<Rightarrow> SMARTuniqueID \<Rightarrow> bool" where
  "no_ids h u \<longleftrightarrow> length (SMART_IDsToRd u) = numSATA h \<and> supportedSMART_IDs u \<noteq> [] \<and> SMART_IDsToRd u ! 0 = 0"

lemma no_ids_list:
  assumes "nvme_sizes h" "no_ids h u"
  shows "id_list (SMART_IDsToRd u) = []" "0 \<in> set (SMART_IDsToRd u)" "nvme_ready h u"
proof -
  have "SMART_IDsToRd u \<noteq> []" using assms by (auto simp: no_ids_def nvme_sizes_def)
  then obtain xs where "SMART_IDsToRd u = 0 # xs" using assms(2) by (cases "SMART_IDsToRd u") (auto simp: no_ids_def)
  then show "id_list (SMART_IDsToRd u) = []" "0 \<in> set (SMART_IDsToRd u)" "nvme_ready h u"
    using assms(2) by (simp_all add: id_list_def nvme_ready_def no_ids_def)
qed

lemma copyArr_from_length: "length (copyArr_from k idx orig cpy) = length cpy"
  by (induction k idx orig cpy rule: copyArr_from.induct) (simp_all add: Let_def)

lemma no_ids_assign:
  assumes "nvme_sizes h" "no_ids h u" "no_ids h v"
  shows "no_ids h (assign h u v)"
proof -
  have "copyArr_from k 0 (SMART_IDsToRd v) (SMART_IDsToRd u) ! 0 = 0" for k
    using assms copyArr_from_zero [of k "SMART_IDsToRd v" 0]
    by (cases k) (simp_all add: no_ids_def nvme_sizes_def)
  moreover have "length (copyArr_from k 0 a b) = length b \<and> (copyArr_from k 0 a b = [] \<longleftrightarrow> b = [])" for k a b
    using copyArr_from_length by (metis length_0_conv)
  ultimately show ?thesis
    using assms(2) by (simp add: no_ids_def assign_def copyArr_def)
qed

text \<open>The identifications in the containers, as the comparison sees them.\<close>

abbreviation drive_keys :: "hw_sizes \<Rightarrow> 'l::len word SMARTuniqueIDandValues list \<times> (SMARTuniqueID \<times> string) list
    \<Rightarrow> (nat list \<times> nat list \<times> nat list) set" where
  "drive_keys h st \<equiv> uid_key h ` m_SMARTuniqueID ` set (fst st)"

lemma win_uid_no_ids:
  assumes "nvme_sizes h" "length (SMART_IDsToRd u00) = numSATA h" "supportedSMART_IDs u00 \<noteq> []"
  shows "no_ids h (win_uid D b u00)"
  using assms by (simp add: win_uid_def win_fill_def initAttrVals_def no_ids_def nvme_sizes_def)

lemma win_drive_ready:
  assumes "nvme_sizes h" "wl_layout W = nvme_log" "log_complete D" "win_wf h st"
    and "length (SMART_IDsToRd u00) = numSATA h" "supportedSMART_IDs u00 \<noteq> []"
    and "no_ids h (m_SMARTuniqueID d0)"
  shows "\<exists>st1. win_drive h std_nvme W u00 d0 D b st = Some st1 \<and> win_wf h st1
    \<and> drive_keys h st1 = insert (uid_key h (win_uid D b u00)) (drive_keys h st)"
proof -
  obtain drives paths where st: "st = (drives, paths)" by (cases st)
  define u where "u = win_uid D b u00"
  define d where "d = drive_copy h d0 (drive_new h d0 u)"
  have u: "no_ids h u" unfolding u_def by (rule win_uid_no_ids [OF assms(1,5,6)])
  have d: "no_ids h (m_SMARTuniqueID d)" "uid_key h (m_SMARTuniqueID d) = uid_key h u"
    using no_ids_assign [OF assms(1)] assms(7) u
    by (simp_all add: d_def drive_copy_def drive_new_def assign_same_key)
  have wf: "access_wf h (drives, paths)" using assms(4) by (simp add: win_wf_def st)
  obtain e where e: "set_find (drive_less h) d (set_insert (drive_less h) d drives) = Some e"
    "e \<in> set (set_insert (drive_less h) d drives)" "uid_key h (m_SMARTuniqueID e) = uid_key h (m_SMARTuniqueID d)"
    using set_find_inserted_key [OF wf] by metis
  have ready: "nvme_ready h (m_SMARTuniqueID x)" if "x \<in> set (set_insert (drive_less h) d drives)" for x
    using drive.set_insert_set [of h d drives] that assms(4) no_ids_list(3) [OF assms(1) d(1)]
    by (auto simp: win_wf_def st)
  obtain r e1 where e1: "win_readSMARTforDevice h std_nvme W D (SMART_IDsToRd u) e = Some (r, e1)"
    "nvme_ready h (m_SMARTuniqueID e1)" "uid_key h (m_SMARTuniqueID e1) = uid_key h (m_SMARTuniqueID d)"
    using win_readSMARTforDevice_ready [OF assms(1-3) ready [OF e(2)]] no_ids_list [OF assms(1) u] u e(3)
    by (metis no_ids_def)
  define st1 where "st1 = (set_modify (drive_less h) d e1 (set_insert (drive_less h) d drives),
    set_insert (path_less h) (u, wd_path D) paths)"
  have "win_drive h std_nvme W u00 d0 D b st = Some st1"
    using e(1) e1(1) by (simp add: win_drive_def st st1_def u_def d_def Let_def)
  moreover have "access_wf h st1" "drive_keys h st1 = insert (uid_key h u) (drive_keys h st)"
    using access_wf_enter [OF wf e1(3), of "(u, wd_path D)"] d(2) by (simp_all add: st1_def st)
  moreover have "nvme_ready h (m_SMARTuniqueID x)" if "x \<in> set (fst st1)" for x
    using that ready e1(2) by (auto simp: st1_def set_modify_def)
  ultimately show ?thesis by (auto simp: win_wf_def u_def)
qed


text \<open>A drive whose log has its own positions as bytes, and a system with this drive alone.\<close>

definition win_dev_example :: win_dev where
  "win_dev_example = \<lparr>wd_open = Handle, wd_path = ''PhysicalDrive0'', wd_storage = Some NVMe,
     wd_model = (\<lambda>s. CHR ''M'' # tl s), wd_serial = (\<lambda>s. CHR ''S'' # tl s), wd_firmware = id, wd_bus = NVMe,
     wd_log = HealthLog (map word_of_nat [0..<192]), wd_uptime = 1000\<rparr>"

definition win_lib_example :: win_lib where
  "win_lib_example = \<lparr>wl_layout = nvme_log, wl_names = (\<lambda>_. []),
     wl_dev = (\<lambda>k. if k = 0 then win_dev_example else win_dev_example\<lparr>wd_open := ERROR_FILE_NOT_FOUND\<rparr>)\<rparr>"

lemma win_example:
  "nvme_sizes std_sizes" "no_ids std_sizes blank_uid" "log_complete win_dev_example"
  "length (SMART_IDsToRd blank_uid) = numSATA std_sizes" "supportedSMART_IDs blank_uid \<noteq> []"
  "isEmpty (supportedSMART_IDs blank_uid)"
  by (simp_all add: nvme_sizes_def std_sizes_def no_ids_def blank_uid_def initAttrVals_def log_complete_def
      win_dev_example_def isEmpty_def)

theorem nvme_values_read_witness:
  "\<exists>d1. readSMARTviaNVMe std_sizes std_nvme win_lib_example win_dev_example (SMART_IDsToRd blank_uid)
      drive0_example = Some (success, d1)
    \<and> m_rawValue (m_SMARTattrs d1 2) = 1 + 256 * 2 \<and> m_SMARTattrs d1 15 = m_SMARTattrs drive0_example 15"
proof -
  note blank = no_ids_list [OF win_example(1,2)]
  have v: "log_field (map word_of_nat [0..<192]) 1 2 = 1 + 256 * 2"
    by (simp add: log_field_def drop_map take_map upt_rec)
  obtain d1 where "readSMARTviaNVMe std_sizes std_nvme win_lib_example win_dev_example (SMART_IDsToRd blank_uid)
      drive0_example = Some (success, d1)"
    and d1: "\<forall>(i, f, l)\<in>set health_log_fields. if i \<noteq> 15 \<and> (id_list (SMART_IDsToRd blank_uid) = []
          \<or> i \<in> set (id_list (SMART_IDsToRd blank_uid)))
        then successfullyReadSMARTrawValue (m_SMARTattrs d1 i) = 1
          \<and> m_rawValue (m_SMARTattrs d1 i) = log_field (map word_of_nat [0..<192]) f l
        else m_SMARTattrs d1 i = m_SMARTattrs drive0_example i"
    using nvme_values_read [of std_sizes win_lib_example win_dev_example "map word_of_nat [0..<192]"
        drive0_example "SMART_IDsToRd blank_uid"] blank win_example
    unfolding win_lib_example_def win_dev_example_def drive0_example_def by force
  moreover have "(2, 1, 2) \<in> set health_log_fields" "(15, 176, 191) \<in> set health_log_fields"
    by (simp_all add: health_log_fields_def)
  ultimately show ?thesis using v blank(1) by fastforce
qed


end
