(* ===== verification/Float32.thy ===== *)
theory Float32
  imports Prelude Complex_Main
begin

text \<open>
  The C type \<open>float\<close> (IEEE 754 binary32, round to nearest, ties to even),
  as far as the rating code needs it.

  A float value is the rational number it denotes. The function \<open>f32\<close>
  maps the exact result of an operation to the float the machine returns: the
  number is scaled to a 24 bit significand (or to the smallest exponent, -149,
  for subnormal results), the significand is rounded to an integer, and the
  result is scaled back. Infinities and NaNs have no rational value and are
  not modelled; the rating code divides only by numbers it knows to be
  different from 0, and its operands are far below the overflow threshold
  \<open>2 ^ 128\<close>.

  The locale \<open>rounding\<close> states what the users of the type rely on:
  monotonicity, oddness, exactness on the integers of the rating scale. It is
  interpreted on \<open>f32\<close> at the end of the theory, so that every fact
  proved in the locale holds of the rounding the hardware performs.
\<close>

section \<open>The interface\<close>

locale rounding =
  fixes rnd :: "rat \<Rightarrow> rat"
  assumes mono: "x \<le> y \<Longrightarrow> rnd x \<le> rnd y"
    and odd: "rnd (- x) = - rnd x"
    and exact: "\<bar>k\<bar> \<le> 2 ^ 24 \<Longrightarrow> rnd (of_int k) = of_int k"
begin

lemma zero [simp]: "rnd 0 = 0"
  using exact [of 0] by simp

lemma one [simp]: "rnd 1 = 1"
  using exact [of 1] by simp

lemma minus_one [simp]: "rnd (- 1) = - 1"
  using odd [of 1] by simp

lemma nonneg: "0 \<le> x \<Longrightarrow> 0 \<le> rnd x"
  using mono [of 0 x] by simp

lemma nonpos: "x \<le> 0 \<Longrightarrow> rnd x \<le> 0"
  using mono [of x 0] by simp

lemma le_int: "\<lbrakk>x \<le> of_int k; \<bar>k\<bar> \<le> 2 ^ 24\<rbrakk> \<Longrightarrow> rnd x \<le> of_int k"
  using mono [of x "of_int k"] exact [of k] by simp

lemma ge_int: "\<lbrakk>of_int k \<le> x; \<bar>k\<bar> \<le> 2 ^ 24\<rbrakk> \<Longrightarrow> of_int k \<le> rnd x"
  using mono [of "of_int k" x] exact [of k] by simp

lemma le_one: "x \<le> 1 \<Longrightarrow> rnd x \<le> 1"
  using le_int [of x 1] by simp

lemma ge_one: "1 \<le> x \<Longrightarrow> 1 \<le> rnd x"
  using ge_int [of 1 x] by simp

lemma ge_minus_one: "- 1 \<le> x \<Longrightarrow> - 1 \<le> rnd x"
  using ge_int [of "-1" x] by simp

lemma abs_le_one: "\<bar>x\<bar> \<le> 1 \<Longrightarrow> \<bar>rnd x\<bar> \<le> 1"
  using le_one [of x] ge_minus_one [of x] by (simp add: abs_le_iff)

end

section \<open>Rounding to the nearest integer, ties to even\<close>

definition rne :: "rat \<Rightarrow> int" where
  "rne x = (let f = \<lfloor>x\<rfloor>; d = x - of_int f
            in if d < 1/2 then f else if 1/2 < d then f + 1
               else if even f then f else f + 1)"

lemma rne_of_int [simp]: "rne (of_int k) = k"
  by (simp add: rne_def)

lemma rne_error: "\<bar>of_int (rne x) - x\<bar> \<le> 1/2"
  using floor_correct [of x] by (auto simp: rne_def Let_def)

lemma rne_ge_int:
  assumes "of_int k \<le> x"
  shows "k \<le> rne x"
proof -
  have "k \<le> \<lfloor>x\<rfloor>" using assms by (simp add: le_floor_iff)
  moreover have "\<lfloor>x\<rfloor> \<le> rne x" by (simp add: rne_def Let_def)
  ultimately show ?thesis by simp
qed

lemma rne_le_int:
  assumes "x \<le> of_int k"
  shows "rne x \<le> k"
proof (cases "x = of_int k")
  case False
  with assms have "\<lfloor>x\<rfloor> < k" by (simp add: floor_less_iff)
  moreover have "rne x \<le> \<lfloor>x\<rfloor> + 1" by (simp add: rne_def Let_def)
  ultimately show ?thesis by simp
qed simp

lemma rne_mono:
  assumes "x \<le> y"
  shows "rne x \<le> rne y"
proof (cases "\<lfloor>x\<rfloor> = \<lfloor>y\<rfloor>")
  case True
  with assms show ?thesis by (auto simp: rne_def Let_def)
next
  case False
  with floor_mono [OF assms] have lt: "\<lfloor>x\<rfloor> + 1 \<le> \<lfloor>y\<rfloor>" by simp
  have "rne x \<le> \<lfloor>x\<rfloor> + 1" by (simp add: rne_def Let_def)
  also have "\<dots> \<le> \<lfloor>y\<rfloor>" by (rule lt)
  also have "\<dots> \<le> rne y" by (simp add: rne_def Let_def)
  finally show ?thesis .
qed

section \<open>Scaling to a 24 bit significand\<close>

text \<open>
  The pair \<open>(m, e)\<close> stands for \<open>m * 2 powi e\<close>. Doubling stops
  at the exponent of the subnormal numbers.
\<close>

function f32_scale :: "rat \<Rightarrow> int \<Rightarrow> rat \<times> int" where
  "f32_scale m e =
     (if 2 ^ 24 \<le> m then f32_scale (m / 2) (e + 1)
      else if m < 2 ^ 23 \<and> - 149 < e then f32_scale (m * 2) (e - 1)
      else (m, e))"
  by pat_completeness auto

termination
proof (relation "measure (\<lambda>(m, e). if 2 ^ 24 \<le> m then nat \<lfloor>m\<rfloor>
                     else if m < 2 ^ 23 then nat (e + 149) else 0)", goal_cases)
  case (2 m e)
  have "\<lfloor>m / 2\<rfloor> < \<lfloor>m\<rfloor>"
  proof -
    have "m / 2 \<le> m - 1" using 2 by simp
    then have "\<lfloor>m / 2\<rfloor> \<le> \<lfloor>m - 1\<rfloor>" by (rule floor_mono)
    then show ?thesis by simp
  qed
  moreover have "0 < \<lfloor>m\<rfloor>" using 2 by simp
  ultimately show ?case using 2 by auto
next
  case (3 m e)
  then show ?case by auto
qed simp

declare f32_scale.simps [simp del]

lemma f32_scale_value:
  "f32_scale m e = (m', e') \<Longrightarrow> m' * 2 powi e' = m * 2 powi e"
proof (induction m e rule: f32_scale.induct)
  case (1 m e)
  show ?case
  proof (cases "2 ^ 24 \<le> m")
    case True
    with 1 have "m' * 2 powi e' = m / 2 * 2 powi (e + 1)"
      by (simp add: f32_scale.simps [of m e])
    then show ?thesis by (simp add: power_int_add)
  next
    case False
    with 1 show ?thesis
      by (auto simp: f32_scale.simps [of m e] power_int_diff split: if_splits)
  qed
qed

lemma f32_scale_range:
  "\<lbrakk>f32_scale m e = (m', e'); 0 \<le> m; - 149 \<le> e\<rbrakk>
    \<Longrightarrow> 0 \<le> m' \<and> m' < 2 ^ 24 \<and> - 149 \<le> e' \<and> (2 ^ 23 \<le> m' \<or> e' = - 149)"
proof (induction m e rule: f32_scale.induct)
  case (1 m e)
  then show ?case
    by (cases "2 ^ 24 \<le> m"; cases "m < 2 ^ 23 \<and> - 149 < e")
       (auto simp: f32_scale.simps [of m e])
qed

section \<open>Rounding to binary32\<close>

definition f32_pos :: "rat \<Rightarrow> rat" where
  "f32_pos x = (case f32_scale x 0 of (m, e) \<Rightarrow> of_int (rne m) * 2 powi e)"

definition f32 :: "rat \<Rightarrow> rat" where
  "f32 x = (if x = 0 then 0 else if x < 0 then - f32_pos (- x) else f32_pos x)"

lemma f32_pos_nonneg: "0 \<le> x \<Longrightarrow> 0 \<le> f32_pos x"
  using f32_scale_range [of x 0] rne_ge_int [of 0]
  by (auto simp: f32_pos_def split: prod.splits)

lemma f32_pos_mono:
  assumes "0 \<le> x" "x \<le> y"
  shows "f32_pos x \<le> f32_pos y"
proof -
  obtain mx ex where sx: "f32_scale x 0 = (mx, ex)" by fastforce
  obtain my ey where sy: "f32_scale y 0 = (my, ey)" by fastforce
  note rx = f32_scale_range [OF sx] and ry = f32_scale_range [OF sy]
  have vx: "mx * 2 powi ex = x" and vy: "my * 2 powi ey = y"
    using f32_scale_value [OF sx] f32_scale_value [OF sy] by simp_all
  have px: "(0::rat) < 2 powi ex" and py: "(0::rat) < 2 powi ey" by simp_all
  consider "ex = ey" | "ex < ey" | "ey < ex" by linarith
  then have "of_int (rne mx) * 2 powi ex \<le> (of_int (rne my) * 2 powi ey :: rat)"
  proof cases
    case 1
    then have "mx \<le> my" using vx vy assms px by (metis mult_le_cancel_right_pos)
    then have "rne mx \<le> rne my" by (rule rne_mono)
    then show ?thesis using 1 px by simp
  next
    case 2
    have "rne mx \<le> 2 ^ 24" using rx assms rne_le_int [of mx "2 ^ 24"] by simp
    then have "of_int (rne mx) * 2 powi ex \<le> (2 ^ 24 :: rat) * 2 powi ex"
      using px by (simp add: of_int_le_numeral_iff flip: of_int_le_iff)
    also have "\<dots> = 2 ^ 23 * 2 powi (ex + 1)" by (simp add: power_int_add)
    also have "\<dots> \<le> 2 ^ 23 * 2 powi ey"
      using 2 by (simp add: power_int_increasing)
    also have "\<dots> \<le> of_int (rne my) * 2 powi ey"
    proof -
      have "2 ^ 23 \<le> rne my" using ry rx 2 assms rne_ge_int [of "2 ^ 23" my] by auto
      then have "(of_int (2 ^ 23) :: rat) \<le> of_int (rne my)" by (simp only: of_int_le_iff)
      then show ?thesis using py by simp
    qed
    finally show ?thesis .
  next
    case 3
    have "my < 2 ^ 24" using ry assms by simp
    then have "my * 2 powi ey < 2 ^ 24 * 2 powi ey" using py by (rule mult_strict_right_mono)
    then have "y < 2 ^ 24 * 2 powi ey" by (simp only: vy)
    also have "\<dots> = 2 ^ 23 * 2 powi (ey + 1)" by (simp add: power_int_add)
    also have "\<dots> \<le> 2 ^ 23 * 2 powi ex"
      using 3 by (simp add: power_int_increasing)
    also have "\<dots> \<le> mx * 2 powi ex"
    proof -
      have "2 ^ 23 \<le> mx" using rx ry 3 assms by auto
      then show ?thesis using px by (intro mult_right_mono) simp_all
    qed
    also have "\<dots> = x" by (rule vx)
    finally show ?thesis using assms by simp
  qed
  then show ?thesis by (simp add: f32_pos_def sx sy)
qed

lemma f32_pos_exact:
  assumes "0 \<le> k" "k \<le> 2 ^ 24"
  shows "f32_pos (of_int k) = of_int k"
proof -
  obtain m e where s: "f32_scale (of_int k) 0 = (m, e)" by fastforce
  have r: "0 \<le> m" "m < 2 ^ 24" "2 ^ 23 \<le> m \<or> e = - 149"
    using f32_scale_range [OF s] assms by auto
  have v: "m * 2 powi e = of_int k" using f32_scale_value [OF s] by simp
  have "\<exists>j. m = of_int j"
  proof (cases "e \<le> 0")
    case True
    have "m = of_int k * 2 powi (- e)" using v by (simp add: power_int_minus field_simps)
    also have "\<dots> = of_int (k * 2 ^ nat (- e))" using True by (simp add: power_int_def)
    finally show ?thesis by blast
  next
    case False
    then have "2 ^ 23 \<le> m" using r by simp
    have "2 ^ 23 * 2 powi e \<le> m * 2 powi e" using \<open>2 ^ 23 \<le> m\<close> by simp
    also have "\<dots> \<le> (2 ^ 24 :: rat)" using v assms by (simp add: of_int_le_numeral_iff)
    finally have "(2::rat) powi e \<le> 2 powi 1" by simp
    then have "e \<le> 1" using power_int_increasing [of 2 e "2::rat"] by (cases "2 \<le> e") auto
    then have "e = 1" using False by simp
    then have "m * 2 = of_int k" using v by simp
    then have "m \<le> 2 ^ 23" using assms by (simp add: of_int_le_numeral_iff)
    with \<open>2 ^ 23 \<le> m\<close> have "m = of_int (2 ^ 23)" by simp
    then show ?thesis by blast
  qed
  then obtain j where "m = of_int j" by blast
  then show ?thesis using v by (simp add: f32_pos_def s)
qed

lemma f32_odd: "f32 (- x) = - f32 x"
  by (simp add: f32_def)

lemma f32_nonneg_pos: "0 \<le> x \<Longrightarrow> f32 x = f32_pos x"
  using f32_pos_exact [of 0] by (cases "x = 0") (simp_all add: f32_def)

lemma f32_nonneg: "0 \<le> x \<Longrightarrow> 0 \<le> f32 x"
  by (simp add: f32_nonneg_pos f32_pos_nonneg)

lemma f32_mono:
  assumes "x \<le> y"
  shows "f32 x \<le> f32 y"
proof -
  consider "0 \<le> x" | "x < 0" "0 \<le> y" | "y < 0" using assms by linarith
  then show ?thesis
  proof cases
    case 1
    then show ?thesis using assms f32_pos_mono by (simp add: f32_nonneg_pos)
  next
    case 2
    then have "f32 x \<le> 0" using f32_nonneg [of "- x"] f32_odd [of x] by simp
    also have "0 \<le> f32 y" using 2 f32_nonneg by simp
    finally show ?thesis .
  next
    case 3
    then have "f32_pos (- y) \<le> f32_pos (- x)" using assms f32_pos_mono by simp
    then show ?thesis using 3 assms by (simp add: f32_def)
  qed
qed

lemma f32_exact_int:
  assumes "\<bar>k\<bar> \<le> 2 ^ 24"
  shows "f32 (of_int k) = of_int k"
proof (cases "0 \<le> k")
  case True
  then show ?thesis using assms f32_pos_exact [of k] by (simp add: f32_nonneg_pos)
next
  case False
  then have "f32 (of_int (- k)) = of_int (- k)"
    using assms f32_pos_exact [of "- k"] by (simp add: f32_nonneg_pos del: of_int_minus)
  then show ?thesis using f32_odd [of "of_int k"] by simp
qed

interpretation f32: rounding f32
  by unfold_locales (auto intro: f32_mono simp: f32_odd f32_exact_int)

text \<open>
  Outside the subnormal range the relative error of a rounded result is at most
  half a unit in the last place.
\<close>

lemma f32_pos_error:
  assumes "1 / 2 ^ 100 \<le> x"
  shows "\<bar>f32_pos x - x\<bar> \<le> x / 2 ^ 24"
proof -
  obtain m e where s: "f32_scale x 0 = (m, e)" by fastforce
  have x0: "0 < x" using assms by (rule less_le_trans [rotated]) simp
  note r = f32_scale_range [OF s]
  have v: "x = m * 2 powi e" using f32_scale_value [OF s] by simp
  have pe: "(0::rat) < 2 powi e" by simp
  have m23: "2 ^ 23 \<le> m"
  proof (rule ccontr)
    assume "\<not> 2 ^ 23 \<le> m"
    then have e: "e = - 149" and "m < 2 ^ 23" using r x0 by auto
    then have "x < 2 ^ 23 * 2 powi (- 149)" using v by simp
    also have "\<dots> \<le> 1 / 2 ^ 100" by (simp add: power_int_def power_divide)
    finally show False using assms by simp
  qed
  have "f32_pos x = of_int (rne m) * 2 powi e" by (simp add: f32_pos_def s)
  then have "f32_pos x - x = (of_int (rne m) - m) * 2 powi e"
    by (simp only: left_diff_distrib v [symmetric])
  then have "\<bar>f32_pos x - x\<bar> = \<bar>of_int (rne m) - m\<bar> * 2 powi e"
    by (simp add: abs_mult)
  also have "\<dots> \<le> 1 / 2 * 2 powi e"
    using rne_error [of m] pe by (intro mult_right_mono) simp_all
  also have "\<dots> \<le> m / 2 ^ 24 * 2 powi e"
    using m23 pe by (intro mult_right_mono) simp_all
  finally show ?thesis by (simp add: v)
qed

lemma f32_error:
  assumes "1 / 2 ^ 100 \<le> \<bar>x\<bar>"
  shows "\<bar>f32 x - x\<bar> \<le> \<bar>x\<bar> / 2 ^ 24"
  using f32_pos_error [of "\<bar>x\<bar>"] assms by (auto simp: f32_def abs_if split: if_splits)
lemma f32_rel:
  assumes "1 / 2 ^ 100 \<le> x"
  shows "x * (1 - 1 / 2 ^ 24) \<le> f32 x" "f32 x \<le> x * (1 + 1 / 2 ^ 24)"
proof -
  have "0 \<le> x" using assms by (rule order_trans [rotated]) simp
  then have "\<bar>f32 x - x\<bar> \<le> x / 2 ^ 24" using f32_error [of x] assms by simp
  then have "f32 x - x \<le> x / 2 ^ 24" "- (f32 x - x) \<le> x / 2 ^ 24"
    by (simp_all only: abs_le_iff)
  then show "x * (1 - 1 / 2 ^ 24) \<le> f32 x" "f32 x \<le> x * (1 + 1 / 2 ^ 24)"
    by (simp_all add: field_simps)
qed

lemma f32_pos_iff: "1 / 2 ^ 100 \<le> x \<Longrightarrow> 0 < f32 x"
proof -
  assume a: "1 / 2 ^ 100 \<le> x"
  have "0 < x" using a by (rule less_le_trans [rotated]) simp
  then have "0 < x * (1 - 1 / 2 ^ 24)" by simp
  also have "\<dots> \<le> f32 x" by (rule f32_rel [OF a])
  finally show ?thesis .
qed

section \<open>Evaluating concrete roundings\<close>

text \<open>
  Scaling by hand: the float nearest to a positive number below \<open>2 ^ 24\<close> is
  \<open>k / 2 ^ s\<close> when the number times \<open>2 ^ s\<close> has 24 bits before the point and
  is nearest to \<open>k\<close>.
\<close>

lemma rne_eqI: "\<bar>y - of_int k\<bar> < 1/2 \<Longrightarrow> rne y = k"
  using rne_error [of y] by linarith

lemma scaled_unique:
  assumes "m * 2 powi e = m' * 2 powi e'" "2 ^ 23 \<le> m" "m < 2 ^ 24" "2 ^ 23 \<le> m'" "m' < 2 ^ 24"
  shows "e = (e' :: int) \<and> m = (m' :: rat)"
proof -
  have lt: False if "a * 2 powi x = b * 2 powi y" "2 ^ 23 \<le> a" "b < 2 ^ 24" "y < x"
    for a b :: rat and x y :: int
  proof -
    have "b * 2 powi y < 2 ^ 24 * 2 powi y" using that(3) by (rule mult_strict_right_mono) simp
    also have "\<dots> = 2 ^ 23 * 2 powi (y + 1)" by (simp add: power_int_add)
    also have "\<dots> \<le> 2 ^ 23 * 2 powi x" using that(4) by (simp add: power_int_increasing)
    also have "\<dots> \<le> a * 2 powi x" using that(2) by (rule mult_right_mono) simp
    finally show False using that(1) by simp
  qed
  have "e = e'" using lt [OF assms(1,2,5)] lt [OF assms(1) [symmetric] assms(4,3)]
    by (cases e e' rule: linorder_cases) auto
  then show ?thesis using assms(1) by simp
qed

lemma f32_normal:
  assumes "2 ^ 23 \<le> x * 2 ^ s" "x * 2 ^ s < 2 ^ 24" "s < 149" "\<bar>x * 2 ^ s - of_int k\<bar> < 1/2"
  shows "f32 x = of_int k / 2 ^ s"
proof -
  obtain m e where sc: "f32_scale x 0 = (m, e)" by fastforce
  have "0 < x * 2 ^ s" using assms(1) by (rule less_le_trans [rotated]) simp
  then have x0: "0 < x" by (simp add: zero_less_mult_iff)
  note r = f32_scale_range [OF sc]
  have v: "m * 2 powi e = x" using f32_scale_value [OF sc] by simp
  have v': "x = (x * 2 ^ s) * 2 powi (- int s)" by (simp add: power_int_minus)
  have m23: "2 ^ 23 \<le> m"
  proof (rule ccontr)
    assume "\<not> 2 ^ 23 \<le> m"
    then have e: "e = - 149" and "m < 2 ^ 23" using r x0 by auto
    then have "x < 2 ^ 23 * 2 powi (- 149)" using v by (simp add: mult_strict_right_mono flip: v)
    also have "\<dots> \<le> 2 ^ 23 * 2 powi (- int s)" using assms(3)
      by (intro mult_left_mono power_int_increasing) simp_all
    also have "\<dots> \<le> (x * 2 ^ s) * 2 powi (- int s)"
      using assms(1) by (rule mult_right_mono) simp
    finally show False using v' by simp
  qed
  have "m * 2 powi e = (x * 2 ^ s) * 2 powi (- int s)" using v v' by simp
  then have "e = - int s \<and> m = x * 2 ^ s"
    using m23 r x0 assms(1,2) by (intro scaled_unique) auto
  then have "f32_pos x = of_int k * 2 powi (- int s)"
    using rne_eqI [OF assms(4)] by (simp add: f32_pos_def sc)
  then show ?thesis using x0 by (simp add: f32_def power_int_minus divide_inverse)
qed

lemma f32_numeral [simp]: "(numeral n :: int) \<le> 2 ^ 24 \<Longrightarrow> f32 (numeral n) = numeral n"
  using f32.exact [of "numeral n"] by simp

lemma f32_minus_frac: "f32 (- (x / y)) = - f32 (x / y)"
  using f32_odd [of "x / y"] by simp

end
