(* ===== verification/ModelFirmware.thy ===== *)
theory ModelFirmware
  imports AttrValue Float32
begin

text \<open>
  \<open>attributes/ModelAndFirmware.hpp\<close>: what is known about a drive model (its
  maximum amount of data written, the units of its parameters), and the order
  of models. The maximum is a \<open>faststUint\<close>, widened to \<open>unsigned long long\<close>
  where it is used.
\<close>

record ModelAndFirmware =
  mf_firmWareName :: "char list"
  mf_modelName :: "char list"
  SMARTparamUnit :: "attr_id \<Rightarrow> string"
  maxTeraBytesWritten :: "64 word"

text \<open>\<open>std::numeric_limits<int64_t>::min()\<close>\<close>

definition maxTeraBytesWrittenNotSet :: int where
  "maxTeraBytesWrittenNotSet = - (2 ^ 63)"

definition mf_Set :: "char list \<Rightarrow> char list \<Rightarrow> ModelAndFirmware \<Rightarrow> ModelAndFirmware" where
  "mf_Set model fw m = m\<lparr>mf_modelName := strcpy model (mf_modelName m),
     mf_firmWareName := strcpy fw (mf_firmWareName m)\<rparr>"

definition setMaxTeraBytesWritten :: "64 word \<Rightarrow> ModelAndFirmware \<Rightarrow> ModelAndFirmware" where
  "setMaxTeraBytesWritten n m = m\<lparr>maxTeraBytesWritten := n\<rparr>"

definition setParamUnit :: "attr_id \<Rightarrow> string \<Rightarrow> ModelAndFirmware \<Rightarrow> ModelAndFirmware" where
  "setParamUnit i s m = m\<lparr>SMARTparamUnit := (SMARTparamUnit m)(i := s)\<rparr>"

definition getParamUnit :: "ModelAndFirmware \<Rightarrow> attr_id \<Rightarrow> string" where
  "getParamUnit m i = cstr (SMARTparamUnit m i)"

text \<open>
  The percentage is computed in \<open>double\<close>; \<open>rnd\<close> rounds the result of each
  operation.
\<close>

definition calcTotalDataWrittenPercent :: "(rat \<Rightarrow> rat) \<Rightarrow> ModelAndFirmware \<Rightarrow> 64 word \<Rightarrow> rat" where
  "calcTotalDataWrittenPercent rnd m totalBytes =
     (if 0 < maxTeraBytesWritten m
      then rnd (rnd (rnd (of_int (uint totalBytes)) / rnd (of_int (uint (maxTeraBytesWritten m))))
                / 10000000000)
      else - 1)"

text \<open>The product is formed in 64 bits, the difference in arbitrary precision.\<close>

definition getRemainingTotalDataWritten :: "ModelAndFirmware \<Rightarrow> int \<Rightarrow> int" where
  "getRemainingTotalDataWritten m numTotalBytesWritten =
     (if 0 < maxTeraBytesWritten m
      then uint (maxTeraBytesWritten m * 1000000000000) - numTotalBytesWritten
      else maxTeraBytesWrittenNotSet)"

definition mf_less :: "ModelAndFirmware \<Rightarrow> ModelAndFirmware \<Rightarrow> bool" where
  "mf_less l r =
     (let c = strcmp (mf_modelName l) (mf_modelName r) in
      if c < 0 then True
      else if c = 0 then strcmp (mf_firmWareName l) (mf_firmWareName r) < 0
      else False)"

lemma mf_less_key:
  "mf_less l r \<longleftrightarrow>
    (map of_char (cstr (mf_modelName l)) :: nat list, map of_char (cstr (mf_firmWareName l)) :: nat list)
    < (map of_char (cstr (mf_modelName r)), map of_char (cstr (mf_firmWareName r)))"
proof -
  have i: "inj (of_char :: char \<Rightarrow> nat)" by (simp add: inj_on_def)
  show ?thesis
    by (auto simp: mf_less_def Let_def strcmp_key less_prod_def' inj_map_eq_map [OF i])
qed

interpretation mf: strict_weak_order mf_less
  by (rule strict_weak_order_key) (rule mf_less_key)

text \<open>
  A model put into the set of models is found again under its name and
  firmware with the units and limits it was put in with, unless an equivalent
  model was there before.
\<close>

theorem model_set_insert_find:
  assumes "sorted_wrt mf_less xs" "set_find mf_less m xs = None"
  shows "set_find mf_less m (set_insert mf_less m xs) = Some m"
proof -
  have "m \<in> set (set_insert mf_less m xs)" using assms(2)
    by (induction xs) (auto split: if_splits)
  then show ?thesis
    by (rule mf.set_find_mem [OF mf.set_insert_sorted [OF assms(1)]])
qed

definition mf_example :: ModelAndFirmware where
  "mf_example = \<lparr>mf_firmWareName = ''f1'', mf_modelName = ''ssd'', SMARTparamUnit = (\<lambda>_. []),
     maxTeraBytesWritten = 150\<rparr>"

theorem model_set_insert_find_witness:
  "set_find mf_less mf_example (set_insert mf_less mf_example
     [mf_example\<lparr>mf_modelName := ''hdd''\<rparr>]) = Some mf_example"
  by (rule model_set_insert_find) (simp, code_simp)

text \<open>
  The remaining amount of data is the limit minus what was written, as long
  as the limit in bytes fits into 64 bits (up to 18446744 TB); it is negative
  when more was written.
\<close>

theorem remaining_data_exact:
  assumes "0 < maxTeraBytesWritten m" "unat (maxTeraBytesWritten m) \<le> 18446744"
  shows "getRemainingTotalDataWritten m n = 1000000000000 * uint (maxTeraBytesWritten m) - n"
proof -
  have "uint (maxTeraBytesWritten m) \<le> 18446744"
    using assms(2) by (simp add: unat_eq_nat_uint nat_le_iff flip: nat_uint_eq)
  then have "uint (maxTeraBytesWritten m) * 1000000000000 < 2 ^ 64" by simp
  then show ?thesis
    using assms(1) by (simp add: getRemainingTotalDataWritten_def uint_word_ariths)
qed

theorem remaining_data_exact_witness:
  "getRemainingTotalDataWritten mf_example 200000000000000 = - 50000000000000"
  by (subst remaining_data_exact) (simp_all add: mf_example_def)

end
