(* ===== verification/Rater.thy ===== *)
theory Rater
  imports ModelFirmware
begin

unbundle bit_operations_syntax

text \<open>
  \<open>SMARTvalueRater.hpp\<close>, with the normalised maxima of \<open>SMARTattr.hpp\<close>: the
  rating of an attribute value between 1 (best) and -1 (worst).

  A rating is a \<open>float\<close>; every operation on it is followed by the rounding of
  \<open>Float32\<close>. The formula that maps a value into the rating range takes the
  rounding as an argument, so that its bounds are proved once in the locale
  \<open>rounding\<close>. \<open>faststUint\<close> is the word type \<open>'u\<close> and \<open>long int\<close> is \<open>'l\<close>; whether
  they have the same width decides what a value below its threshold is rated.
  Raw values and real values are arbitrary precision integers.
\<close>

section \<open>Constants\<close>

definition BestRtgVal :: rat where "BestRtgVal = 1"
definition AtLeastWarnRtgVal :: rat where "AtLeastWarnRtgVal = 0"
definition WorstRtgVal :: rat where "WorstRtgVal = - 1"
definition RtgValRng :: rat where "RtgValRng = 2"

datatype rslt = Error | AtLeast1Warn | OK | NoCriticalVal | Unknown

primrec rslt_val :: "rslt \<Rightarrow> rat" where
  "rslt_val Error = - 1"
| "rslt_val AtLeast1Warn = 0"
| "rslt_val OK = 1"
| "rslt_val NoCriticalVal = 2"
| "rslt_val Unknown = 3"

definition maxWarnTempInDegC :: int where "maxWarnTempInDegC = 25"
definition minWarnTempInDegC :: int where "minWarnTempInDegC = 46"
definition minCritTempInDegC :: int where "minCritTempInDegC = 69"

section \<open>Maximal normalised values\<close>

definition setMaxNrmlzdVal :: "attr_id \<Rightarrow> int \<Rightarrow> (attr_id \<Rightarrow> byte) \<Rightarrow> attr_id \<Rightarrow> byte" where
  "setMaxNrmlzdVal i v mx = mx(i := word_of_int v)"

definition setMaxNrmlzdVals :: "hw_sizes \<Rightarrow> ata_ids \<Rightarrow> (attr_id \<Rightarrow> byte) \<Rightarrow> attr_id \<Rightarrow> byte" where
  "setMaxNrmlzdVals h A mx =
     (let mx0 = (\<lambda>i. if i < numMaxATAplus1 h then of_nat (dfltNrmlzd h) else mx i);
          mx1 = setMaxNrmlzdVal (ReadErrorRate A) (int (gtrDfltNrmlzd h)) mx0
      in setMaxNrmlzdVal (HW_ECC_Recovered A) (int (gtrDfltNrmlzd h)) mx1)"

definition getNxtGtrMaxNrmlzdVal :: "hw_sizes \<Rightarrow> 'u::len word \<Rightarrow> 'u word \<Rightarrow> 'u word \<Rightarrow> 'u word" where
  "getNxtGtrMaxNrmlzdVal h maxv cur thresh =
     (if maxv < of_nat (gtrDfltNrmlzd h) \<and> (maxv < thresh \<or> maxv < cur)
      then of_nat (gtrDfltNrmlzd h) else maxv)"

section \<open>The manufacturer's rating\<close>

definition fl_unsigned :: "'u::len word \<Rightarrow> rat" where
  "fl_unsigned w = f32 (of_int (uint w))"

definition fl_long :: "'l::len word \<Rightarrow> rat" where
  "fl_long w = f32 (of_int (sint w))"

definition Get1ToMns1Rng :: "'l::len itself \<Rightarrow> hw_sizes \<Rightarrow> (attr_id \<Rightarrow> byte) \<Rightarrow> attr_id
    \<Rightarrow> 'u::len word \<Rightarrow> 'u word \<Rightarrow> rat" where
  "Get1ToMns1Rng T h mx i cur thresh =
     (let maxv = getNxtGtrMaxNrmlzdVal h (ucast (mx i)) cur thresh;
          divident = maxv - thresh
      in if divident = 0 then 0
         else let divisor = (ucast (cur - thresh) :: 'l word);
                  quotient = f32 (fl_long divisor / fl_unsigned divident)
              in if 0 < quotient then (if 1 < quotient then 1 else quotient)
                 else if quotient = 0 then - 1
                 else f32 (f32 (quotient * fl_unsigned divident) / fl_unsigned thresh))"

section \<open>Mapping a value into the rating range\<close>

definition into_rtg :: "(rat \<Rightarrow> rat) \<Rightarrow> int \<Rightarrow> int \<Rightarrow> int \<Rightarrow> rat" where
  "into_rtg rnd best worst v =
     (let fl = (\<lambda>n. rnd (of_int n));
          ratio = (if worst \<le> best then rnd (fl v / fl best)
                   else rnd (rnd (fl worst - fl v) / fl worst))
      in rnd (rnd (ratio * RtgValRng)
              - (if 0 < WorstRtgVal then WorstRtgVal else WorstRtgVal * - 1)))"

definition GetIntoRtgRng :: "int \<Rightarrow> int \<Rightarrow> int \<Rightarrow> rat" where
  "GetIntoRtgRng best worst v = into_rtg f32 best worst v"

definition RateAccDegCelsius :: "int \<Rightarrow> rat" where
  "RateAccDegCelsius t =
     (if minCritTempInDegC < t then WorstRtgVal
      else if minWarnTempInDegC < t
      then GetIntoRtgRng (minWarnTempInDegC - (minCritTempInDegC - minWarnTempInDegC))
             minCritTempInDegC t
      else if t < maxWarnTempInDegC then WorstRtgVal
      else BestRtgVal)"

definition GetPrcntUsdRtng :: "int \<Rightarrow> rat" where
  "GetPrcntUsdRtng v = GetIntoRtgRng 0 100 v"

text \<open>
  \<open>AvailSpareRtg\<close>: the test against the threshold has a statement without
  effect in its branch, so its outcome is not used.
\<close>

definition availSpareThresh :: "'u::len itself \<Rightarrow> nvme_ids \<Rightarrow> 'lw SMARTuniqueIDandValues \<Rightarrow> int" where
  "availSpareThresh T nv d =
     uint (word_of_int (m_rawValue (m_SMARTattrs d (AvailableSpareThreshold nv))) :: 'u word)"

definition AvailSpareRtg :: "'u::len itself \<Rightarrow> nvme_ids \<Rightarrow> 'lw SMARTuniqueIDandValues \<Rightarrow> int \<Rightarrow> rat" where
  "AvailSpareRtg T nv d v =
     (if f32 (of_int v) \<le> f32 (of_int (availSpareThresh T nv d))
      then GetIntoRtgRng 100 (availSpareThresh T nv d) v
      else GetIntoRtgRng 100 (availSpareThresh T nv d) v)"

definition NVMe_SMART_rtg :: "'u::len itself \<Rightarrow> nvme_ids \<Rightarrow> attr_id \<Rightarrow> 'lw SMARTuniqueIDandValues
    \<Rightarrow> int \<Rightarrow> rat" where
  "NVMe_SMART_rtg T nv i d v =
     (if i = CompositeTemperature nv then RateAccDegCelsius v
      else if i = AvailableSpare nv then AvailSpareRtg T nv d v
      else if i = PercentageUsed nv then GetPrcntUsdRtng v
      else if i = MediaErrors nv \<or> i = ErrorInfoLogEntryCount nv
      then (if v = 0 then rslt_val OK else rslt_val AtLeast1Warn)
      else rslt_val Unknown)"

section \<open>Rating of (S)ATA values\<close>

definition mfrRtg :: "'u::len itself \<Rightarrow> hw_sizes \<Rightarrow> (attr_id \<Rightarrow> byte) \<Rightarrow> attr_id
    \<Rightarrow> 'l::len word SMARTuniqueIDandValues \<Rightarrow> rat" where
  "mfrRtg T h mx i d =
     (let a = m_SMARTattrs d i
      in Get1ToMns1Rng TYPE('l) h mx i (ucast (normedCurrVal a) :: 'u word)
           (ucast (normedThresh a)))"

text \<open>The case labels of \<open>ATA_SMART_own_Rtg\<close> for attributes that should be 0.\<close>

definition shouldBeZero :: "ata_ids \<Rightarrow> attr_id list" where
  "shouldBeZero A = [ReadErrorRate A, ReallocSectorsCnt A, SpinUpRetryCnt A,
     RecalibRetriesOrCalibrRetryCnt A, SSDprogFailCnt A, SSDeraseFailCnt A,
     PwrLossProtectionFailure A, EraseFailCnt A, CmdTimeout A, HighFlyWrites A,
     EndToEndError A, ReportedUncorrError A, G_senseErrorCnt A, ReallocEvtCnt A,
     CurrPendSecCnt A, UncorrSecCnt A, UDMA_CRCerrorCnt A, MultiZoneErrorRate A,
     SoftReadErrorRateOrTACnterDetected A, ShockDuringWrite A, FreeFallEvtCnt A]"

text \<open>
  None is the end of the function without a return. The case of the total data
  written runs on into the case of the temperature when the model has a limit.
\<close>

definition ATA_SMART_own_Rtg :: "ata_ids \<Rightarrow> attr_id \<Rightarrow> int \<Rightarrow> ModelAndFirmware option \<Rightarrow> rat option" where
  "ATA_SMART_own_Rtg A i v m =
     (if i \<in> set (shouldBeZero A)
      then Some (if v = 0 then rslt_val OK else rslt_val AtLeast1Warn)
      else if i = TotalDataWritten A then
        (case m of
           Some mf \<Rightarrow> if getRemainingTotalDataWritten mf v = maxTeraBytesWrittenNotSet
                      then Some (rslt_val Unknown)
                      else Some (RateAccDegCelsius v)
         | None \<Rightarrow> Some (rslt_val Unknown))
      else if i = DevTemp A then Some (RateAccDegCelsius v)
      else None)"

definition ATA_SMART_rtg :: "'u::len itself \<Rightarrow> hw_sizes \<Rightarrow> ata_ids \<Rightarrow> (attr_id \<Rightarrow> byte) \<Rightarrow> attr_id
    \<Rightarrow> 'l::len word SMARTuniqueIDandValues \<Rightarrow> int \<Rightarrow> ModelAndFirmware option \<Rightarrow> rat option" where
  "ATA_SMART_rtg T h A mx i d v m =
     (let useManufacturerRtg = (if i = DevTemp A then False else True)
      in if useManufacturerRtg then Some (mfrRtg T h mx i d)
         else ATA_SMART_own_Rtg A i v m)"

definition GetSMARTattrValRtng :: "'u::len itself \<Rightarrow> hw_sizes \<Rightarrow> ata_ids \<Rightarrow> nvme_ids
    \<Rightarrow> (attr_id \<Rightarrow> byte) \<Rightarrow> attr_id \<Rightarrow> 'l::len word SMARTuniqueIDandValues \<Rightarrow> int
    \<Rightarrow> ModelAndFirmware option \<Rightarrow> rat option" where
  "GetSMARTattrValRtng T h A nv mx i d v m =
     (case busType (m_SMARTuniqueID d) of
        NVMe \<Rightarrow> Some (NVMe_SMART_rtg T nv i d v)
      | _ \<Rightarrow> ATA_SMART_rtg T h A mx i d v m)"

section \<open>Facts about the rating range\<close>

context rounding
begin

lemma two [simp]: "rnd 2 = 2"
  using exact [of 2] by simp

lemma rtg_step_mono: "x \<le> y \<Longrightarrow> rnd (rnd (x * 2) - 1) \<le> rnd (rnd (y * 2) - 1)"
  by (intro mono diff_right_mono) simp

lemma rtg_step_range:
  assumes "0 \<le> x" "x \<le> 1"
  shows "- 1 \<le> rnd (rnd (x * 2) - 1) \<and> rnd (rnd (x * 2) - 1) \<le> 1"
  using rtg_step_mono [of 0 x] rtg_step_mono [of x 1] assms by simp

lemma into_rtg_down:
  "best < worst \<Longrightarrow> into_rtg rnd best worst v =
    rnd (rnd (rnd (rnd (rnd (of_int worst) - rnd (of_int v)) / rnd (of_int worst)) * 2) - 1)"
  by (simp add: into_rtg_def RtgValRng_def WorstRtgVal_def)

lemma into_rtg_up:
  "worst \<le> best \<Longrightarrow> into_rtg rnd best worst v =
    rnd (rnd (rnd (rnd (of_int v) / rnd (of_int best)) * 2) - 1)"
  by (simp add: into_rtg_def RtgValRng_def WorstRtgVal_def)

lemma pos_int: "0 < k \<Longrightarrow> 0 < rnd (of_int k)"
  using mono [of 1 "of_int k"] by simp

lemma into_rtg_antimono:
  assumes "best < worst" "0 < worst" "v \<le> w"
  shows "into_rtg rnd best worst w \<le> into_rtg rnd best worst v"
  unfolding into_rtg_down [OF assms(1)]
  using pos_int [OF assms(2)] assms(3)
  by (intro rtg_step_mono mono divide_right_mono diff_left_mono) simp_all

lemma into_rtg_mono:
  assumes "worst \<le> best" "0 < best" "v \<le> w"
  shows "into_rtg rnd best worst v \<le> into_rtg rnd best worst w"
  unfolding into_rtg_up [OF assms(1)]
  using pos_int [OF assms(2)] assms(3)
  by (intro rtg_step_mono mono divide_right_mono) simp_all

lemma into_rtg_down_range:
  assumes "best < worst" "0 < worst" "worst \<le> 2 ^ 24" "0 \<le> v" "v \<le> worst"
  shows "- 1 \<le> into_rtg rnd best worst v \<and> into_rtg rnd best worst v \<le> 1"
proof -
  have ex: "rnd (of_int worst) = of_int worst" "rnd (of_int v) = of_int v"
    "rnd (of_int worst - of_int v) = of_int worst - of_int v"
    using assms exact [of worst] exact [of v] exact [of "worst - v"] by simp_all
  have "0 \<le> (of_int worst - of_int v) / (of_int worst :: rat)"
    "(of_int worst - of_int v) / (of_int worst :: rat) \<le> 1"
    using assms by simp_all
  then have "0 \<le> rnd ((of_int worst - of_int v) / of_int worst)"
    "rnd ((of_int worst - of_int v) / of_int worst) \<le> 1"
    by (auto intro: nonneg le_one)
  then show ?thesis unfolding into_rtg_down [OF assms(1)] ex by (rule rtg_step_range)
qed

lemma into_rtg_up_range:
  assumes "worst \<le> best" "0 < best" "best \<le> 2 ^ 24" "0 \<le> v" "v \<le> best"
  shows "- 1 \<le> into_rtg rnd best worst v \<and> into_rtg rnd best worst v \<le> 1"
proof -
  have ex: "rnd (of_int best) = of_int best" "rnd (of_int v) = of_int v"
    using assms exact [of best] exact [of v] by simp_all
  have "0 \<le> of_int v / (of_int best :: rat)" "of_int v / (of_int best :: rat) \<le> 1"
    using assms by simp_all
  then have "0 \<le> rnd (of_int v / of_int best)" "rnd (of_int v / of_int best) \<le> 1"
    by (auto intro: nonneg le_one)
  then show ?thesis unfolding into_rtg_up [OF assms(1)] ex by (rule rtg_step_range)
qed

end

text \<open>
  The rating of the percentage of a drive's life that is used falls from 1
  for a new drive to -1 at 100 %: it never rises with the percentage, and
  it is at most 0 from 50 % on.
\<close>

theorem percent_used_rating:
  assumes "0 \<le> p" "p \<le> q" "q \<le> 100"
  shows "- 1 \<le> GetPrcntUsdRtng q \<and> GetPrcntUsdRtng q \<le> GetPrcntUsdRtng p
    \<and> GetPrcntUsdRtng p \<le> 1 \<and> GetPrcntUsdRtng 0 = 1 \<and> GetPrcntUsdRtng 100 = - 1
    \<and> (50 \<le> p \<longrightarrow> GetPrcntUsdRtng p \<le> 0)"
proof -
  have fifty: "GetPrcntUsdRtng 50 = 0" using f32_normal [of "1/2" 24 8388608]
    by (simp add: GetPrcntUsdRtng_def GetIntoRtgRng_def f32.into_rtg_down)
  have "GetPrcntUsdRtng p \<le> 0" if "50 \<le> p"
    using f32.into_rtg_antimono [of 0 100 50 p] that fifty
    by (simp add: GetPrcntUsdRtng_def GetIntoRtgRng_def)
  moreover have "GetPrcntUsdRtng 0 = 1" "GetPrcntUsdRtng 100 = - 1"
    by (simp_all add: GetPrcntUsdRtng_def GetIntoRtgRng_def f32.into_rtg_down)
  ultimately show ?thesis
    using f32.into_rtg_antimono [of 0 100 p q] f32.into_rtg_down_range [of 0 100 p]
      f32.into_rtg_down_range [of 0 100 q] assms
    by (simp add: GetPrcntUsdRtng_def GetIntoRtgRng_def)
qed

theorem percent_used_rating_witness: "GetPrcntUsdRtng 99 \<le> GetPrcntUsdRtng 7"
  using percent_used_rating [of 7 99] by simp

lemma RateAccDegCelsius_between:
  "\<lbrakk>46 < t; t \<le> 69\<rbrakk> \<Longrightarrow> RateAccDegCelsius t = into_rtg f32 23 69 t"
  by (simp add: RateAccDegCelsius_def GetIntoRtgRng_def minCritTempInDegC_def minWarnTempInDegC_def)

lemma rating_47: "into_rtg f32 23 69 47 = - (6078701 / 16777216)"
proof -
  have a: "f32 (22 / 69) = 10698515 / 33554432"
    using f32_normal [of "22 / 69" 25 10698515] by simp
  have b: "f32 (10698515 / 16777216) = 10698515 / 16777216"
    using f32_normal [of "10698515 / 16777216" 24 10698515] by simp
  have c: "f32 (6078701 / 16777216) = 6078701 / 16777216"
    using f32_normal [of "6078701 / 16777216" 25 12157402] by simp
  show ?thesis by (simp add: f32.into_rtg_down f32_minus_frac a b c)
qed

lemma rating_68: "into_rtg f32 23 69 68 = - (2036365 / 2097152)"
proof -
  have a: "f32 (1 / 69) = 3890369 / 268435456"
    using f32_normal [of "1 / 69" 30 15561476] by simp
  have b: "f32 (3890369 / 134217728) = 3890369 / 134217728"
    using f32_normal [of "3890369 / 134217728" 29 15561476] by simp
  have c: "f32 (130327359 / 134217728) = 2036365 / 2097152"
    using f32_normal [of "130327359 / 134217728" 24 16290920] by simp
  show ?thesis by (simp add: f32.into_rtg_down f32_minus_frac a b c)
qed

lemma rating_69: "into_rtg f32 23 69 69 = WorstRtgVal"
  by (simp add: f32.into_rtg_down WorstRtgVal_def)

text \<open>
  C38: A temperature is rated best exactly from 25 to 46 degrees, and worst below
  25 and from 69 degrees on; from 47 to 68 degrees the rating falls with the
  temperature and is already negative, that is below the warning value 0.
\<close>

theorem temperature_rating:
  "(RateAccDegCelsius t = BestRtgVal \<longleftrightarrow> 25 \<le> t \<and> t \<le> 46)
    \<and> (RateAccDegCelsius t = WorstRtgVal \<longleftrightarrow> t < 25 \<or> 69 \<le> t)
    \<and> (46 < t \<and> t \<le> u \<longrightarrow> RateAccDegCelsius u \<le> RateAccDegCelsius t
        \<and> RateAccDegCelsius t < AtLeastWarnRtgVal)"
proof -
  have mono: "into_rtg f32 23 69 y \<le> into_rtg f32 23 69 x" if "x \<le> y" for x y
    using f32.into_rtg_antimono [of 23 69] that by simp
  consider "t < 25" | "25 \<le> t" "t \<le> 46" | "46 < t" "t < 69" | "t = 69" | "69 < t" by linarith
  then show ?thesis
  proof cases
    case 3
    then have r: "RateAccDegCelsius t = into_rtg f32 23 69 t" by (simp add: RateAccDegCelsius_between)
    then have "RateAccDegCelsius t < AtLeastWarnRtgVal" "WorstRtgVal < RateAccDegCelsius t"
      using mono [of 47 t] mono [of t 68] rating_47 rating_68 3
      by (simp_all add: AtLeastWarnRtgVal_def WorstRtgVal_def)
    moreover have "RateAccDegCelsius u \<le> RateAccDegCelsius t" if "t \<le> u"
    proof (cases "u \<le> 69")
      case True
      then show ?thesis using 3 that mono by (simp add: r RateAccDegCelsius_between)
    next
      case False
      then show ?thesis using \<open>WorstRtgVal < RateAccDegCelsius t\<close>
        by (simp add: RateAccDegCelsius_def minCritTempInDegC_def)
    qed
    ultimately show ?thesis using 3 by (auto simp: AtLeastWarnRtgVal_def BestRtgVal_def)
  next
    case 4
    then have r: "RateAccDegCelsius t = WorstRtgVal" using rating_69
      by (simp add: RateAccDegCelsius_between)
    moreover have "RateAccDegCelsius u = WorstRtgVal" if "69 \<le> u"
      using that 4 r by (cases "u = 69") (simp_all add: RateAccDegCelsius_def minCritTempInDegC_def)
    ultimately show ?thesis using 4
      by (auto simp: WorstRtgVal_def BestRtgVal_def AtLeastWarnRtgVal_def)
  qed (auto simp: RateAccDegCelsius_def minCritTempInDegC_def minWarnTempInDegC_def
      maxWarnTempInDegC_def WorstRtgVal_def BestRtgVal_def AtLeastWarnRtgVal_def)
qed

theorem temperature_rating_witness: "RateAccDegCelsius 60 \<le> RateAccDegCelsius 50"
  using temperature_rating [of 50 60] by simp

section \<open>Properties of the manufacturer's rating\<close>

lemma sint_byte_diff:
  assumes "uint (a :: 64 word) < 256" "uint b < 256"
  shows "sint (a - b) = uint a - uint b"
proof -
  have "sint a = uint a" "sint b = uint b"
    using sint_uint_small [of a] sint_uint_small [of b] assms by simp_all
  moreover have "sint (a - b) = signed_take_bit 63 (sint a - sint b)"
    by (simp add: sint_word_ariths)
  moreover have "0 \<le> uint a" "0 \<le> uint b" by simp_all
  then have "- 256 < uint a - uint b" "uint a - uint b < 256"
    using assms by linarith+
  then have "signed_take_bit 63 (uint a - uint b) = uint a - uint b"
    by (intro signed_take_bit_int_eq_self) simp_all
  ultimately show ?thesis by simp
qed

lemma one_le_fl:
  assumes "0 < uint w"
  shows "(1 :: rat) \<le> of_int (uint w)"
proof -
  have "1 \<le> uint w" using assms by simp
  then show ?thesis by (simp only: of_int_1_le_iff)
qed

lemma fl_unsigned_bounds:
  assumes "(w :: 64 word) \<noteq> 0"
  shows "1 \<le> fl_unsigned w \<and> fl_unsigned w \<le> 2 ^ 65"
proof -
  have "0 < uint w" using assms by (simp add: word_neq_0_conv word_less_def)
  then have one: "1 \<le> (of_int (uint w) :: rat)" by (rule one_le_fl)
  have "f32 (of_int (uint w)) \<le> of_int (uint w) * (1 + 1 / 2 ^ 24)"
    by (intro f32_rel order_trans [OF _ one]) simp
  also have "\<dots> \<le> 2 ^ 64 * (1 + 1 / 2 ^ 24)"
  proof (rule mult_right_mono)
    have "uint w \<le> 2 ^ 64" using uint_lt2p [of w] by simp
    then have "(of_int (uint w) :: rat) \<le> of_int (2 ^ 64)" by (simp only: of_int_le_iff)
    then show "(of_int (uint w) :: rat) \<le> 2 ^ 64" by simp
  qed simp
  also have "\<dots> \<le> 2 ^ 65" by simp
  finally show ?thesis using f32.ge_one [OF one] by (simp only: fl_unsigned_def simp_thms)
qed

text \<open>Signs of the intermediate results, for a positive difference \<open>k\<close>.\<close>

lemma quotient_pos:
  assumes "1 \<le> D" "D \<le> 2 ^ 65" "0 < k"
  shows "1 / 2 ^ 100 \<le> f32 (of_int k) / D" "0 < f32 (f32 (of_int k) / D)"
proof -
  have "1 \<le> f32 (of_int k)" using assms(3) by (intro f32.ge_one) simp
  then have "1 / D \<le> f32 (of_int k) / D" using assms by (simp add: divide_right_mono)
  moreover have "1 / 2 ^ 100 \<le> 1 / D" using assms by (intro frac_le) simp_all
  ultimately show q: "1 / 2 ^ 100 \<le> f32 (of_int k) / D" by (rule order_trans [rotated])
  show "0 < f32 (f32 (of_int k) / D)" by (rule f32_pos_iff [OF q])
qed

text \<open>
  The product with the divisor is within two roundings of the difference, the
  final quotient within three of the exact one.
\<close>

lemma below_threshold:
  assumes "1 \<le> D" "D \<le> 2 ^ 65" "0 < k" "k \<le> T" "T < 256"
  defines "r \<equiv> f32 (f32 (f32 (f32 (of_int k) / D) * D) / f32 (of_int T))"
  shows "of_int k / of_int T * (1 - 1 / 2 ^ 24) ^ 3 \<le> r" "r \<le> of_int k / of_int T * (1 + 1 / 2 ^ 24) ^ 3"
    and "0 < r"
proof -
  let ?l = "1 - 1 / 2 ^ 24 :: rat" and ?h = "1 + 1 / 2 ^ 24 :: rat"
  have D: "0 < D" using assms(1) by simp
  have fk: "f32 (of_int k) = of_int k" "f32 (of_int T) = of_int T"
    using assms by (simp_all add: f32.exact)
  have k1: "1 \<le> (of_int k :: rat)" and T1: "0 < (of_int T :: rat)" and T8: "(of_int T :: rat) \<le> 256"
    using assms by (simp_all add: of_int_le_numeral_iff)
  define q where "q = f32 (of_int k / D)"
  define p where "p = f32 (q * D)"
  have q: "of_int k / D * ?l \<le> q" "q \<le> of_int k / D * ?h"
    using f32_rel [OF quotient_pos(1) [OF assms(1-3)]] by (simp_all add: q_def fk)
  have qD: "of_int k * ?l \<le> q * D" "q * D \<le> of_int k * ?h"
    using mult_right_mono [OF q(1), of D] mult_right_mono [OF q(2), of D] D by simp_all
  have "(1 :: rat) / 2 ^ 100 \<le> 1 * ?l" by simp
  also have "\<dots> \<le> of_int k * ?l" using k1 by (intro mult_right_mono) simp_all
  finally have "1 / 2 ^ 100 \<le> q * D" using qD(1) by (rule order_trans)
  note pr = f32_rel [OF this, folded p_def]
  have p: "of_int k * ?l ^ 2 \<le> p" "p \<le> of_int k * ?h ^ 2"
    using order_trans [OF mult_right_mono [OF qD(1), of ?l] pr(1)]
      order_trans [OF pr(2) mult_right_mono [OF qD(2), of ?h]]
    by (simp_all add: power2_eq_square mult.assoc)
  have pT: "of_int k * ?l ^ 2 / of_int T \<le> p / of_int T" "p / of_int T \<le> of_int k * ?h ^ 2 / of_int T"
    using p T1 by (simp_all add: divide_right_mono)
  have "(1 :: rat) / 2 ^ 100 \<le> 1 * ?l ^ 2 / 256" by (simp add: power2_eq_square)
  also have "\<dots> \<le> of_int k * ?l ^ 2 / of_int T"
    using k1 T1 T8 by (intro frac_le mult_right_mono) simp_all
  finally have big: "1 / 2 ^ 100 \<le> p / of_int T" using pT(1) by (rule order_trans)
  note rr = f32_rel [OF big]
  have r: "r = f32 (p / of_int T)" by (simp add: r_def p_def q_def fk)
  show "0 < r" unfolding r by (rule f32_pos_iff [OF big])
  show "of_int k / of_int T * ?l ^ 3 \<le> r" "r \<le> of_int k / of_int T * ?h ^ 3"
    using order_trans [OF mult_right_mono [OF pT(1), of ?l] rr(1)]
      order_trans [OF rr(2) mult_right_mono [OF pT(2), of ?h]]
    unfolding r by (simp_all add: power3_eq_cube power2_eq_square mult.assoc)
qed

lemma manufacturer_cases:
  fixes cur thresh :: "64 word"
  assumes "uint cur < 256" "uint thresh < 256"
    and "getNxtGtrMaxNrmlzdVal h (ucast (mx i)) cur thresh \<noteq> thresh"
  obtains D where "1 \<le> D" "D \<le> 2 ^ 65"
    "uint thresh < uint cur \<Longrightarrow> Get1ToMns1Rng TYPE(64) h mx i cur thresh
      = min 1 (f32 (f32 (of_int (uint cur - uint thresh)) / D))"
    "uint cur = uint thresh \<Longrightarrow> Get1ToMns1Rng TYPE(64) h mx i cur thresh = - 1"
    "uint cur < uint thresh \<Longrightarrow> Get1ToMns1Rng TYPE(64) h mx i cur thresh
      = - f32 (f32 (f32 (f32 (of_int (uint thresh - uint cur)) / D) * D) / f32 (of_int (uint thresh)))"
proof -
  define W where "W = getNxtGtrMaxNrmlzdVal h (ucast (mx i)) cur thresh - thresh"
  define D where "D = fl_unsigned W"
  define q where "q = f32 (f32 (of_int (uint cur - uint thresh)) / D)"
  have W: "W \<noteq> 0" using assms(3) by (simp add: W_def)
  have B: "1 \<le> D" "D \<le> 2 ^ 65" using fl_unsigned_bounds [OF W] by (simp_all add: D_def)
  have "q = f32 (fl_long (ucast (cur - thresh) :: 64 word) / D)"
    by (simp only: q_def fl_long_def ucast_id sint_byte_diff [OF assms(1,2)])
  then have r: "Get1ToMns1Rng TYPE(64) h mx i cur thresh =
      (if 0 < q then (if 1 < q then 1 else q) else if q = 0 then - 1
       else f32 (f32 (q * D) / fl_unsigned thresh))"
    using W by (simp add: Get1ToMns1Rng_def Let_def W_def D_def)
  show thesis
  proof (rule that [OF B])
    assume "uint thresh < uint cur"
    then have "0 < q" unfolding q_def by (intro quotient_pos(2) [OF B]) simp
    then show "Get1ToMns1Rng TYPE(64) h mx i cur thresh
      = min 1 (f32 (f32 (of_int (uint cur - uint thresh)) / D))"
      unfolding r q_def [symmetric] by auto
  next
    assume "uint cur = uint thresh"
    then show "Get1ToMns1Rng TYPE(64) h mx i cur thresh = - 1"
      unfolding r by (simp add: q_def)
  next
    assume lt: "uint cur < uint thresh"
    define Q where "Q = f32 (f32 (of_int (uint thresh - uint cur)) / D)"
    have "f32 (of_int (uint cur - uint thresh)) = - f32 (of_int (uint thresh - uint cur))"
      using f32_odd [of "of_int (uint thresh - uint cur)"] by simp
    then have qQ: "q = - Q" unfolding q_def Q_def by (simp add: f32_minus_frac)
    have "0 < Q" unfolding Q_def using lt by (intro quotient_pos(2) [OF B]) simp
    then show "Get1ToMns1Rng TYPE(64) h mx i cur thresh
      = - f32 (f32 (f32 (f32 (of_int (uint thresh - uint cur)) / D) * D) / f32 (of_int (uint thresh)))"
      unfolding r Q_def [symmetric] fl_unsigned_def by (simp add: qQ f32_odd f32_minus_frac)
  qed
qed

text \<open>
  C9: With \<open>faststUint\<close> as wide as \<open>long int\<close>, and unless the threshold equals
  the maximum: a normalised value above its threshold is rated above 0 and at
  most 1, one at the threshold -1, and one below it is rated minus its relative
  distance to the threshold, up to three roundings.
\<close>

theorem normalised_rating:
  fixes cur thresh :: "64 word"
  assumes "uint cur < 256" "uint thresh < 256"
    and "getNxtGtrMaxNrmlzdVal h (ucast (mx i)) cur thresh \<noteq> thresh"
  defines "r \<equiv> Get1ToMns1Rng TYPE(64) h mx i cur thresh"
    and "d \<equiv> of_int (uint thresh - uint cur) / of_int (uint thresh) :: rat"
  shows "(uint thresh < uint cur \<longrightarrow> 0 < r \<and> r \<le> 1) \<and> (uint cur = uint thresh \<longrightarrow> r = - 1)
    \<and> (uint cur < uint thresh \<longrightarrow> r < 0
        \<and> d * (1 - 1 / 2 ^ 24) ^ 3 \<le> - r \<and> - r \<le> d * (1 + 1 / 2 ^ 24) ^ 3)"
proof -
  obtain D where B: "1 \<le> D" "D \<le> 2 ^ 65" and
    r: "uint thresh < uint cur \<Longrightarrow> r = min 1 (f32 (f32 (of_int (uint cur - uint thresh)) / D))"
      "uint cur = uint thresh \<Longrightarrow> r = - 1"
      "uint cur < uint thresh \<Longrightarrow> r = - f32 (f32 (f32 (f32 (of_int (uint thresh - uint cur)) / D) * D)
         / f32 (of_int (uint thresh)))"
    unfolding r_def using manufacturer_cases [where mx = mx and i = i, OF assms(1-3)] by blast
  have "0 < r \<and> r \<le> 1" if "uint thresh < uint cur"
    unfolding r(1) [OF that] using quotient_pos(2) [OF B, of "uint cur - uint thresh"] that by simp
  moreover have "r < 0 \<and> d * (1 - 1 / 2 ^ 24) ^ 3 \<le> - r \<and> - r \<le> d * (1 + 1 / 2 ^ 24) ^ 3"
    if "uint cur < uint thresh"
  proof -
    have k: "0 < uint thresh - uint cur" "uint thresh - uint cur \<le> uint thresh"
      using that by simp_all
    show ?thesis unfolding r(3) [OF that] d_def
      using below_threshold [OF B k assms(2)] by (simp only: minus_minus neg_less_0_iff_less simp_thms)
  qed
  ultimately show ?thesis using r(2) by blast
qed

text \<open>
  C39: With \<open>faststUint\<close> as wide as \<open>long int\<close>, and unless the threshold is the
  maximum the value, or the threshold itself, is compared with: because the value
  at the threshold is rated -1, a value strictly below the threshold, unless it
  is 0, is rated better than one at the threshold.
\<close>

theorem below_threshold_rated_better:
  fixes cur thresh :: "64 word"
  assumes "0 < uint cur" "uint cur < uint thresh" "uint thresh < 256"
    and "getNxtGtrMaxNrmlzdVal h (ucast (mx i)) cur thresh \<noteq> thresh"
    and "getNxtGtrMaxNrmlzdVal h (ucast (mx i)) thresh thresh \<noteq> thresh"
  shows "Get1ToMns1Rng TYPE(64) h mx i thresh thresh < Get1ToMns1Rng TYPE(64) h mx i cur thresh"
proof -
  have c: "uint cur < 256" using assms(2,3) by simp
  let ?d = "of_int (uint thresh - uint cur) / of_int (uint thresh) :: rat"
  have "uint thresh - uint cur \<le> uint thresh - 1" using assms(1) by simp
  then have "(of_int (uint thresh - uint cur) :: rat) \<le> of_int (uint thresh - 1)"
    by (simp only: of_int_le_iff)
  moreover have T: "0 < uint thresh" "uint thresh \<le> 255" using assms(1-3) by simp_all
  then have T': "(0 :: rat) < of_int (uint thresh)" "(of_int (uint thresh) :: rat) \<le> of_int 255"
    by (simp_all only: of_int_0_less_iff of_int_le_iff)
  ultimately have "?d \<le> 1 - 1 / 255"
    by (simp add: field_simps)
  then have "?d * (1 + 1 / 2 ^ 24) ^ 3 \<le> (1 - 1 / 255) * (1 + 1 / 2 ^ 24) ^ 3"
    by (rule mult_right_mono) simp
  also have "\<dots> < 1" by (simp add: power3_eq_cube)
  finally have "- 1 < Get1ToMns1Rng TYPE(64) h mx i cur thresh"
    using normalised_rating [where mx = mx and i = i, OF c assms(3,4)] assms(2) by linarith
  then show ?thesis
    using normalised_rating [where mx = mx and i = i, OF assms(3,3,5)] by simp
qed

text \<open>The normalised maxima after \<open>setMaxNrmlzdVals\<close>, for the witnesses.\<close>

definition std_max :: "attr_id \<Rightarrow> byte" where
  "std_max = setMaxNrmlzdVals std_sizes std_ata (\<lambda>_. 0)"

lemma std_max_5: "std_max 5 = 100"
  by (simp add: std_max_def setMaxNrmlzdVals_def setMaxNrmlzdVal_def numMaxATAplus1_def
      std_sizes_def std_ata_def)

theorem normalised_rating_witness:
  "Get1ToMns1Rng TYPE(64) std_sizes std_max 5 (0 :: 64 word) 7 < 0
    \<and> 0 < Get1ToMns1Rng TYPE(64) std_sizes std_max 5 (100 :: 64 word) 7"
  using normalised_rating [where h = std_sizes and mx = std_max and i = 5 and cur = 0 and thresh = 7]
    normalised_rating [where h = std_sizes and mx = std_max and i = 5 and cur = 100 and thresh = 7]
  by (simp add: std_max_5 getNxtGtrMaxNrmlzdVal_def std_sizes_def)

theorem below_threshold_rated_better_witness:
  "Get1ToMns1Rng TYPE(64) std_sizes std_max 5 10 (10 :: 64 word)
    < Get1ToMns1Rng TYPE(64) std_sizes std_max 5 9 (10 :: 64 word)"
  by (rule below_threshold_rated_better)
     (simp_all add: std_max_5 getNxtGtrMaxNrmlzdVal_def std_sizes_def)

text \<open>
  Rounding can take the rating of the value 0 past the worst rating: for the
  maximum 100 and the threshold 7 it is the float below -1.
\<close>

lemma rating_below_worst:
  "Get1ToMns1Rng TYPE(64) std_sizes std_max 5 (0 :: 64 word) 7 < WorstRtgVal"
proof -
  have a: "f32 (7 / 93) = 5051205 / 67108864"
    using f32_normal [of "7 / 93" 27 10102410] by simp
  have b: "f32 (469762065 / 67108864) = 14680065 / 2097152"
    using f32_normal [of "469762065 / 67108864" 21 14680065] by simp
  have c: "f32 (14680065 / 14680064) = 8388609 / 8388608"
    using f32_normal [of "14680065 / 14680064" 23 8388609] by simp
  show ?thesis
    by (simp add: Get1ToMns1Rng_def std_max_5 getNxtGtrMaxNrmlzdVal_def std_sizes_def
        fl_long_def fl_unsigned_def f32_odd f32_minus_frac WorstRtgVal_def a b c)
qed

text \<open>
  With a 32 bit \<open>faststUint\<close> and a 64 bit \<open>long int\<close> the difference of a
  normalised value and a greater threshold is a large positive number: every
  value below its threshold is rated best.
\<close>

theorem below_threshold_rated_best_mixed_width:
  fixes cur thresh :: "32 word"
  assumes "cur < thresh"
    and "thresh < getNxtGtrMaxNrmlzdVal h (ucast (mx i)) cur thresh"
    and "uint (getNxtGtrMaxNrmlzdVal h (ucast (mx i)) cur thresh) < 256"
  shows "Get1ToMns1Rng TYPE(64) h mx i cur thresh = BestRtgVal"
proof -
  define M where "M = getNxtGtrMaxNrmlzdVal h (ucast (mx i)) cur thresh"
  have lt: "uint cur < uint thresh" "uint thresh < uint M" "uint M < 256"
    using assms by (simp_all add: M_def word_less_def)
  define d where "d = uint cur - uint thresh"
  have d: "- 256 < d" "d < 0" using lt uint_ge_0 [of cur] unfolding d_def by linarith+
  have "uint (cur - thresh) = d mod 2 ^ 32" by (simp add: uint_word_ariths d_def)
  also have "\<dots> = (d + 2 ^ 32) mod 2 ^ 32" by simp
  also have "\<dots> = d + 2 ^ 32" using d by (intro mod_pos_pos_trivial) simp_all
  finally have u: "uint (cur - thresh) = d + 2 ^ 32" .
  have "uint (ucast (cur - thresh) :: 64 word) = take_bit 64 (d + 2 ^ 32)"
    by (simp only: unsigned_ucast_eq u) simp
  also have "\<dots> = d + 2 ^ 32" using d by (simp add: take_bit_int_eq_self)
  finally have "uint (ucast (cur - thresh) :: 64 word) = d + 2 ^ 32" .
  then have s: "sint (ucast (cur - thresh) :: 64 word) = d + 2 ^ 32"
    using d sint_uint_small [of "ucast (cur - thresh)"] by simp
  have "2 ^ 24 \<le> d + 2 ^ 32" using d by simp
  then have "f32 (of_int (2 ^ 24)) \<le> f32 (of_int (d + 2 ^ 32))"
    by (intro f32_mono) (simp only: of_int_le_iff)
  then have N: "2 ^ 24 \<le> fl_long (ucast (cur - thresh) :: 64 word)"
    by (simp add: fl_long_def s)
  have "uint thresh \<le> uint M" using lt by simp
  then have "uint (M - thresh) = uint M - uint thresh" by (rule uint_sub_lem [THEN iffD1])
  moreover have "uint M - uint thresh \<le> 256" using lt uint_ge_0 [of thresh] by linarith
  ultimately have D1: "0 < uint (M - thresh)" "uint (M - thresh) \<le> 2 ^ 8" using lt by simp_all
  then have D0: "M - thresh \<noteq> 0" by auto
  have "(of_int (uint (M - thresh)) :: rat) \<le> of_int (2 ^ 8)" using D1(2) by (simp only: of_int_le_iff)
  then have "f32 (of_int (uint (M - thresh))) \<le> of_int (2 ^ 8)" by (rule f32.le_int) simp
  then have D: "0 < fl_unsigned (M - thresh)" "fl_unsigned (M - thresh) \<le> 2 ^ 8"
    using f32.pos_int [OF D1(1)] by (simp_all only: fl_unsigned_def) simp
  have "2 ^ 16 * fl_unsigned (M - thresh) \<le> 2 ^ 16 * 2 ^ 8" using D(2) by simp
  also have "\<dots> \<le> fl_long (ucast (cur - thresh) :: 64 word)" using N by simp
  finally have "2 \<le> fl_long (ucast (cur - thresh) :: 64 word) / fl_unsigned (M - thresh)"
    using D(1) by (simp add: pos_le_divide_eq)
  then have "2 \<le> f32 (fl_long (ucast (cur - thresh) :: 64 word) / fl_unsigned (M - thresh))"
    using f32_mono [of 2] by fastforce
  then show ?thesis
    using D0 by (simp add: Get1ToMns1Rng_def Let_def M_def BestRtgVal_def)
qed

theorem below_threshold_rated_best_mixed_width_witness:
  "Get1ToMns1Rng TYPE(64) std_sizes std_max 5 (1 :: 32 word) 36 = BestRtgVal"
  by (rule below_threshold_rated_best_mixed_width)
     (simp_all add: std_max_5 getNxtGtrMaxNrmlzdVal_def std_sizes_def)

section \<open>Properties of the dispatch\<close>

text \<open>
  For a drive that is not on an NVMe bus the real value of an attribute has
  no influence on its rating, except for the temperature, which is rated by its
  value in degrees Celsius alone; there is always a rating.
\<close>

theorem ata_rating_dispatch:
  assumes "busType (m_SMARTuniqueID d) \<noteq> NVMe"
    and "DevTemp A \<notin> set (shouldBeZero A)" "DevTemp A \<noteq> TotalDataWritten A"
  shows "GetSMARTattrValRtng T h A nv mx i d v m =
    Some (if i = DevTemp A then RateAccDegCelsius v else mfrRtg T h mx i d)"
  using assms
  by (cases "busType (m_SMARTuniqueID d)")
     (simp_all add: GetSMARTattrValRtng_def ATA_SMART_rtg_def ATA_SMART_own_Rtg_def)

definition drive_example :: "64 word SMARTuniqueIDandValues" where
  "drive_example = \<lparr>m_SMARTuniqueID = blank_uid, m_SMARTattrs = (\<lambda>_. attr_example64)\<rparr>"

theorem ata_rating_dispatch_witness:
  "GetSMARTattrValRtng TYPE(64) std_sizes std_ata std_nvme std_max 194 drive_example 30 None
    = Some BestRtgVal"
  by (subst ata_rating_dispatch)
     (simp_all add: drive_example_def blank_uid_def initAttrVals_def shouldBeZero_def std_ata_def
        RateAccDegCelsius_def minCritTempInDegC_def minWarnTempInDegC_def maxWarnTempInDegC_def)

lemma spare_rating_1: "into_rtg f32 100 0 1 = - (2055209 / 2097152)"
proof -
  have a: "f32 (1 / 100) = 5368709 / 536870912"
    using f32_normal [of "1 / 100" 30 10737418] by simp
  have b: "f32 (5368709 / 268435456) = 5368709 / 268435456"
    using f32_normal [of "5368709 / 268435456" 29 10737418] by simp
  have c: "f32 (263066747 / 268435456) = 2055209 / 2097152"
    using f32_normal [of "263066747 / 268435456" 24 16441672] by simp
  show ?thesis by (simp add: f32.into_rtg_up f32_minus_frac a b c)
qed

text \<open>
  An available spare of 1 to 100 percent is rated between the worst and the
  best rating and rises with the spare; a spare at or below the threshold of
  the drive is not given the worst rating.
\<close>

theorem spare_rating:
  assumes "1 \<le> v" "v \<le> w" "w \<le> 100" "availSpareThresh T nv d \<le> 100"
  shows "WorstRtgVal < AvailSpareRtg T nv d v \<and> AvailSpareRtg T nv d v \<le> AvailSpareRtg T nv d w
    \<and> AvailSpareRtg T nv d w \<le> 1"
proof -
  have s: "AvailSpareRtg T nv d x = into_rtg f32 100 0 x" for x
    using assms(4) by (simp add: AvailSpareRtg_def GetIntoRtgRng_def f32.into_rtg_up)
  have "into_rtg f32 100 0 1 \<le> into_rtg f32 100 0 v"
    using assms(1) by (intro f32.into_rtg_mono) simp_all
  moreover have "into_rtg f32 100 0 v \<le> into_rtg f32 100 0 w"
    using assms(2) by (intro f32.into_rtg_mono) simp_all
  ultimately show ?thesis
    using f32.into_rtg_up_range [of 0 100 w] assms spare_rating_1
    by (simp add: s WorstRtgVal_def)
qed

theorem spare_rating_witness:
  "WorstRtgVal < AvailSpareRtg TYPE(64) std_nvme
     (drive_example\<lparr>m_SMARTattrs := (\<lambda>_. attr_example64\<lparr>m_rawValue := 10\<rparr>)\<rparr>) 5"
  using spare_rating [of 5 5 "TYPE(64)" std_nvme
      "drive_example\<lparr>m_SMARTattrs := (\<lambda>_. attr_example64\<lparr>m_rawValue := 10\<rparr>)\<rparr>"]
  by (simp add: availSpareThresh_def)

end
