(* ===== verification/Decimal.thy ===== *)
theory Decimal
  imports Prelude
begin

text \<open>
  Printing and reading numbers: what \<open>ostream << unsigned\<close> writes in decimal
  and in upper case hexadecimal, and the value of a digit string. Printing and
  reading back are used by the time format, the XML the service sends and the
  configuration files.
\<close>

definition digit_char :: "nat \<Rightarrow> char" where
  "digit_char d = (if d < 10 then char_of (48 + d) else char_of (55 + d))"

fun print_base :: "nat \<Rightarrow> nat \<Rightarrow> string" where
  "print_base b n =
     (if n < b \<or> b < 2 then [digit_char n] else print_base b (n div b) @ [digit_char (n mod b)])"

declare print_base.simps [simp del]

definition dec :: "nat \<Rightarrow> string" where
  "dec n = print_base 10 n"

text \<open>Numbers of either sign, as \<open>ostream\<close> prints signed and arbitrary precision ones.\<close>

definition dec_int :: "int \<Rightarrow> string" where
  "dec_int i = (if i < 0 then CHR ''-'' # dec (nat (- i)) else dec (nat i))"

definition hex_upper :: "nat \<Rightarrow> string" where
  "hex_upper n = print_base 16 n"

definition is_digit :: "char \<Rightarrow> bool" where
  "is_digit c = (48 \<le> (of_char c :: nat) \<and> (of_char c :: nat) \<le> 57)"

definition digit_val :: "char \<Rightarrow> nat" where
  "digit_val c = of_char c - 48"

definition undec :: "string \<Rightarrow> nat" where
  "undec s = foldl (\<lambda>a c. 10 * a + digit_val c) 0 s"

lemma digit_char_digit [simp]: "d < 10 \<Longrightarrow> is_digit (digit_char d)"
  by (simp add: is_digit_def digit_char_def)

lemma digit_val_char [simp]: "d < 10 \<Longrightarrow> digit_val (digit_char d) = d"
  by (simp add: digit_val_def digit_char_def)

lemma undec_snoc: "undec (s @ [c]) = 10 * undec s + digit_val c"
  by (simp add: undec_def)

lemma dec_rec: "dec n = (if n < 10 then [digit_char n] else dec (n div 10) @ [digit_char (n mod 10)])"
  unfolding dec_def by (subst print_base.simps) simp

lemma undec_dec [simp]: "undec (dec n) = n"
proof (induction n rule: less_induct)
  case (less n)
  then show ?case
    by (cases "n < 10") (simp_all add: dec_rec [of n] undec_snoc, simp add: undec_def)
qed

lemma dec_digits [simp]: "\<forall>c\<in>set (dec n). is_digit c"
proof (induction n rule: less_induct)
  case (less n)
  show ?case
  proof (cases "n < 10")
    case False
    then have "\<forall>c\<in>set (dec (n div 10)). is_digit c" by (intro less) simp
    then show ?thesis using False by (simp add: dec_rec [of n])
  qed (simp add: dec_rec [of n])
qed

lemma dec_nonempty [simp]: "dec n \<noteq> []"
  by (subst dec_rec) simp

lemma dec_inj: "dec m = dec n \<longleftrightarrow> m = n"
  by (metis undec_dec)

lemma takeWhile_digits_dec:
  "\<lbrakk>r = [] \<or> \<not> is_digit (hd r)\<rbrakk> \<Longrightarrow>
    takeWhile is_digit (dec n @ r) = dec n \<and> dropWhile is_digit (dec n @ r) = r"
  by (cases r) (auto simp: takeWhile_append dropWhile_append)

text \<open>
  A sequence of numbers each followed by a unit is read back as the sum of the
  numbers weighted by the values of their units.
\<close>

function read_units :: "(string \<Rightarrow> nat) \<Rightarrow> string \<Rightarrow> nat" where
  "read_units f s =
     (let ds = takeWhile is_digit s; r = dropWhile is_digit s;
          us = takeWhile (\<lambda>c. \<not> is_digit c) r; rest = dropWhile (\<lambda>c. \<not> is_digit c) r
      in if us = [] then 0 else undec ds * f us + read_units f rest)"
  by pat_completeness auto
termination
proof (relation "measure (\<lambda>(f, s). length s)", goal_cases)
  case (2 f s x xa y ya)
  have "length (takeWhile (\<lambda>c. \<not> is_digit c) xa) + length ya = length xa"
    unfolding 2 by (metis length_append takeWhile_dropWhile_id)
  moreover have "length xa \<le> length s" using 2 by (simp add: length_dropWhile_le)
  moreover have "0 < length (takeWhile (\<lambda>c. \<not> is_digit c) xa)" using 2 by simp
  ultimately have "length ya < length s" by linarith
  then show ?case by simp
qed simp

declare read_units.simps [simp del]

lemma read_units_Nil [simp]: "read_units f [] = 0"
  by (simp add: read_units.simps)

lemma read_units_step:
  assumes "u \<noteq> []" "\<forall>c\<in>set u. \<not> is_digit c" "rest = [] \<or> is_digit (hd rest)"
  shows "read_units f (dec n @ u @ rest) = n * f u + read_units f rest"
proof -
  have hd: "\<not> is_digit (hd (u @ rest))" using assms by (cases u) auto
  have 1: "takeWhile is_digit (dec n @ u @ rest) = dec n" "dropWhile is_digit (dec n @ u @ rest) = u @ rest"
    using takeWhile_digits_dec [of "u @ rest" n] hd by simp_all
  have 2: "takeWhile (\<lambda>c. \<not> is_digit c) (u @ rest) = u" "dropWhile (\<lambda>c. \<not> is_digit c) (u @ rest) = rest"
    using assms by (cases rest; auto simp: takeWhile_append dropWhile_append)+
  show ?thesis using assms(1) by (subst read_units.simps) (simp add: 1 2)
qed

definition units_text :: "(nat \<times> string) list \<Rightarrow> string" where
  "units_text ps = concat (map (\<lambda>(n, u). dec n @ u) ps)"

lemma units_text_simps [simp]:
  "units_text [] = []" "units_text ((n, u) # ps) = dec n @ u @ units_text ps"
  by (simp_all add: units_text_def)

lemma units_text_hd: "units_text ps = [] \<or> is_digit (hd (units_text ps))"
proof (cases ps)
  case (Cons p ps')
  have "hd (dec (fst p)) \<in> set (dec (fst p))" by simp
  then have "is_digit (hd (dec (fst p)))" using dec_digits by blast
  then show ?thesis using Cons by (cases p) simp
qed simp

lemma read_units_text:
  "\<forall>(n, u)\<in>set ps. u \<noteq> [] \<and> (\<forall>c\<in>set u. \<not> is_digit c) \<Longrightarrow>
    read_units f (units_text ps) = (\<Sum>(n, u)\<leftarrow>ps. n * f u)"
proof (induction ps)
  case (Cons p ps)
  then show ?case using units_text_hd [of ps]
    by (cases p) (simp add: read_units_step)
qed simp

end
