(* ===== verification/TimeFmt.thy ===== *)
theory TimeFmt
  imports Decimal
begin

text \<open>
  \<open>UserInterface/UserInterface.cpp\<close>: \<open>FmtViaOSS\<close> and \<open>FormatTime\<close>, the text of a
  time in milliseconds.

  Times are numbers below \<open>2 ^ 64\<close> (\<open>uint64_t\<close>); \<open>w\<close> is the width of
  \<open>faststUint\<close>, to which the seconds and the minutes are converted. The text is
  read back by \<open>read_units\<close> with the values of the units in \<open>time_unit\<close>.
\<close>

definition timeSecsPerDay :: nat where "timeSecsPerDay = 86400"
definition timeSecsPerHour :: nat where "timeSecsPerHour = 3600"

text \<open>One part of the text: the number and its unit, if the number is not 0.\<close>

definition time_part :: "nat \<Rightarrow> string \<Rightarrow> string" where
  "time_part n u = (if 0 < n then dec n @ u else [])"

definition FmtViaOSS :: "nat \<Rightarrow> nat \<Rightarrow> string" where
  "FmtViaOSS w ms =
     (if ms \<noteq> 0 then
        let timeInSecs = (ms div 1000) mod 2 ^ w;
            numberOfDays = timeInSecs div timeSecsPerDay;
            rest1 = (if 0 < numberOfDays then ms - numberOfDays * (timeSecsPerDay * 1000) else ms);
            timeInSecsMinusDays = timeInSecs - numberOfDays * timeSecsPerDay;
            hours = timeInSecsMinusDays div timeSecsPerHour;
            rest2 = (if 0 < hours then rest1 - hours * timeSecsPerHour * 1000 else rest1);
            minutes = (rest2 div 60000) mod 2 ^ w;
            secs = timeInSecs mod 60;
            millis = ms mod 1000
        in time_part numberOfDays ''d'' @ time_part hours ''h'' @ time_part minutes ''min''
           @ time_part secs ''s'' @ time_part millis ''ms''
      else ''unknown'')"

definition FormatTime :: "nat \<Rightarrow> nat \<Rightarrow> string" where
  "FormatTime w ms = FmtViaOSS w ms"

text \<open>The value of a unit in milliseconds.\<close>

definition time_unit :: "string \<Rightarrow> nat" where
  "time_unit u = (if u = ''d'' then 86400000 else if u = ''h'' then 3600000
     else if u = ''min'' then 60000 else if u = ''s'' then 1000 else if u = ''ms'' then 1 else 0)"

text \<open>The parts of a time, and the list of those that are printed.\<close>

definition time_parts :: "nat \<Rightarrow> (nat \<times> string) list" where
  "time_parts ms = filter (\<lambda>(n, u). 0 < n)
     [(ms div 86400000, ''d''), (ms div 3600000 mod 24, ''h''), (ms div 60000 mod 60, ''min''),
      (ms div 1000 mod 60, ''s''), (ms mod 1000, ''ms'')]"

lemma mod_times_div: "0 < b \<Longrightarrow> a mod (b * c) div b = a div b mod (c :: nat)"
  by (simp add: mod_mult2_eq)

lemma hours_of_secs: "(s - s div 86400 * 86400) div 3600 = s div 3600 mod (24 :: nat)"
  using mod_times_div [of 3600 s 24] by (simp add: minus_div_mult_eq_mod)

lemma rest_after_hours:
  "ms - ms div 86400000 * 86400000 - ms div 3600000 mod 24 * 3600000 = ms mod (3600000 :: nat)"
proof -
  have "ms - ms div 86400000 * 86400000 = ms mod (3600000 * 24)"
    by (simp add: minus_div_mult_eq_mod)
  also have "\<dots> - ms div 3600000 mod 24 * 3600000 = ms mod 3600000"
    unfolding mod_mult2_eq by (simp only: mult.commute add_diff_cancel_left')
  finally show ?thesis .
qed

lemma minutes_of_rest: "ms mod 3600000 div 60000 = ms div 60000 mod (60 :: nat)"
  using mod_times_div [of 60000 ms 60] by simp

lemma units_text_filter:
  "time_part a ''d'' @ time_part b ''h'' @ time_part c ''min'' @ time_part d ''s'' @ time_part e ''ms''
    = units_text (filter (\<lambda>(n, u). 0 < n)
        [(a, ''d''), (b, ''h''), (c, ''min''), (d, ''s''), (e, ''ms'')])"
  by (simp add: time_part_def)

lemma FmtViaOSS_parts:
  assumes "0 < ms" "ms div 1000 < 2 ^ w"
  shows "FmtViaOSS w ms = units_text (time_parts ms)"
proof -
  define s where "s = ms div 1000"
  have s: "s mod 2 ^ w = s" using assms(2) by (simp add: s_def)
  have d: "s div 86400 = ms div 86400000" "s div 3600 mod 24 = ms div 3600000 mod 24"
    by (simp_all add: s_def div_mult2_eq [symmetric])
  have "ms div 60000 mod 60 \<le> ms div 60000" by simp
  also have "\<dots> \<le> ms div 1000" by (rule div_le_mono2) simp_all
  finally have m: "(ms div 60000 mod 60) mod 2 ^ w = ms div 60000 mod 60" using assms(2) by simp
  have if_sub: "(if 0 < n then a - n * k else a) = a - n * k"
    "(if 0 < n then a - n * k * j else a) = a - n * (k * j)" for a n k j :: nat
    by (simp_all add: mult.assoc)
  have num: "86400 * 1000 = (86400000 :: nat)" "3600 * 1000 = (3600000 :: nat)" by simp_all
  have "FmtViaOSS w ms = time_part (s div 86400) ''d'' @ time_part (s div 3600 mod 24) ''h''
      @ time_part ((ms - s div 86400 * 86400000 - (s div 3600 mod 24) * 3600000) div 60000 mod 2 ^ w) ''min''
      @ time_part (s mod 60) ''s'' @ time_part (ms mod 1000) ''ms''"
    unfolding FmtViaOSS_def Let_def timeSecsPerDay_def timeSecsPerHour_def s_def [symmetric] s
      if_sub num hours_of_secs by (rule if_P) (rule gr_implies_not0 [OF assms(1)])
  also have "\<dots> = units_text (time_parts ms)"
    unfolding d rest_after_hours minutes_of_rest m time_parts_def s_def [symmetric]
    by (rule units_text_filter)
  finally show ?thesis .
qed

lemma time_parts_value: "(\<Sum>(n, u)\<leftarrow>time_parts ms. n * time_unit u) = ms"
proof -
  have e: "ms mod 86400000 = 3600000 * (ms div 3600000 mod 24) + ms mod 3600000"
    "ms mod 3600000 = 60000 * (ms div 60000 mod 60) + ms mod 60000"
    "ms mod 60000 = 1000 * (ms div 1000 mod 60) + ms mod 1000"
    using mod_mult2_eq [of ms 3600000 24] mod_mult2_eq [of ms 60000 60] mod_mult2_eq [of ms 1000 60]
    by (simp_all only: mult_numeral_1 numeral_times_numeral num.simps semiring_norm)
  have "(\<Sum>(n, u)\<leftarrow>filter (\<lambda>(n, u). 0 < n) ps. n * time_unit u)
      = (\<Sum>(n, u)\<leftarrow>ps. n * time_unit u)" for ps
    by (induction ps) auto
  moreover have "(\<Sum>(n, u)\<leftarrow>[(a, ''d''), (b, ''h''), (c, ''min''), (d, ''s''), (e, ''ms'')]. n * time_unit u)
      = a * 86400000 + (3600000 * b + (60000 * c + (1000 * d + e)))" for a b c d e
    by (simp add: time_unit_def)
  ultimately have "(\<Sum>(n, u)\<leftarrow>time_parts ms. n * time_unit u)
      = ms div 86400000 * 86400000 + ms mod 86400000"
    by (simp only: time_parts_def e)
  then show ?thesis by (simp only: div_mult_mod_eq)
qed

lemma time_parts_units:
  "\<forall>(n, u)\<in>set (time_parts ms). 0 < n \<and> u \<noteq> [] \<and> (\<forall>c\<in>set u. \<not> is_digit c)"
proof -
  have "\<forall>(n, u)\<in>set (filter (\<lambda>(n, u). 0 < n)
      [(a, ''d''), (b, ''h''), (c, ''min''), (d, ''s''), (e, ''ms'')]).
      0 < n \<and> u \<noteq> [] \<and> (\<forall>c\<in>set u. \<not> is_digit c)" for a b c d e :: nat
    by (auto simp: is_digit_def)
  then show ?thesis unfolding time_parts_def .
qed

text \<open>
  C23: The text of a time that is not 0 says exactly this time: reading back its
  days, hours, minutes, seconds and milliseconds gives the number of
  milliseconds, and no part that is 0 is printed. This needs the number of
  seconds to fit into \<open>faststUint\<close>.
\<close>

theorem time_text_roundtrip:
  assumes "0 < ms" "ms div 1000 < 2 ^ w"
  shows "read_units time_unit (FormatTime w ms) = ms
    \<and> FormatTime w ms = units_text (time_parts ms)
    \<and> (\<forall>(n, u)\<in>set (time_parts ms). 0 < n)"
proof -
  have "read_units time_unit (units_text (time_parts ms)) = ms"
    using time_parts_units [of ms] by (subst read_units_text) (auto simp: time_parts_value)
  then show ?thesis
    using FmtViaOSS_parts [OF assms] time_parts_units [of ms] by (auto simp: FormatTime_def)
qed

theorem time_text_roundtrip_witness:
  "read_units time_unit (FormatTime 32 43441200007) = 43441200007"
  by (rule time_text_roundtrip [THEN conjunct1]) simp_all

end
