(* ===== verification/Formatter.thy ===== *)
theory Formatter
  imports Rater TimeFmt "HOL-Library.Monad_Syntax"
begin

unbundle bit_operations_syntax

text \<open>
  \<open>SMARTvalueFormatter.hpp\<close> and \<open>SMARTvalueFormatter.cpp\<close>: the texts of raw
  values, in the build with arbitrary precision values.

  Three functions of the common source repository are parameters, collected in
  the record \<open>fmt_ext\<close>: the choice of an SI prefix, and the two readers of
  temperatures. Texts are the bytes of the UTF-8 source files.
\<close>

record fmt_ext =
  GetMectricPrefixSymbolAndRemainder :: "int \<Rightarrow> int \<Rightarrow> char \<times> int \<times> int"
  GetDegCfromCurrMinMax :: "nat \<Rightarrow> nat \<times> nat \<times> nat"
  getCurrTemp :: "int \<Rightarrow> int"
  GetTempInDegC :: "nat \<Rightarrow> int"

definition degC :: string where "degC = [CHR 0xC2, CHR 0xB0, CHR ''C'']"

text \<open>\<open>getDataPtr\<close>: the lowest 64 bits of the magnitude of an arbitrary precision number.\<close>

definition data64 :: "int \<Rightarrow> nat" where
  "data64 v = nat \<bar>v\<bar> mod 2 ^ 64"

definition timeMilliSecsPerHour :: int where "timeMilliSecsPerHour = 3600000"

section \<open>Numbers with SI prefixes\<close>

text \<open>The \<open>do ... while\<close> loop; its end is up to the prefix function.\<close>

partial_function (option) si_loop :: "(int \<Rightarrow> int \<Rightarrow> char \<times> int \<times> int) \<Rightarrow> int \<Rightarrow> int \<Rightarrow> string \<Rightarrow> string option" where
  "si_loop gmp remainder factor acc =
     (case gmp remainder factor of (c, remainder', factor') \<Rightarrow>
        if c = CHR '' '' then Some (acc @ dec_int factor')
        else si_loop gmp remainder' factor' (acc @ dec_int factor' @ [c]))"

definition GetNumberWithSIprefix :: "fmt_ext \<Rightarrow> int \<Rightarrow> string option" where
  "GetNumberWithSIprefix e v = si_loop (GetMectricPrefixSymbolAndRemainder e) v v []"

definition FmtTotalDataRdWr :: "fmt_ext \<Rightarrow> int \<Rightarrow> bool \<Rightarrow> string option" where
  "FmtTotalDataRdWr e v unitKnown =
     map_option (\<lambda>s. if unitKnown then s @ ''B'' else s) (GetNumberWithSIprefix e v)"

section \<open>Temperatures and times\<close>

definition FmtDegC_forCurrAndMinAndMax :: "fmt_ext \<Rightarrow> nat \<Rightarrow> string" where
  "FmtDegC_forCurrAndMinAndMax e raw =
     (case GetDegCfromCurrMinMax e raw of (minT, maxT, curT) \<Rightarrow>
        dec curT @ degC @
        (if minT \<noteq> 0 \<and> maxT \<noteq> 0
         then ''['' @ dec minT @ degC @ ''...'' @ dec maxT @ degC @ '']'' else []))"

definition GetDegCfromCurr :: "64 word \<Rightarrow> string" where
  "GetDegCfromCurr raw = dec (unat (raw AND 0xFFFF)) @ degC"

definition TempDiffOrAirflowTemp_DegCforCurrMinMax :: "64 word \<Rightarrow> string" where
  "TempDiffOrAirflowTemp_DegCforCurrMinMax raw =
     (let maxVal = drop_bit 24 raw AND 0xFF; minVal = drop_bit 16 raw AND 0xFF
      in dec (unat (raw AND 0xFF)) @ degC @
         (if minVal \<noteq> 0 \<and> maxVal \<noteq> 0
          then ''['' @ dec (unat minVal) @ degC @ ''...'' @ dec (unat maxVal) @ degC @ '']'' else []))"

definition GetTimeFrom_h :: "nat \<Rightarrow> string" where
  "GetTimeFrom_h raw = dec (raw div 24) @ ''d'' @ dec (raw mod 24) @ ''h''"

text \<open>\<open>std::fixed\<close> with one digit after the point.\<close>

definition fixed1 :: "rat \<Rightarrow> string" where
  "fixed1 x = (let n = rne (\<bar>x\<bar> * 10) in (if x < 0 then ''-'' else []) @ dec (nat (n div 10))
     @ ''.'' @ dec (nat (n mod 10)))"

definition GetDegCfrom_mK :: "64 word \<Rightarrow> string" where
  "GetDegCfrom_mK raw = fixed1 (f32 (f32 (f32 (of_int (uint raw)) / 1000) - f32 (2731 / 10))) @ degC"

text \<open>The remainder printed with the unit ``min'' is the raw value modulo 60000 milliseconds.\<close>

definition GetTimeFrom_ms :: "64 word \<Rightarrow> string" where
  "GetTimeFrom_ms raw =
     (let hours = f32 (f32 (of_int (uint raw)) / 3600000);
          minRemainder = unat raw mod 60000;
          numDays = nat \<lfloor>f32 (hours / 24)\<rfloor>;
          hoursRemainder = f32 (hours - f32 (of_nat (numDays * 24)))
      in dec numDays @ ''d'' @ fixed1 hoursRemainder @ ''h'' @ dec minRemainder @ ''min'')"

section \<open>(S)ATA values\<close>

definition ATA_FmtHumanReadable :: "fmt_ext \<Rightarrow> ata_ids \<Rightarrow> nat \<Rightarrow> attr_id \<Rightarrow> int \<Rightarrow> bool \<Rightarrow> string option" where
  "ATA_FmtHumanReadable e A w i v unitKnown =
     (if i = PowerOnTime A \<or> i = HeadFlyingHours A then Some (FormatTime w (data64 v))
      else if i = TempDiffOrAirflowTemp A
      then Some (TempDiffOrAirflowTemp_DegCforCurrMinMax (of_nat (data64 v)))
      else if i = DevTemp A then Some (FmtDegC_forCurrAndMinAndMax e (data64 v))
      else if i = TotalDataWritten A \<or> i = TotalDataRead A then FmtTotalDataRdWr e v unitKnown
      else GetNumberWithSIprefix e (int (data64 v)))"

definition ATA_fmtRawVal :: "ata_ids \<Rightarrow> attr_id \<Rightarrow> nat \<Rightarrow> string" where
  "ATA_fmtRawVal A i v =
     (if i \<in> set [GiB_Erased A, TempDiffOrAirflowTemp A, DevTemp A, HW_ECC_Recovered A,
         AvgEraseCntAndMaxEraseCnt A, HeadFlyingHours A]
      then hex_upper v @ ''h'' else dec v)"

text \<open>
  \<open>useDefaultUnit\<close> gives the unit, the number for the human readable format and
  the real value; None is a real value the function leaves as it was.
\<close>

definition countIDs :: "ata_ids \<Rightarrow> attr_id list" where
  "countIDs A = [StrtStpCnt A, ReallocSectorsCnt A, SpinUpRetryCnt A,
     RecalibRetriesOrCalibrRetryCnt A, PwrCycleCnt A, ReallocEvtCnt A, CurrPendSecCnt A,
     UncorrSecCnt A, UDMA_CRCerrorCnt A, FreeFallEvtCnt A, MultiZoneErrorRate A,
     SoftReadErrorRateOrTACnterDetected A]"

definition ATA_useDefaultUnit :: "fmt_ext \<Rightarrow> ata_ids \<Rightarrow> attr_id \<Rightarrow> int \<Rightarrow> string \<times> int \<times> int option" where
  "ATA_useDefaultUnit e A i v =
     (if i = DevTemp A
      then ([CHR 0xEF, CHR 0xBF, CHR 0xBD] @ ''C?'', v, Some (getCurrTemp e v))
      else if i = PowerOnTime A then (''~h?'', v * timeMilliSecsPerHour, None)
      else if i = HeadFlyingHours A then (''~h?'', (v AND 0xFFFFFF) * timeMilliSecsPerHour, None)
      else if i = SpinUpTime A then (''ms?'', v, None)
      else ((if i \<in> set (countIDs A) then ''#?''
             else if i = TotalDataWritten A \<or> i = TotalDataRead A then ''>=1sector?''
             else ''?''), v, Some v))"

section \<open>NVMe values\<close>

definition NVMe_fmtRawVal :: "nat \<Rightarrow> string" where
  "NVMe_fmtRawVal v = dec v"

definition NVMe_useDefaultUnit :: "fmt_ext \<Rightarrow> nvme_ids \<Rightarrow> attr_id \<Rightarrow> int \<Rightarrow> string \<times> int \<times> int option" where
  "NVMe_useDefaultUnit e nv i v =
     (if i = CompositeTemperature nv then (''K'', v, Some (GetTempInDegC e (data64 v)))
      else if i = PowerOnHours nv then (''~h?'', v * timeMilliSecsPerHour, None)
      else if i = ControllerBusyTime nv then (''s?'', v, None)
      else if i \<in> {AvailableSpare nv, AvailableSpareThreshold nv, PercentageUsed nv}
      then (''%?'', v, Some v)
      else if i = NV_TotalDataWritten nv \<or> i = NV_TotalDataRead nv
      then (''512000B?'', v * 512000, Some v)
      else if i \<in> {HostReadCmds nv, HostWriteCmds nv, PowerCycle nv, UnsafeShutdowns nv,
             MediaErrors nv, ErrorInfoLogEntryCount nv}
      then (''#?'', v, Some v)
      else (''?'', v, Some v))"

definition NVMe_FmtHumanReadable :: "fmt_ext \<Rightarrow> nvme_ids \<Rightarrow> nat \<Rightarrow> attr_id \<Rightarrow> int \<Rightarrow> string option" where
  "NVMe_FmtHumanReadable e nv w i v =
     (if i = CompositeTemperature nv
      then Some (dec_int (GetTempInDegC e (data64 v)) @ '' '' @ degC)
      else if i = PowerOnHours nv then Some (FormatTime w (data64 v))
      else if i = NV_TotalDataWritten nv \<or> i = NV_TotalDataRead nv then FmtTotalDataRdWr e v True
      else GetNumberWithSIprefix e v)"

definition FmtHumanReadable :: "fmt_ext \<Rightarrow> ata_ids \<Rightarrow> nvme_ids \<Rightarrow> nat \<Rightarrow> SMARTuniqueID \<Rightarrow> attr_id
    \<Rightarrow> int \<Rightarrow> bool \<Rightarrow> string option" where
  "FmtHumanReadable e A nv w u i v unitKnown =
     (case busType u of
        NVMe \<Rightarrow> NVMe_FmtHumanReadable e nv w i v
      | _ \<Rightarrow> ATA_FmtHumanReadable e A w i v unitKnown)"

section \<open>What the prefix function is relied on for\<close>

text \<open>
  The prefix function splits off the groups of three digits above the prefix it
  returns; a space stands for no prefix and is returned for a number below 1000.
  The letters are those of \<open>unitPrefixes\<close> in \<open>SMARTvalueFormatter.cpp\<close>.
\<close>

definition unitPrefixes :: string where "unitPrefixes = '' kMGTPE''"

definition si_prefix_spec :: "(int \<Rightarrow> int \<Rightarrow> char \<times> int \<times> int) \<Rightarrow> bool" where
  "si_prefix_spec gmp =
     (\<forall>n f. 0 \<le> n \<longrightarrow>
        (n < 1000 \<and> fst (gmp n f) = CHR '' '' \<and> snd (snd (gmp n f)) = n) \<or>
        (\<exists>k. 1 \<le> k \<and> k \<le> 6 \<and> 1000 ^ k \<le> n \<and>
           gmp n f = (unitPrefixes ! k, n mod 1000 ^ k, n div 1000 ^ k)))"

definition si_unit :: "string \<Rightarrow> nat" where
  "si_unit u = (if u = '' '' then 1 else if u = ''k'' then 1000 ^ 1 else if u = ''M'' then 1000 ^ 2
     else if u = ''G'' then 1000 ^ 3 else if u = ''T'' then 1000 ^ 4
     else if u = ''P'' then 1000 ^ 5 else if u = ''E'' then 1000 ^ 6 else 0)"

lemma unitPrefixes_nth:
  assumes "1 \<le> k" "k \<le> 6"
  shows "si_unit [unitPrefixes ! k] = 1000 ^ k" "\<not> is_digit (unitPrefixes ! k)"
    "unitPrefixes ! k \<noteq> CHR '' ''"
proof -
  consider "k = 1" | "k = 2" | "k = 3" | "k = 4" | "k = 5" | "k = 6" using assms by linarith
  then show "si_unit [unitPrefixes ! k] = 1000 ^ k" "\<not> is_digit (unitPrefixes ! k)"
    "unitPrefixes ! k \<noteq> CHR '' ''"
    by (cases; simp add: unitPrefixes_def si_unit_def is_digit_def)+
qed

lemma si_unit_space: "si_unit '' '' = 1" "\<not> is_digit (CHR '' '')"
  by (simp_all add: si_unit_def is_digit_def)

lemma dec_int_nonneg: "0 \<le> i \<Longrightarrow> dec_int i = dec (nat i)"
  by (simp add: dec_int_def)

text \<open>The loop ends and its text, appended to what was there, is that of a list of parts.\<close>

lemma si_loop_parts:
  assumes "si_prefix_spec gmp" "0 \<le> n"
  shows "\<exists>ps. si_loop gmp n f acc = Some (acc @ units_text (butlast ps) @ dec (fst (last ps)))
    \<and> ps \<noteq> [] \<and> snd (last ps) = '' '' \<and> (\<forall>(k, u)\<in>set ps. u \<noteq> [] \<and> (\<forall>c\<in>set u. \<not> is_digit c))
    \<and> (\<Sum>(k, u)\<leftarrow>ps. k * si_unit u) = nat n"
  using assms(2)
proof (induction "nat n" arbitrary: n f acc rule: less_induct)
  case less
  obtain c r q where g: "gmp n f = (c, r, q)" by (metis prod_cases3)
  have "(n < 1000 \<and> fst (gmp n f) = CHR '' '' \<and> snd (snd (gmp n f)) = n) \<or>
      (\<exists>k. 1 \<le> k \<and> k \<le> 6 \<and> 1000 ^ k \<le> n \<and>
         gmp n f = (unitPrefixes ! k, n mod 1000 ^ k, n div 1000 ^ k))"
    using assms(1) less.prems unfolding si_prefix_spec_def by blast
  then consider "c = CHR '' ''" "q = n"
    | k where "1 \<le> k" "k \<le> 6" "1000 ^ k \<le> n" "c = unitPrefixes ! k" "r = n mod 1000 ^ k" "q = n div 1000 ^ k"
    unfolding g fst_conv snd_conv prod.inject by blast
  then show ?case
  proof cases
    case 1
    have "si_loop gmp n f acc = Some (acc @ dec (nat n))"
      using less.prems by (subst si_loop.simps) (simp add: g 1 dec_int_nonneg)
    then show ?thesis
      by (intro exI [of _ "[(nat n, '' '')]"]) (simp add: si_unit_space)
  next
    case 2
    note u = unitPrefixes_nth [OF 2(1,2), folded 2(4)]
    have p: "(0 :: int) < 1000 ^ k" by simp
    have r0: "0 \<le> r" using p by (simp add: 2(5))
    have "r < 1000 ^ k" using p by (simp add: 2(5))
    then have "nat r < nat n" using 2(3) r0 by linarith
    then obtain ps where ps: "si_loop gmp r q (acc @ dec_int q @ [c])
        = Some ((acc @ dec_int q @ [c]) @ units_text (butlast ps) @ dec (fst (last ps)))"
      "ps \<noteq> []" "snd (last ps) = '' ''" "\<forall>(k, u)\<in>set ps. u \<noteq> [] \<and> (\<forall>c\<in>set u. \<not> is_digit c)"
      "(\<Sum>(k, u)\<leftarrow>ps. k * si_unit u) = nat r"
      using less.hyps [of r q "acc @ dec_int q @ [c]"] r0 by blast
    have q0: "0 \<le> q" using less.prems by (simp add: 2(6) pos_imp_zdiv_nonneg_iff)
    have "n = q * 1000 ^ k + r" unfolding 2(5,6) by (rule div_mult_mod_eq [symmetric])
    then have "nat n = nat q * 1000 ^ k + nat r"
      using q0 r0 by (simp add: nat_add_distrib nat_mult_distrib nat_power_eq)
    moreover have "si_loop gmp n f acc = si_loop gmp r q (acc @ dec_int q @ [c])"
      using u(3) by (subst si_loop.simps) (simp add: g)
    ultimately show ?thesis
      using ps u q0 by (intro exI [of _ "(nat q, [c]) # ps"]) (simp add: dec_int_nonneg)
  qed
qed

lemma units_text_append: "units_text (ps @ qs) = units_text ps @ units_text qs"
  by (simp add: units_text_def)

text \<open>
  With a prefix function that does what is relied on, the loop of \<open>GetNumberWithSIprefix\<close>
  ends for every number that is not negative, and the text says this number:
  the groups with their prefixes, and the last group with none, add up to it.
\<close>

theorem number_text_roundtrip:
  assumes "si_prefix_spec (GetMectricPrefixSymbolAndRemainder e)" "0 \<le> n"
  shows "\<exists>s. GetNumberWithSIprefix e n = Some s \<and> read_units si_unit (s @ '' '') = nat n"
proof -
  obtain ps where ps: "GetNumberWithSIprefix e n = Some (units_text (butlast ps) @ dec (fst (last ps)))"
      "ps \<noteq> []" "snd (last ps) = '' ''" "\<forall>(k, u)\<in>set ps. u \<noteq> [] \<and> (\<forall>c\<in>set u. \<not> is_digit c)"
      "(\<Sum>(k, u)\<leftarrow>ps. k * si_unit u) = nat n"
    using si_loop_parts [OF assms, of n "[]"] by (auto simp: GetNumberWithSIprefix_def)
  have "ps = butlast ps @ [(fst (last ps), '' '')]"
    using ps(2,3) by (metis append_butlast_last_id prod.collapse)
  then have "units_text ps = (units_text (butlast ps) @ dec (fst (last ps))) @ '' ''"
    by (metis append.assoc append_Nil2 units_text_append units_text_simps)
  then show ?thesis using ps read_units_text [OF ps(4), of si_unit] by simp
qed

text \<open>A prefix function that does what is relied on, for the witnesses.\<close>

fun pick_prefix :: "nat \<Rightarrow> int \<Rightarrow> char \<times> int \<times> int" where
  "pick_prefix 0 n = (CHR '' '', 0, n)"
| "pick_prefix (Suc k) n =
     (if 1000 ^ Suc k \<le> n then (unitPrefixes ! Suc k, n mod 1000 ^ Suc k, n div 1000 ^ Suc k)
      else pick_prefix k n)"

definition std_prefix :: "int \<Rightarrow> int \<Rightarrow> char \<times> int \<times> int" where
  "std_prefix n f = pick_prefix 6 n"

lemma pick_prefix_cases:
  "(pick_prefix k n = (CHR '' '', 0, n) \<and> (k = 0 \<or> n < 1000)) \<or>
    (\<exists>j. 1 \<le> j \<and> j \<le> k \<and> 1000 ^ j \<le> n \<and>
       pick_prefix k n = (unitPrefixes ! j, n mod 1000 ^ j, n div 1000 ^ j))"
proof (induction k)
  case (Suc k)
  show ?case
  proof (cases "1000 ^ Suc k \<le> n")
    case True
    then show ?thesis by (intro disjI2 exI [of _ "Suc k"]) simp
  next
    case False
    then have e: "pick_prefix (Suc k) n = pick_prefix k n" by simp
    from Suc.IH show ?thesis
    proof (elim disjE exE)
      fix j assume "1 \<le> j \<and> j \<le> k \<and> 1000 ^ j \<le> n \<and>
        pick_prefix k n = (unitPrefixes ! j, n mod 1000 ^ j, n div 1000 ^ j)"
      then show ?thesis unfolding e by (intro disjI2 exI [of _ j]) simp
    next
      assume "pick_prefix k n = (CHR '' '', 0, n) \<and> (k = 0 \<or> n < 1000)"
      then show ?thesis unfolding e using False by (cases k) auto
    qed
  qed
qed simp

lemma std_prefix_spec: "si_prefix_spec std_prefix"
  unfolding si_prefix_spec_def std_prefix_def
proof (intro allI impI)
  fix n f :: int
  show "(n < 1000 \<and> fst (pick_prefix 6 n) = CHR '' '' \<and> snd (snd (pick_prefix 6 n)) = n) \<or>
      (\<exists>k. 1 \<le> k \<and> k \<le> 6 \<and> 1000 ^ k \<le> n \<and>
        pick_prefix 6 n = (unitPrefixes ! k, n mod 1000 ^ k, n div 1000 ^ k))"
    using pick_prefix_cases [of 6 n] by (elim disjE) (intro disjI1, simp, intro disjI2, assumption)
qed

definition std_ext :: fmt_ext where
  "std_ext = \<lparr>GetMectricPrefixSymbolAndRemainder = std_prefix,
     GetDegCfromCurrMinMax = (\<lambda>raw. (raw div 65536 mod 256, raw div 16777216 mod 256, raw mod 256)),
     getCurrTemp = (\<lambda>v. v mod 256), GetTempInDegC = (\<lambda>k. int k - 273)\<rparr>"

theorem number_text_roundtrip_witness:
  "\<exists>s. GetNumberWithSIprefix std_ext 42861394142 = Some s \<and> read_units si_unit (s @ '' '') = nat 42861394142"
  by (rule number_text_roundtrip) (simp_all add: std_ext_def std_prefix_spec)

text \<open>
  The default unit leaves the real value, by which an attribute is rated and
  shown, unset for exactly the attributes that count time: the power-on time,
  the head flying hours and the spin-up time of (S)ATA, and the power-on hours
  and the controller busy time of NVMe.
\<close>

theorem default_unit_real_value_unset:
  assumes "DevTemp A \<notin> {PowerOnTime A, HeadFlyingHours A, SpinUpTime A}"
    and "CompositeTemperature nv \<notin> {PowerOnHours nv, ControllerBusyTime nv}"
  shows "(snd (snd (ATA_useDefaultUnit e A i v)) = None
      \<longleftrightarrow> i \<in> {PowerOnTime A, HeadFlyingHours A, SpinUpTime A})
    \<and> (snd (snd (NVMe_useDefaultUnit e nv j v)) = None
      \<longleftrightarrow> j \<in> {PowerOnHours nv, ControllerBusyTime nv})"
  using assms by (auto simp: ATA_useDefaultUnit_def NVMe_useDefaultUnit_def)

theorem default_unit_real_value_unset_witness:
  "snd (snd (ATA_useDefaultUnit std_ext std_ata 9 12067)) = None
    \<and> snd (snd (NVMe_useDefaultUnit std_ext std_nvme 7 3)) = Some 3"
  using default_unit_real_value_unset [of std_ata std_nvme std_ext 9 12067 7]
  by (simp add: std_ata_def std_nvme_def NVMe_useDefaultUnit_def)

end
