(* ===== verification/RealValue.thy ===== *)
theory RealValue
  imports Formatter
begin

text \<open>
  \<open>getRealValue\<close> of \<open>client/SMARTmonitorClient.cpp\<close>: the real value of an
  attribute from its raw value and the text of its unit.

  The loop over the characters of the unit is a fold over its state: the number
  read so far (64 bits, wrapping), whether the last character was a digit, the
  error flag, the sum. Characters are \<open>signed char\<close>: -62 and -80 are the bytes
  C2 and B0 of the degree sign.
\<close>

record real_state =
  currNum :: "64 word"
  isNumber :: bool
  rv_error :: bool
  realVal :: int

definition real_init :: real_state where
  "real_init = \<lparr>currNum = 0, isNumber = False, rv_error = False, realVal = 0\<rparr>"

definition digit_step :: "char \<Rightarrow> real_state \<Rightarrow> real_state" where
  "digit_step ch s =
     (let n = (if isNumber s then currNum s * 10 else 0)
      in s\<lparr>isNumber := True, currNum := n + of_nat (digit_val ch)\<rparr>)"

definition unit_step :: "int \<Rightarrow> nat \<Rightarrow> char \<Rightarrow> real_state \<Rightarrow> real_state" where
  "unit_step raw idx ch s =
     (let s1 = s\<lparr>isNumber := False\<rparr>;
          s2 = (if ch = CHR ''B'' then s1
            else if ch = CHR ''G'' then s1\<lparr>currNum := currNum s1 * 1000000000\<rparr>
            else if ch = CHR ''h'' then s1\<lparr>currNum := currNum s1 * 3600000\<rparr>
            else if ch = CHR ''s'' then s1\<lparr>currNum := currNum s1 * 1000\<rparr>
            else if ch = CHR 0xC2 then (if idx \<noteq> 0 then s1\<lparr>rv_error := True\<rparr> else s1)
            else if ch = CHR 0xB0 then (if idx \<noteq> 1 then s1\<lparr>rv_error := True\<rparr> else s1)
            else if ch = CHR ''C''
            then (if idx \<noteq> 2 then s1\<lparr>rv_error := True\<rparr> else s1\<lparr>currNum := 1\<rparr>)
            else s1\<lparr>rv_error := True\<rparr>)
      in s2\<lparr>realVal := realVal s2 + raw * uint (currNum s2)\<rparr>)"

definition real_step :: "int \<Rightarrow> nat \<times> char \<Rightarrow> real_state \<Rightarrow> real_state" where
  "real_step raw p s =
     (if is_digit (snd p) then digit_step (snd p) s else unit_step raw (fst p) (snd p) s)"

definition getRealValue :: "string \<Rightarrow> int \<Rightarrow> bool \<times> int" where
  "getRealValue unit raw =
     (let s = fold (real_step raw) (enumerate 0 unit) real_init in (rv_error s, realVal s))"

section \<open>Properties\<close>

lemma digits_fold:
  assumes "\<forall>c\<in>set ds. is_digit c"
  shows "fold (real_step raw) (enumerate i ds) s =
    (if ds = [] then s
     else s\<lparr>isNumber := True, currNum := (if isNumber s then currNum s else 0) * 10 ^ length ds
            + of_nat (undec ds)\<rparr>)"
  using assms
proof (induction ds rule: rev_induct)
  case (snoc c ds)
  then show ?case
    by (cases "ds = []")
      (simp_all add: enumerate_append_eq real_step_def digit_step_def undec_snoc undec_def
        algebra_simps)
qed simp

lemma dec_fold:
  "fold (real_step raw) (enumerate 0 (dec n)) real_init =
    real_init\<lparr>isNumber := True, currNum := of_nat n\<rparr>"
  by (subst digits_fold) (simp_all add: real_init_def)

text \<open>The factor of a unit letter.\<close>

definition letter_factor :: "char \<Rightarrow> nat" where
  "letter_factor c = (if c = CHR ''h'' then 3600000 else if c = CHR ''s'' then 1000
     else if c = CHR ''G'' then 1000000000 else 1)"

lemma unit_letter_step:
  assumes "c \<in> {CHR ''B'', CHR ''h'', CHR ''s'', CHR ''G''}"
  shows "real_step raw (i, c) s = s\<lparr>isNumber := False, currNum := currNum s * of_nat (letter_factor c),
    realVal := realVal s + raw * uint (currNum s * of_nat (letter_factor c))\<rparr>"
  using assms
  by (elim insertE emptyE; simp add: real_step_def unit_step_def is_digit_def letter_factor_def)

text \<open>
  For a unit text that is a decimal number and one of the letters B, h, s or
  G, the real value is the raw value times the number times the factor of the
  letter, as long as the product of number and factor fits into 64 bits. The
  bytes \<open>C2 B0 43\<close> (degrees Celsius in UTF-8) gives the raw value itself.
  Neither is an error.
\<close>

theorem real_value_of_unit:
  assumes "c \<in> {CHR ''B'', CHR ''h'', CHR ''s'', CHR ''G''}"
    and "n * letter_factor c < 2 ^ 64"
  shows "getRealValue (dec n @ [c]) raw = (False, raw * int (n * letter_factor c))
    \<and> getRealValue degC raw = (False, raw)"
proof -
  have "of_nat n * of_nat (letter_factor c) = (of_nat (n * letter_factor c) :: 64 word)" by simp
  moreover have "uint (of_nat (n * letter_factor c) :: 64 word) = int (n * letter_factor c)"
    using assms(2) by (simp only: uint_nat unat_of_nat_small)
  ultimately have "getRealValue (dec n @ [c]) raw = (False, raw * int (n * letter_factor c))"
    using unit_letter_step [OF assms(1)]
    by (simp add: getRealValue_def Let_def enumerate_append_eq dec_fold)
      (simp add: real_init_def)
  moreover have "getRealValue degC raw = (False, raw)" by (code_simp, simp)
  ultimately show ?thesis by blast
qed

theorem real_value_of_unit_witness: "getRealValue ''512B'' 3 = (False, 1536)"
proof -
  have "dec 512 @ [CHR ''B''] = ''512B''" by code_simp
  then show ?thesis
    using real_value_of_unit [THEN conjunct1, of "CHR ''B''" 512 3] by (simp add: letter_factor_def)
qed

text \<open>
  Every letter of a unit adds the product, not only the last one: for a
  number followed by \<open>GB\<close> the real value is twice the raw value times the number
  times \<open>10 ^ 9\<close>. Digits without a letter after them add nothing, and a letter
  the function does not know sets the error flag.
\<close>

theorem real_value_letters_add:
  assumes "n * 1000000000 < 2 ^ 64"
  shows "getRealValue (dec n @ ''GB'') raw = (False, 2 * (raw * int (n * 1000000000)))
    \<and> getRealValue (dec n) raw = (False, 0)
    \<and> fst (getRealValue (dec n @ ''x'') raw)"
proof -
  have "of_nat n * 1000000000 = (of_nat (n * 1000000000) :: 64 word)" by simp
  moreover have "uint (of_nat (n * 1000000000) :: 64 word) = int (n * 1000000000)"
    using assms by (simp only: uint_nat unat_of_nat_small)
  ultimately have "getRealValue (dec n @ ''GB'') raw = (False, 2 * (raw * int (n * 1000000000)))"
    by (simp add: getRealValue_def Let_def enumerate_append_eq dec_fold unit_letter_step
        letter_factor_def) (simp add: real_init_def)
  moreover have "getRealValue (dec n) raw = (False, 0)"
    by (simp add: getRealValue_def dec_fold) (simp add: real_init_def)
  moreover have "fst (getRealValue (dec n @ ''x'') raw)"
    by (simp add: getRealValue_def Let_def enumerate_append_eq dec_fold)
      (simp add: real_step_def unit_step_def is_digit_def)
  ultimately show ?thesis by blast
qed

theorem real_value_letters_add_witness: "getRealValue ''1GB'' 1 = (False, 2000000000)"
proof -
  have "dec 1 @ ''GB'' = ''1GB''" by code_simp
  then show ?thesis using real_value_letters_add [of 1 1] by simp
qed

end
