(* ===== verification/AttrDefs.thy ===== *)
theory AttrDefs
  imports ModelFirmware
begin

text \<open>
  \<open>attributes/SMARTattrDef.hpp\<close>, \<open>attributes/SMARTattrDefAccss.hpp\<close> and the
  functions of \<open>SMARTmonitorBase.cpp\<close> that fill and read these tables: the
  names of the attributes, and what is known about a model of a data carrier.

  The two static arrays of definitions are functions of the attribute ID, in a
  record of their own; the set of models is the list a \<open>std::set\<close> keeps.
\<close>

record SMARTattrDef =
  criticalAttribute :: bool
  attributeID :: attr_id
  attributeName :: string

definition SMARTattrDef_0 :: SMARTattrDef where
  "SMARTattrDef_0 = \<lparr>criticalAttribute = False, attributeID = 0, attributeName = []\<rparr>"

text \<open>
  The constructor with a name leaves the flag indeterminate; its value is the
  argument \<open>crit\<close>.
\<close>

definition SMARTattrDef_new :: "bool \<Rightarrow> attr_id \<Rightarrow> string \<Rightarrow> SMARTattrDef" where
  "SMARTattrDef_new crit i name = \<lparr>criticalAttribute = crit, attributeID = i, attributeName = name\<rparr>"

record SMARTattrDefAccss =
  SMARTattrDefs :: "attr_id \<Rightarrow> SMARTattrDef"
  NVMeSMARTattrDefs :: "attr_id \<Rightarrow> SMARTattrDef"

definition defs_Add :: "SMARTattrDef \<Rightarrow> (attr_id \<Rightarrow> SMARTattrDef) \<Rightarrow> attr_id \<Rightarrow> SMARTattrDef" where
  "defs_Add d arr = arr(attributeID d := d)"

definition defs_Set :: "bool \<Rightarrow> attr_id \<Rightarrow> string \<Rightarrow> SMARTattrDefAccss \<Rightarrow> SMARTattrDefAccss" where
  "defs_Set crit i name s =
     s\<lparr>SMARTattrDefs := (SMARTattrDefs s)(i := SMARTattrDef_new crit i name)\<rparr>"

definition clearSMARTattrDefs :: "hw_sizes \<Rightarrow> SMARTattrDefAccss \<Rightarrow> SMARTattrDefAccss" where
  "clearSMARTattrDefs h s =
     s\<lparr>SMARTattrDefs := (\<lambda>i. if i < numMaxATAplus1 h
        then (SMARTattrDefs s i)\<lparr>attributeID := 0, attributeName := [], criticalAttribute := False\<rparr>
        else SMARTattrDefs s i)\<rparr>"

definition GetNumSMARTattrDefs :: "hw_sizes \<Rightarrow> SMARTattrDefAccss \<Rightarrow> nat" where
  "GetNumSMARTattrDefs h s =
     fold (\<lambda>i n. if attributeID (SMARTattrDefs s i) \<noteq> 0 then n + 1 else n) [0..<numMaxATAplus1 h] 0"

definition getSMARTattrDef :: "attr_id \<Rightarrow> (attr_id \<Rightarrow> SMARTattrDef) \<Rightarrow> SMARTattrDef" where
  "getSMARTattrDef i arr = arr i"

text \<open>
  The overload that copies the definition: \<open>return true\<close> is not part of the
  \<open>if\<close>, the pointer is never NULL.
\<close>

definition getSMARTattrDef_copy :: "attr_id \<Rightarrow> (attr_id \<Rightarrow> SMARTattrDef) \<Rightarrow> SMARTattrDef \<times> bool" where
  "getSMARTattrDef_copy i arr = (getSMARTattrDef i arr, True)"

definition attrDef_less :: "SMARTattrDef \<Rightarrow> SMARTattrDef \<Rightarrow> bool" where
  "attrDef_less l r = (attributeID l < attributeID r)"

interpretation attrDef: strict_weak_order attrDef_less
  by (rule strict_weak_order_key) (rule attrDef_less_def)

section \<open>The default names\<close>

definition dfltSMARTattrNames :: "(attr_id \<times> string) list" where
  "dfltSMARTattrNames =
    [(1, ''Read Error Rate''), (2, ''Throughput Performance''), (3, ''Spin-Up Time''),
     (4, ''Start/Stop Count''), (5, ''Reallocated Sectors Count''), (6, ''Read Channel Margin''),
     (7, ''Seek Error Rate''), (8, ''Seek Time Performances''), (9, ''Power-On Time''),
     (10, ''Spin Retry Count''), (11, ''Recalibration Retries or Calibration Retry Count''),
     (12, ''Power Cycle Count''), (100, ''Data Erased''), (168, ''SATA Physical Error Count''),
     (169, ''Bad Block Count''), (171, ''Program Fail Count''), (172, ''SSD Erase Fail Count''),
     (174, ''Unexpected Power Loss Count''), (175, ''Power Loss Protection Failure''),
     (176, ''Erase Fail Count''), (177, ''Wear Range Delta''),
     (178, ''Used Reserved Block Count (Chip)''), (179, ''Used Reserved Block Count Total''),
     (180, ''Unused Reserved Block Count Total''), (181, ''Program Fail Count''),
     (182, ''Erase Fail Count''), (183, ''Runtime Bad Blocks''), (184, ''End to End Error''),
     (187, ''Reported Uncorrectable Errors''), (188, ''Command Timeout''),
     (189, ''High Fly Writes''), (190, ''Temperature Difference or Airflow Temperature''),
     (191, ''G-sense Error Rate''), (192, ''Power-off/Emergency Retract Count''),
     (193, ''Load(/Unload) Cycle Count''), (194, ''Temperature Celsius''),
     (195, ''Hardware ECC Recovered''), (196, ''Reallocation Event Count''),
     (197, ''Current Pending Sector Count''), (198, ''Uncorrectable Sector Count''),
     (199, ''UltraDMA CRC Error Count''), (200, ''Multi-Zone Error Rate or Write Error Rate''),
     (201, ''Soft Read Error Rate or TA Counter Detected''), (204, ''Soft ECC Correction''),
     (212, ''Shock During Write''), (220, ''Disk Shift''), (223, ''Load/Unload Retry Count''),
     (234, ''Average erase count AND Maximum Erase Count''),
     (235, ''Good Block Count AND System(Free) Block Count''),
     (240, ''Head Flying Hours/Transfer Error Rate''), (241, ''Total Data Written''),
     (242, ''Total Data Read''), (250, ''Read Error Retry Rate''),
     (254, ''Free Fall Protection'')]"

definition setDfltSMARTattrDef :: "bool \<Rightarrow> SMARTattrDefAccss \<Rightarrow> SMARTattrDefAccss" where
  "setDfltSMARTattrDef crit s = fold (\<lambda>(i, name). defs_Set crit i name) dfltSMARTattrNames s"

section \<open>The models of data carriers\<close>

text \<open>
  The object looked up is constructed from the names of the drive; the contents
  of its arrays after the copied strings are indeterminate, the arguments
  \<open>m0\<close>.
\<close>

definition getDataCarrierAttrDefs :: "ModelAndFirmware \<Rightarrow> ModelAndFirmware list \<Rightarrow> SMARTuniqueID
    \<Rightarrow> ModelAndFirmware option" where
  "getDataCarrierAttrDefs m0 models u =
     set_find mf_less (mf_Set (modelName u) (firmWareName u) (m0\<lparr>maxTeraBytesWritten := 0\<rparr>)) models"

section \<open>Properties\<close>

lemma fold_defs_Set:
  "distinct (map fst ps) \<Longrightarrow>
    SMARTattrDefs (fold (\<lambda>(i, name). defs_Set crit i name) ps s) i =
      (case map_of ps i of None \<Rightarrow> SMARTattrDefs s i | Some name \<Rightarrow> SMARTattrDef_new crit i name)"
proof (induction ps arbitrary: s)
  case (Cons p ps)
  obtain j name where p: "p = (j, name)" by (cases p)
  have "map_of ps j = None" using Cons.prems by (simp add: p map_of_eq_None_iff)
  then show ?case using Cons by (auto simp: p defs_Set_def split: option.splits)
qed simp

lemma dfltSMARTattrNames_distinct: "distinct (map fst dfltSMARTattrNames)"
  by (simp add: dfltSMARTattrNames_def)

lemma count_fold:
  "fold (\<lambda>i n. if P i then n + 1 else n) xs n = n + length (filter P xs)"
  by (induction xs arbitrary: n) auto

lemma dflt_ids_range: "\<forall>i\<in>set (map fst dfltSMARTattrNames). 0 < i \<and> i < 255"
  by (simp add: dfltSMARTattrNames_def)

lemma length_filter_mem:
  assumes "distinct js" "set js \<subseteq> {0..<n}"
  shows "length (filter (\<lambda>i. i \<in> set js) [0..<n]) = length js"
proof -
  have "set (filter (\<lambda>i. i \<in> set js) [0..<n]) = set js" using assms(2) by auto
  moreover have "distinct (filter (\<lambda>i. i \<in> set js) [0..<n])" by simp
  ultimately show ?thesis using assms(1) by (metis distinct_card)
qed

text \<open>
  After the table is cleared and the default names are set, the 54 default
  attributes and no other ones are defined: the number of definitions is 54,
  each of them has its own name, every other entry has ID 0 and no name.
\<close>

theorem default_names_defined:
  assumes "255 \<le> numMaxATAplus1 h"
    and s': "s' = setDfltSMARTattrDef crit (clearSMARTattrDefs h s)"
  shows "GetNumSMARTattrDefs h s' = 54
    \<and> (\<forall>(i, name)\<in>set dfltSMARTattrNames.
         attributeID (getSMARTattrDef i (SMARTattrDefs s')) = i
         \<and> attributeName (getSMARTattrDef i (SMARTattrDefs s')) = name)
    \<and> (\<forall>i<numMaxATAplus1 h. i \<notin> set (map fst dfltSMARTattrNames)
         \<longrightarrow> getSMARTattrDef i (SMARTattrDefs s') = SMARTattrDef_0)"
proof -
  let ?ids = "map fst dfltSMARTattrNames" and ?n = "numMaxATAplus1 h"
  have look: "SMARTattrDefs s' i = (case map_of dfltSMARTattrNames i of
      None \<Rightarrow> SMARTattrDefs (clearSMARTattrDefs h s) i | Some name \<Rightarrow> SMARTattrDef_new crit i name)" for i
    unfolding s' setDfltSMARTattrDef_def by (rule fold_defs_Set [OF dfltSMARTattrNames_distinct])
  have none: "i \<notin> set ?ids \<longleftrightarrow> map_of dfltSMARTattrNames i = None" for i
    by (simp add: map_of_eq_None_iff)
  have cleared: "i < ?n \<Longrightarrow> SMARTattrDefs (clearSMARTattrDefs h s) i = SMARTattrDef_0" for i
    by (simp add: clearSMARTattrDefs_def SMARTattrDef_0_def)
  have other: "i \<notin> set ?ids \<Longrightarrow> i < ?n \<Longrightarrow> SMARTattrDefs s' i = SMARTattrDef_0" for i
    unfolding look none by (simp add: cleared)
  have named: "(i, name) \<in> set dfltSMARTattrNames \<Longrightarrow>
      SMARTattrDefs s' i = SMARTattrDef_new crit i name" for i name
    using map_of_is_SomeI [OF dfltSMARTattrNames_distinct] by (simp add: look)
  have defd: "i < ?n \<Longrightarrow> attributeID (SMARTattrDefs s' i) \<noteq> 0 \<longleftrightarrow> i \<in> set ?ids" for i
    using other [of i] named dflt_ids_range
    by (cases "i \<in> set ?ids") (fastforce simp: SMARTattrDef_0_def SMARTattrDef_new_def)+
  have "filter (\<lambda>i. attributeID (SMARTattrDefs s' i) \<noteq> 0) [0..<?n]
      = filter (\<lambda>i. i \<in> set ?ids) [0..<?n]"
    by (rule filter_cong [OF refl]) (use defd in auto)
  then have "GetNumSMARTattrDefs h s' = length (filter (\<lambda>i. i \<in> set ?ids) [0..<?n])"
    by (simp add: GetNumSMARTattrDefs_def count_fold)
  also have "\<dots> = length ?ids"
    by (rule length_filter_mem [OF dfltSMARTattrNames_distinct]) (use dflt_ids_range assms in force)
  also have "\<dots> = 54" by (simp add: dfltSMARTattrNames_def)
  finally show ?thesis
    using named other by (auto simp: getSMARTattrDef_def SMARTattrDef_new_def)
qed

definition defs_example :: SMARTattrDefAccss where
  "defs_example = \<lparr>SMARTattrDefs = (\<lambda>_. SMARTattrDef_new True 7 ''old''),
     NVMeSMARTattrDefs = (\<lambda>_. SMARTattrDef_0)\<rparr>"

theorem default_names_defined_witness:
  "GetNumSMARTattrDefs std_sizes
     (setDfltSMARTattrDef False (clearSMARTattrDefs std_sizes defs_example)) = 54"
  by (rule default_names_defined [THEN conjunct1, OF _ refl])
     (simp add: std_sizes_def numMaxATAplus1_def)

lemma cstr_strcpy [simp]: "cstr (strcpy s d) = cstr s"
  unfolding strcpy_def by (subst cstr_append_NUL) simp

lemma mf_equiv_names:
  "\<not> mf_less l r \<and> \<not> mf_less r l \<longleftrightarrow>
    cstr (mf_modelName l) = cstr (mf_modelName r) \<and> cstr (mf_firmWareName l) = cstr (mf_firmWareName r)"
proof -
  have i: "inj (of_char :: char \<Rightarrow> nat)" by (simp add: inj_on_def)
  show ?thesis
    unfolding mf_less_key not_less
    by (auto simp: inj_map_eq_map [OF i] dest: antisym)
qed

text \<open>
  In an ordered set of models the entry used for a drive is the one with the
  model name and the firmware name of the drive, and there is none exactly when
  no entry of the set has both names.
\<close>

theorem data_carrier_defs_found:
  assumes "sorted_wrt mf_less models"
  shows "getDataCarrierAttrDefs m0 models u = Some m \<longleftrightarrow>
    m \<in> set models \<and> cstr (mf_modelName m) = cstr (modelName u)
    \<and> cstr (mf_firmWareName m) = cstr (firmWareName u)"
proof -
  define k where "k = mf_Set (modelName u) (firmWareName u) (m0\<lparr>maxTeraBytesWritten := 0\<rparr>)"
  have k: "cstr (mf_modelName k) = cstr (modelName u)" "cstr (mf_firmWareName k) = cstr (firmWareName u)"
    by (simp_all add: k_def mf_Set_def)
  have "set_find mf_less k models = Some m \<longleftrightarrow> m \<in> set models \<and> \<not> mf_less m k \<and> \<not> mf_less k m"
    by (rule mf.set_find_iff [OF assms])
  then show ?thesis
    unfolding getDataCarrierAttrDefs_def k_def [symmetric] mf_equiv_names k by blast
qed

theorem data_carrier_defs_found_witness:
  "getDataCarrierAttrDefs mf_example [mf_example]
     (blank_uid\<lparr>modelName := ''ssd'' @ [NUL, CHR ''x''], firmWareName := ''f1''\<rparr>) = Some mf_example"
proof -
  have "cstr (''ssd'' @ NUL # ''x'') = ''ssd''" by (subst cstr_append_NUL) (simp add: NUL_def)
  moreover have "cstr ''ssd'' = ''ssd''" "cstr ''f1'' = ''f1''" by (simp_all add: NUL_def)
  ultimately show ?thesis
    by (subst data_carrier_defs_found) (simp_all add: mf_example_def)
qed

end
