(* ===== verification/ClientUI.thy ===== *)
theory ClientUI
  imports RealValue AttrDefs
begin

unbundle bit_operations_syntax

text \<open>
  \<open>client/SMARTmonitorClient.cpp\<close> and \<open>UserInterface/columnIndices.hpp\<close>: what
  the client shows of the attributes. The virtual functions of the user
  interface are recorded as the list of the calls made; the cells of the table
  are addressed by drive, attribute and column.

  Values C++ leaves indeterminate are explicit: the field \<open>indet\<close> of the
  environment is the value of a rating that was never assigned, the column None
  is an index that was never assigned.
\<close>

datatype serverConnectionState = cnnctdToSrv | uncnnctdToSrv | connectToSrv | valUpd8
  | drctSMARTaccss | endedDrctSMART

datatype CurrentAction = cnnctToSrv | nonBlckCnnctToSrv | readNumBytesForSuppSMART_IDs
  | readSuppSMART_IDsXMLdata | readNumBytesForSMARTdata | readSMARTvaluesXMLdata
  | hasReadSMARTvaluesXMLdata | WaitForSMARTupd8ThreadTerm | AfterWaitForSMARTupd8ThreadTerm

datatype ATA_col = ATA_ID | ATA_Name | ATA_NrmlzdCurrVal | ATA_NrmlzdThresh | ATA_RawVal
  | ATA_HumanReadableRawVal | ATA_Unit | ATA_UnitRange | ATA_LastUpdate | ATA_ByndLast

fun ATA_col_idx :: "ATA_col \<Rightarrow> nat" where
  "ATA_col_idx ATA_ID = 0" | "ATA_col_idx ATA_Name = 1" | "ATA_col_idx ATA_NrmlzdCurrVal = 2"
| "ATA_col_idx ATA_NrmlzdThresh = 3" | "ATA_col_idx ATA_RawVal = 4"
| "ATA_col_idx ATA_HumanReadableRawVal = 5" | "ATA_col_idx ATA_Unit = 6"
| "ATA_col_idx ATA_UnitRange = 7" | "ATA_col_idx ATA_LastUpdate = 8" | "ATA_col_idx ATA_ByndLast = 9"

datatype NVMe_col = NVMe_ID | NVMe_Name | NVMe_RawVal | NVMe_RawValUnit
  | NVMe_HumanReadableRawVal | NVMe_UnitRange | NVMe_LastUpdate | NVMe_ByndLast

fun NVMe_col_idx :: "NVMe_col \<Rightarrow> nat" where
  "NVMe_col_idx NVMe_ID = 0" | "NVMe_col_idx NVMe_Name = 1" | "NVMe_col_idx NVMe_RawVal = 2"
| "NVMe_col_idx NVMe_RawValUnit = 3" | "NVMe_col_idx NVMe_HumanReadableRawVal = 4"
| "NVMe_col_idx NVMe_UnitRange = 5" | "NVMe_col_idx NVMe_LastUpdate = 6"
| "NVMe_col_idx NVMe_ByndLast = 7"

datatype ui_call =
    SetAttribute (sa_drive: SMARTuniqueID) (sa_attr: attr_id) (sa_col: "nat option")
      (sa_text: string) (sa_rating: rat)
  | ChangeConnectionState serverConnectionState
  | ShowStateAccordingToSMARTvalues rslt
  | SetCurrentAction CurrentAction

record client_env =
  env_h :: hw_sizes
  env_A :: ata_ids
  env_nv :: nvme_ids
  env_max :: "attr_id \<Rightarrow> byte"
  env_ext :: fmt_ext
  env_w :: nat
  indet :: rat

definition env_fmt :: "client_env \<Rightarrow> SMARTuniqueID \<Rightarrow> attr_id \<Rightarrow> int \<Rightarrow> bool \<Rightarrow> string option" where
  "env_fmt E = FmtHumanReadable (env_ext E) (env_A E) (env_nv E) (env_w E)"

section \<open>Units\<close>

text \<open>A \<open>long\<close> converted to \<open>double\<close>: 53 significant bits, ties to even.\<close>

definition dbl :: "int \<Rightarrow> int" where
  "dbl i = (if \<bar>i\<bar> < 2 ^ 53 then i
     else (let k = nat (int (length (print_base 2 (nat \<bar>i\<bar>))) - 53)
           in rne (of_int i / 2 ^ k) * 2 ^ k))"

text \<open>Converted to \<open>uint64_t\<close>; for a negative value the conversion is not defined (None).\<close>

definition dbl_u64 :: "int \<Rightarrow> int option" where
  "dbl_u64 i = (if dbl i < 0 then None else Some (dbl i mod 2 ^ 64))"

text \<open>
  \<open>useDeterminedUnits\<close> gives the text of the unit, of its range, of the value,
  and the real value; \<open>real0\<close> is the real value before the call, which the
  default units of some attributes do not set. The accuracy, a quotient of two
  \<open>double\<close>s, is only compared with 0.
\<close>

definition useDeterminedUnits :: "client_env \<Rightarrow> SMARTuniqueID \<Rightarrow> attr_id \<Rightarrow> int \<Rightarrow> 64 word \<Rightarrow> int
    \<Rightarrow> (string \<times> string \<times> string \<times> int) option" where
  "useDeterminedUnits E u i raw unit real0 =
     (let mask = GetBitMaskForMostSignificantBit; unMasked = GetUnMaskedValue unit;
          lower = dbl (sint (lowerUnitBound u i)); upper = dbl (sint (upperUnitBound u i))
      in if unMasked \<noteq> 0 then
           if unit AND mask \<noteq> 0 then do {
             rng \<leftarrow> (if lower \<noteq> 0 then map_option (\<lambda>s. ''>=~'' @ s) (env_fmt E u i lower True)
                     else Some []);
             factor \<leftarrow> (if lower \<noteq> 0 then dbl_u64 (sint (lowerUnitBound u i)) else Some (uint unMasked));
             let rv = raw * factor;
             unitText \<leftarrow> env_fmt E u i (sint unMasked) True;
             valText \<leftarrow> env_fmt E u i rv True;
             Some (''>=~'' @ unitText, rng, ''>=~'' @ valText, rv) }
           else do {
             let rv = raw * uint unit;
             unitText \<leftarrow> env_fmt E u i (sint unit) True;
             valText \<leftarrow> env_fmt E u i rv True;
             rng \<leftarrow> (if upper \<noteq> 0 \<and> lower \<noteq> 0 then do {
                 lo \<leftarrow> env_fmt E u i lower True;
                 up \<leftarrow> env_fmt E u i upper True;
                 Some ('' '' @ lo @ ''-'' @ up) } else Some []);
             Some (''~'' @ unitText, rng, ''~'' @ valText, rv) }
         else
           (case busType u of
              NVMe \<Rightarrow> (case NVMe_useDefaultUnit (env_ext E) (env_nv E) i raw of (unitText, num, rv) \<Rightarrow>
                map_option (\<lambda>s. (unitText, [], s, opt_default real0 rv))
                  (NVMe_FmtHumanReadable (env_ext E) (env_nv E) (env_w E) i num))
            | _ \<Rightarrow> (case ATA_useDefaultUnit (env_ext E) (env_A E) i raw of (unitText, num, rv) \<Rightarrow>
                map_option (\<lambda>s. (unitText, [], s, opt_default real0 rv))
                  (ATA_FmtHumanReadable (env_ext E) (env_A E) (env_w E) i num False))))"

text \<open>The unit of the configuration file is used when it is known and can be read.\<close>

definition unitTexts :: "client_env \<Rightarrow> SMARTuniqueID \<Rightarrow> attr_id \<Rightarrow> int \<Rightarrow> ModelAndFirmware option
    \<Rightarrow> (string \<times> string \<times> string \<times> int) option" where
  "unitTexts E u i raw m =
     (case m of None \<Rightarrow> useDeterminedUnits E u i raw (units u i) 0
      | Some mf \<Rightarrow>
          (let s = getParamUnit mf i; (err, rv) = getRealValue s raw
           in if s = [] then useDeterminedUnits E u i raw (units u i) 0
              else if \<not> err
              then map_option (\<lambda>t. (s, [], t, rv)) (env_fmt E u i rv True)
              else useDeterminedUnits E u i raw (units u i) rv))"

section \<open>One attribute\<close>

definition UpdateTimeOfSMARTvalueRetrieval :: "client_env \<Rightarrow> SMARTuniqueID \<Rightarrow> attr_id \<Rightarrow> nat \<Rightarrow> ui_call" where
  "UpdateTimeOfSMARTvalueRetrieval E u i ms =
     SetAttribute u i
       (Some (if busType u = NVMe then NVMe_col_idx NVMe_LastUpdate else ATA_col_idx ATA_LastUpdate))
       (FormatTime (env_w E) ms) (rslt_val NoCriticalVal)"

text \<open>
  \<open>upd8rawAndH_andTime\<close>: the rating it returns and the cells it sets. An
  attribute that was read, but whose value is inconsistent or has no time of
  retrieval, leaves the table as it is and the rating without a value.
\<close>

definition upd8rawAndH_andTime :: "'u::len itself \<Rightarrow> client_env \<Rightarrow> attr_id
    \<Rightarrow> 'l::len word SMARTuniqueIDandValues \<Rightarrow> ModelAndFirmware option \<Rightarrow> (rat \<times> ui_call list) option" where
  "upd8rawAndH_andTime T E i d m =
     (let a = m_SMARTattrs d i; u = m_SMARTuniqueID d; isConsistent = fst (IsConsistent T a)
      in if successfullyReadSMARTrawValue a \<noteq> 0 then
           (let raw = m_rawValue a; (ok, t) = GetRetrievalTime a; upTime = (if ok then t else 0)
            in if isConsistent \<and> upTime \<noteq> 0 then
                 map_option (\<lambda>(unitText, rng, valText, rv).
                   (let nv = (busType u = NVMe);
                        rawText = (if nv then NVMe_fmtRawVal (nat raw) else ATA_fmtRawVal (env_A E) i (nat raw));
                        rating = opt_default (indet E)
                          (GetSMARTattrValRtng T (env_h E) (env_A E) (env_nv E) (env_max E) i d rv m);
                        cell = (\<lambda>col text. SetAttribute u i (Some col) text rating);
                        norm = (if nv then []
                          else [cell (ATA_col_idx ATA_NrmlzdCurrVal) (dec_int (sint (normedCurrVal a))),
                                cell (ATA_col_idx ATA_NrmlzdThresh) (dec_int (sint (normedThresh a)))]);
                        rawCol = (if nv then NVMe_col_idx NVMe_RawVal else ATA_col_idx ATA_RawVal);
                        valCol = (if nv then NVMe_col_idx NVMe_HumanReadableRawVal
                                  else ATA_col_idx ATA_HumanReadableRawVal);
                        unitCol = (if nv then NVMe_col_idx NVMe_RawValUnit else ATA_col_idx ATA_Unit);
                        rngCol = (if nv then NVMe_col_idx NVMe_UnitRange else ATA_col_idx ATA_UnitRange)
                    in (rating, norm @ [cell rawCol rawText, cell valCol valText, cell unitCol unitText]
                          @ (if rng \<noteq> [] then [cell rngCol rng] else [])
                          @ [UpdateTimeOfSMARTvalueRetrieval E u i (unat upTime)])))
                   (unitTexts E u i raw m)
               else Some (indet E, []))
         else Some (rslt_val Unknown,
                [SetAttribute u i None ''not read yet'' (rslt_val Unknown)]))"

section \<open>All attributes\<close>

text \<open>
  The attributes a loop over \<open>SMART_IDsToReadNotEnd\<close> visits; None when it reads
  past the end of the array.
\<close>

function IDsToRead_from :: "hw_sizes \<Rightarrow> SMARTuniqueID \<Rightarrow> nat \<Rightarrow> attr_id list option" where
  "IDsToRead_from h u idx =
     (case SMART_IDsToReadNotEnd h u idx of
        None \<Rightarrow> None
      | Some False \<Rightarrow> Some []
      | Some True \<Rightarrow> map_option (Cons (SMART_IDsToRd u ! idx)) (IDsToRead_from h u (Suc idx)))"
  by pat_completeness auto
termination
  by (relation "measure (\<lambda>(h, u, idx). length (SMART_IDsToRd u) - idx)")
    (auto simp: SMART_IDsToReadNotEnd_def split: if_splits)

declare IDsToRead_from.simps [simp del]

definition setIDandLabel :: "SMARTattrDefAccss \<Rightarrow> SMARTuniqueID \<Rightarrow> attr_id \<Rightarrow> ui_call list" where
  "setIDandLabel s u i =
     (let arr = (case busType u of NVMe \<Rightarrow> NVMeSMARTattrDefs s | _ \<Rightarrow> SMARTattrDefs s);
          name = cstr (attributeName (getSMARTattrDef i arr))
      in [SetAttribute u i (Some (ATA_col_idx ATA_ID)) (dec i) (rslt_val NoCriticalVal),
          SetAttribute u i (Some (ATA_col_idx ATA_Name)) name (rslt_val NoCriticalVal)])"

text \<open>Only the first drive gets its labels: the loop over the drives ends with \<open>break\<close>.\<close>

definition SetSMARTattribIDandNameLabel :: "hw_sizes \<Rightarrow> SMARTattrDefAccss
    \<Rightarrow> 'lw SMARTuniqueIDandValues list \<Rightarrow> ui_call list option" where
  "SetSMARTattribIDandNameLabel h s drives =
     (case drives of [] \<Rightarrow> Some []
      | d # _ \<Rightarrow> (let u = m_SMARTuniqueID d
          in map_option (\<lambda>ids. concat (map (setIDandLabel s u) ids)) (IDsToRead_from h u 0)))"

record 'lw client =
  SMARTuniqueIDsAndValues :: "'lw SMARTuniqueIDandValues list"
  modelAndFirmwareTuples :: "ModelAndFirmware list"
  entireSMARTstatus :: rslt
  upd8ThreadRunning :: bool

definition SMARTvalAbs1RngWarnThresh :: rat where "SMARTvalAbs1RngWarnThresh = 1 / 2"

fun upd8_attrs :: "'u::len itself \<Rightarrow> client_env \<Rightarrow> 'l::len word SMARTuniqueIDandValues
    \<Rightarrow> ModelAndFirmware option \<Rightarrow> attr_id list \<Rightarrow> rslt \<Rightarrow> (rslt \<times> ui_call list) option" where
  "upd8_attrs T E d m [] r = Some (r, [])"
| "upd8_attrs T E d m (i # ids) r =
     do { (rtg, calls) \<leftarrow> upd8rawAndH_andTime T E i d m;
          (r', calls') \<leftarrow> upd8_attrs T E d m ids
             (if rtg < SMARTvalAbs1RngWarnThresh then AtLeast1Warn else r);
          Some (r', calls @ calls') }"

fun upd8_drives :: "'u::len itself \<Rightarrow> client_env \<Rightarrow> ModelAndFirmware \<Rightarrow> ModelAndFirmware list
    \<Rightarrow> 'l::len word SMARTuniqueIDandValues list \<Rightarrow> rslt \<Rightarrow> (rslt \<times> ui_call list) option" where
  "upd8_drives T E m0 models [] r = Some (r, [])"
| "upd8_drives T E m0 models (d # ds) r =
     do { ids \<leftarrow> IDsToRead_from (env_h E) (m_SMARTuniqueID d) 0;
          (r1, calls) \<leftarrow> upd8_attrs T E d (getDataCarrierAttrDefs m0 models (m_SMARTuniqueID d)) ids r;
          (r2, calls') \<leftarrow> upd8_drives T E m0 models ds r1;
          Some (r2, calls @ calls') }"

definition UpdateSMARTvaluesUI :: "'u::len itself \<Rightarrow> client_env \<Rightarrow> ModelAndFirmware
    \<Rightarrow> 'l::len word client \<Rightarrow> ('l word client \<times> ui_call list) option" where
  "UpdateSMARTvaluesUI T E m0 c =
     map_option (\<lambda>(r, calls).
         (c\<lparr>entireSMARTstatus := r\<rparr>,
          calls @ (if upd8ThreadRunning c then [ChangeConnectionState valUpd8] else [])
            @ (if entireSMARTstatus c \<noteq> r then [ShowStateAccordingToSMARTvalues r] else [])))
       (upd8_drives T E m0 (modelAndFirmwareTuples c) (SMARTuniqueIDsAndValues c) Unknown)"

section \<open>Properties\<close>

fun is_SetAttribute :: "ui_call \<Rightarrow> bool" where
  "is_SetAttribute (SetAttribute u i c s r) = True"
| "is_SetAttribute _ = False"

lemma upd8_SetAttribute:
  "upd8rawAndH_andTime T E i d m = Some (r, calls) \<Longrightarrow> \<forall>c\<in>set calls. is_SetAttribute c"
  by (auto simp: upd8rawAndH_andTime_def Let_def UpdateTimeOfSMARTvalueRetrieval_def
      split: if_splits prod.splits)

text \<open>
  The cells that are set for an attribute that was read consistently at a
  known time: one text per column, in the order normalised value, threshold,
  raw value, readable value, unit, the unit's range if there is one, and the
  time of retrieval last; all are cells of this attribute of this drive, all but
  the time carry the rating that is returned, and the rating is the one of the
  real value the texts show.
\<close>

theorem upd8_cells:
  assumes "upd8rawAndH_andTime T E i d m = Some (r, calls)"
    and "successfullyReadSMARTrawValue (m_SMARTattrs d i) \<noteq> 0"
    and "fst (IsConsistent T (m_SMARTattrs d i))"
    and "GetRetrievalTime (m_SMARTattrs d i) = (True, t)" "t \<noteq> 0"
  shows "\<exists>unitText rng valText rv.
    unitTexts E (m_SMARTuniqueID d) i (m_rawValue (m_SMARTattrs d i)) m = Some (unitText, rng, valText, rv)
    \<and> r = opt_default (indet E)
        (GetSMARTattrValRtng T (env_h E) (env_A E) (env_nv E) (env_max E) i d rv m)
    \<and> (\<forall>c\<in>set calls. sa_drive c = m_SMARTuniqueID d \<and> sa_attr c = i)
    \<and> map sa_col calls =
        (if busType (m_SMARTuniqueID d) = NVMe
         then map Some ([2, 4, 3] @ (if rng = [] then [] else [5]) @ [6])
         else map Some ([2, 3, 4, 5, 6] @ (if rng = [] then [] else [7]) @ [8]))
    \<and> (\<forall>c\<in>set (butlast calls). sa_rating c = r)
    \<and> sa_text (last calls) = FormatTime (env_w E) (unat t)"
proof -
  obtain unitText rng valText rv where
    u: "unitTexts E (m_SMARTuniqueID d) i (m_rawValue (m_SMARTattrs d i)) m
        = Some (unitText, rng, valText, rv)"
    using assms by (auto simp: upd8rawAndH_andTime_def Let_def)
  let ?rtg = "opt_default (indet E)
      (GetSMARTattrValRtng T (env_h E) (env_A E) (env_nv E) (env_max E) i d rv m)"
  have r: "r = ?rtg"
    using assms by (simp add: upd8rawAndH_andTime_def Let_def u)
  show ?thesis
  proof (cases "busType (m_SMARTuniqueID d) = NVMe"; cases "rng = []")
  qed (use assms in \<open>(intro exI [of _ unitText] exI [of _ rng] exI [of _ valText] exI [of _ rv]
      conjI u r; force simp: upd8rawAndH_andTime_def Let_def u UpdateTimeOfSMARTvalueRetrieval_def)+\<close>)
qed

definition env_example :: client_env where
  "env_example = \<lparr>env_h = std_sizes, env_A = std_ata, env_nv = std_nvme, env_max = std_max,
     env_ext = std_ext, env_w = 64, indet = 0\<rparr>"


definition ui_drive_example :: "64 word SMARTuniqueIDandValues" where
  "ui_drive_example = drive_example\<lparr>m_SMARTuniqueID := blank_uid\<lparr>SMART_IDsToRd := [194, 0]\<rparr>,
     m_SMARTattrs := (\<lambda>_. attr_example64\<lparr>
     m_rawValue := 30, rawParts := [30], rawValueCheckSum := 30\<rparr>)\<rparr>"

lemma ui_example_upd8:
  "\<exists>calls. upd8rawAndH_andTime TYPE(64) env_example 194 ui_drive_example None = Some (1, calls)"
proof -
  have u: "busType (m_SMARTuniqueID ui_drive_example) = SATA" "units (m_SMARTuniqueID ui_drive_example) i = 0" for i
    by (simp_all add: ui_drive_example_def drive_example_def blank_uid_def initAttrVals_def)
  have a: "fst (IsConsistent TYPE(64) (m_SMARTattrs ui_drive_example 194))"
    "GetRetrievalTime (m_SMARTattrs ui_drive_example 194) = (True, 8)"
    "successfullyReadSMARTrawValue (m_SMARTattrs ui_drive_example 194) = 1"
    "m_rawValue (m_SMARTattrs ui_drive_example 194) = 30"
    by (simp_all add: ui_drive_example_def drive_example_def attr_example64_def IsConsistent_def
        GetRetrievalTime_def)
  have "\<exists>p q. unitTexts env_example (m_SMARTuniqueID ui_drive_example) 194 30 None = Some (p, [], q, 30)"
    by (simp add: unitTexts_def useDeterminedUnits_def u GetUnMaskedValue_def env_example_def
        ATA_useDefaultUnit_def ATA_FmtHumanReadable_def std_ata_def std_ext_def)
  moreover have "GetSMARTattrValRtng TYPE(64) (env_h env_example) (env_A env_example)
      (env_nv env_example) (env_max env_example) 194 ui_drive_example 30 None = Some 1"
    by (simp add: GetSMARTattrValRtng_def u ATA_SMART_rtg_def ATA_SMART_own_Rtg_def shouldBeZero_def
        env_example_def std_ata_def RateAccDegCelsius_def minCritTempInDegC_def
        minWarnTempInDegC_def maxWarnTempInDegC_def BestRtgVal_def)
  ultimately show ?thesis
    by (auto simp: upd8rawAndH_andTime_def Let_def a)
qed

theorem upd8_cells_witness:
  "\<exists>calls. upd8rawAndH_andTime TYPE(64) env_example 194 ui_drive_example None = Some (1, calls)
    \<and> sa_text (last calls) = FormatTime 64 8"
proof -
  obtain calls where c: "upd8rawAndH_andTime TYPE(64) env_example 194 ui_drive_example None
      = Some (1, calls)" using ui_example_upd8 by blast
  have "sa_text (last calls) = FormatTime (env_w env_example) (unat (8 :: 64 word))"
    using upd8_cells [OF c, of 8] by (auto simp: ui_drive_example_def attr_example64_def
        drive_example_def IsConsistent_def GetRetrievalTime_def)
  then show ?thesis using c by (simp add: env_example_def)
qed

text \<open>The IDs visited of an array that ends with 0 before the limit are the IDs in it.\<close>

lemma IDsToRead_from_split:
  "\<lbrakk>SMART_IDsToRd u = xs @ id_list ys @ 0 # zs; length xs + length (id_list ys) < numSATA h\<rbrakk>
    \<Longrightarrow> IDsToRead_from h u (length xs) = Some (id_list ys)"
proof (induction "id_list ys" arbitrary: xs ys)
  case Nil
  then show ?case
    by (subst IDsToRead_from.simps) (simp add: SMART_IDsToReadNotEnd_def nth_append flip: Nil(1))
next
  case (Cons y ys')
  have y: "y \<noteq> 0" using Cons(2) zero_notin_id_list [of ys] by (metis list.set_intros(1))
  have ys': "id_list ys' = ys'"
    using Cons(2) zero_notin_id_list [of ys] by (metis id_list_no_zero list.set_intros(2))
  have "IDsToRead_from h u (length (xs @ [y])) = Some (id_list ys')"
    by (rule Cons(1)) (use Cons(2-4) in \<open>simp_all add: ys' flip: Cons(2)\<close>)
  then show ?case
    using y Cons(3,4)
    by (subst IDsToRead_from.simps)
      (simp add: SMART_IDsToReadNotEnd_def nth_append ys' flip: Cons(2))
qed

lemma IDsToRead_id_list:
  assumes "0 \<in> set (SMART_IDsToRd u)" "length (SMART_IDsToRd u) \<le> numSATA h"
  shows "IDsToRead_from h u 0 = Some (id_list (SMART_IDsToRd u))"
proof -
  obtain zs where "SMART_IDsToRd u = id_list (SMART_IDsToRd u) @ 0 # zs"
    using id_list_split [OF assms(1)] .
  moreover then have "length (id_list (SMART_IDsToRd u)) < length (SMART_IDsToRd u)"
    by (metis length_append length_Cons less_add_Suc1 add_Suc_right)
  ultimately show ?thesis
    using IDsToRead_from_split [of u "[]" "SMART_IDsToRd u" zs h] assms(2) by simp
qed

text \<open>The rating an update of one attribute returns.\<close>

definition attr_rated_below :: "'u::len itself \<Rightarrow> client_env \<Rightarrow> ModelAndFirmware option
    \<Rightarrow> 'l::len word SMARTuniqueIDandValues \<Rightarrow> attr_id \<Rightarrow> bool" where
  "attr_rated_below T E m d i =
     (case upd8rawAndH_andTime T E i d m of
        None \<Rightarrow> False | Some (r, _) \<Rightarrow> r < SMARTvalAbs1RngWarnThresh)"

lemma upd8_attrs_result:
  "upd8_attrs T E d m ids r = Some (r', calls) \<Longrightarrow>
    r' = (if \<exists>i\<in>set ids. attr_rated_below T E m d i then AtLeast1Warn else r)
    \<and> (\<forall>c\<in>set calls. is_SetAttribute c)"
proof (induction ids arbitrary: r calls)
  case (Cons i ids)
  obtain rtg cs cs' where *: "upd8rawAndH_andTime T E i d m = Some (rtg, cs)"
    "upd8_attrs T E d m ids (if rtg < SMARTvalAbs1RngWarnThresh then AtLeast1Warn else r) = Some (r', cs')"
    "calls = cs @ cs'"
    using Cons.prems by (auto split: Option.bind_splits)
  show ?case
    using Cons.IH [OF *(2)] upd8_SetAttribute [OF *(1)] by (auto simp: attr_rated_below_def *(1,3))
qed simp

definition drive_rated_below :: "'u::len itself \<Rightarrow> client_env \<Rightarrow> ModelAndFirmware \<Rightarrow> ModelAndFirmware list
    \<Rightarrow> 'l::len word SMARTuniqueIDandValues \<Rightarrow> bool" where
  "drive_rated_below T E m0 models d =
     (\<exists>i\<in>set (opt_default [] (IDsToRead_from (env_h E) (m_SMARTuniqueID d) 0)).
        attr_rated_below T E (getDataCarrierAttrDefs m0 models (m_SMARTuniqueID d)) d i)"

lemma upd8_drives_result:
  "upd8_drives T E m0 models ds r = Some (r', calls) \<Longrightarrow>
    r' = (if \<exists>d\<in>set ds. drive_rated_below T E m0 models d then AtLeast1Warn else r)
    \<and> (\<forall>c\<in>set calls. is_SetAttribute c)"
proof (induction ds arbitrary: r calls)
  case (Cons d ds)
  obtain ids r1 cs cs' where *: "IDsToRead_from (env_h E) (m_SMARTuniqueID d) 0 = Some ids"
    "upd8_attrs T E d (getDataCarrierAttrDefs m0 models (m_SMARTuniqueID d)) ids r = Some (r1, cs)"
    "upd8_drives T E m0 models ds r1 = Some (r', cs')" "calls = cs @ cs'"
    using Cons.prems by (auto split: Option.bind_splits)
  show ?case
    using Cons.IH [OF *(3)] upd8_attrs_result [OF *(2)] by (auto simp: drive_rated_below_def *(1,4))
qed simp

text \<open>
  C32: After an update of the whole table the state of all drives is ``at least
  one warning'' exactly when some attribute to read of some drive has a rating
  below 0.5, and ``unknown'' otherwise, never ``OK''; the new state is shown
  exactly when it differs from the one before.
\<close>

theorem overall_state:
  assumes "UpdateSMARTvaluesUI T E m0 c = Some (c', calls)"
  shows "entireSMARTstatus c' =
      (if \<exists>d\<in>set (SMARTuniqueIDsAndValues c). drive_rated_below T E m0 (modelAndFirmwareTuples c) d
       then AtLeast1Warn else Unknown)
    \<and> (ShowStateAccordingToSMARTvalues s \<in> set calls
      \<longleftrightarrow> s = entireSMARTstatus c' \<and> s \<noteq> entireSMARTstatus c)"
proof -
  obtain r cs where *: "upd8_drives T E m0 (modelAndFirmwareTuples c) (SMARTuniqueIDsAndValues c) Unknown
      = Some (r, cs)"
    and c': "c' = c\<lparr>entireSMARTstatus := r\<rparr>"
    and calls: "calls = cs @ (if upd8ThreadRunning c then [ChangeConnectionState valUpd8] else [])
        @ (if entireSMARTstatus c \<noteq> r then [ShowStateAccordingToSMARTvalues r] else [])"
    using assms by (auto simp: UpdateSMARTvaluesUI_def)
  have "ShowStateAccordingToSMARTvalues s \<notin> set cs"
    using upd8_drives_result [OF *] by fastforce
  then show ?thesis
    using upd8_drives_result [OF *] by (auto simp: c' calls)
qed

definition client_example :: "64 word client" where
  "client_example = \<lparr>SMARTuniqueIDsAndValues = [ui_drive_example],
     modelAndFirmwareTuples = [], entireSMARTstatus = OK, upd8ThreadRunning = True\<rparr>"

theorem overall_state_witness:
  "\<exists>c' calls. UpdateSMARTvaluesUI TYPE(64) env_example mf_example client_example = Some (c', calls)
    \<and> entireSMARTstatus c' = Unknown \<and> ShowStateAccordingToSMARTvalues Unknown \<in> set calls"
proof -
  have ids: "IDsToRead_from (env_h env_example) (m_SMARTuniqueID ui_drive_example) 0 = Some [194]"
    by (subst IDsToRead_id_list)
      (simp_all add: ui_drive_example_def drive_example_def env_example_def std_sizes_def id_list_def)
  obtain calls where u: "upd8rawAndH_andTime TYPE(64) env_example 194 ui_drive_example None = Some (1, calls)"
    using ui_example_upd8 by blast
  have m: "getDataCarrierAttrDefs mf_example [] v = None" for v
    by (simp add: getDataCarrierAttrDefs_def)
  obtain c' cs where c': "UpdateSMARTvaluesUI TYPE(64) env_example mf_example client_example = Some (c', cs)"
    by (auto simp: UpdateSMARTvaluesUI_def client_example_def ids m u)
  have "\<not> drive_rated_below TYPE(64) env_example mf_example [] ui_drive_example"
    by (simp add: drive_rated_below_def ids m attr_rated_below_def u SMARTvalAbs1RngWarnThresh_def)
  then show ?thesis
    using c' overall_state [OF c', of Unknown] by (auto simp: client_example_def)
qed

end
