(* ===== verification/MonitorBase.thy ===== *)
theory MonitorBase
  imports ClientUI
begin

text \<open>
  \<open>SMARTmonitorBase.cpp\<close>, the base of the service and of the clients: the
  command line, the search for configuration files, the attributes to observe,
  the loop of the thread that gets the values, and its end by
  \<open>SMARTmonitorClient::EndUpdateUIthread\<close>.

  Wide strings are \<open>string\<close>s. What the loader of configuration files, the access
  to the drives and the logger answer are arguments.
\<close>

section \<open>Attributes to observe\<close>

definition SetSMARTattributesToObserve :: "hw_sizes \<Rightarrow> 'l::len word SMARTuniqueIDandValues list \<Rightarrow> attr_id set" where
  "SetSMARTattributesToObserve h drives =
     fold (\<lambda>d ids. fold (\<lambda>i ids. if successfullyReadSMARTrawValue (m_SMARTattrs d i) \<noteq> 0
             then insert i ids else ids) [0..<numMaxATAplus1 h] ids) drives {}"

text \<open>Without direct access; with direct access the function does nothing.\<close>

definition EnsureSMARTattrToObsExist :: "bool \<Rightarrow> hw_sizes \<Rightarrow> attr_id set \<Rightarrow> attr_id set" where
  "EnsureSMARTattrToObsExist directAccess h ids =
     (if ids = {} \<and> \<not> directAccess
      then fold insert [0..<numMaxATAplus1 h] {} else ids)"

datatype start_result = ThreadStarted | NoAttrsToObserve

definition StartAsyncUpdateThread :: "attr_id set \<Rightarrow> start_result" where
  "StartAsyncUpdateThread ids = (if 0 < card ids then ThreadStarted else NoAttrsToObserve)"

section \<open>Command line\<close>

definition commandLineOptions :: "string list" where
  "commandLineOptions = [''logfilefolder'', ''svcConnConfFile'', ''loglevel'']"

datatype cmdLineRtrn = sccssfllyParsedAllCmdLneArgs | calledHelp

record cmd_env =
  argOut :: string
  validLogLevel :: "string \<Rightarrow> bool"

record cmd_state =
  svcConnConfFile :: string
  logFilePath :: string
  logLevel :: string
  cmd_showUsage :: bool
  unknownOptions :: "string list"
  cmd_ret :: cmdLineRtrn

text \<open>\<open>getArg\<close> of the common source repository, \<open>argOut\<close> behind the last argument.\<close>

definition getArg :: "cmd_env \<Rightarrow> string list \<Rightarrow> nat \<Rightarrow> string" where
  "getArg ce args i = (if i < length args then args ! i else argOut ce)"

definition GetExeFileName :: "string \<Rightarrow> string" where
  "GetExeFileName path = rev (takeWhile (\<lambda>c. c \<noteq> CHR ''/'') (rev path))"

definition GetCommandOptionName :: "string \<Rightarrow> string" where
  "GetCommandOptionName arg = takeWhile (\<lambda>c. c \<noteq> CHR ''='') arg"

definition GetCommandOptionValue :: "cmd_env \<Rightarrow> string list \<Rightarrow> nat \<Rightarrow> string" where
  "GetCommandOptionValue ce args i =
     (if getArg ce args i \<in> set commandLineOptions then getArg ce args (i + 1) else [])"

text \<open>The index after the option, its name and its value; \<open>value0\<close> is the value before the call.\<close>

definition GetCmdLineOptionNameAndValue :: "cmd_env \<Rightarrow> string list \<Rightarrow> nat \<Rightarrow> string
    \<Rightarrow> nat \<times> string \<times> string" where
  "GetCmdLineOptionNameAndValue ce args i value0 =
     (let arg = getArg ce args i in
      if CHR ''='' \<in> set arg
      then (i + 1, takeWhile (\<lambda>c. c \<noteq> CHR ''='') arg, tl (dropWhile (\<lambda>c. c \<noteq> CHR ''='') arg))
      else if arg = ''--help'' then (i + 1, arg, value0)
      else (i + 2, arg, GetCommandOptionValue ce args i))"

text \<open>\<open>contains\<close> is the search of the common source repository for an option.\<close>

definition GetCommandLineOptionValue :: "cmd_env \<Rightarrow> (string \<Rightarrow> nat option) \<Rightarrow> string list \<Rightarrow> string \<Rightarrow> string" where
  "GetCommandLineOptionValue ce contains args name =
     (case contains name of
        Some i \<Rightarrow> snd (snd (GetCmdLineOptionNameAndValue ce args i []))
      | None \<Rightarrow> [])"

definition HandleLogFileFolderProgramOption :: "string \<Rightarrow> string \<Rightarrow> string" where
  "HandleLogFileFolderProgramOption exe value =
     (let v = (if value \<noteq> [] \<and> last value \<noteq> CHR ''/'' then value @ ''/'' else value)
      in v @ GetExeFileName exe)"

definition cmd_option :: "cmd_env \<Rightarrow> string \<Rightarrow> string \<Rightarrow> string \<Rightarrow> cmd_state \<Rightarrow> cmd_state" where
  "cmd_option ce exe name value s =
     (if name = ''--help'' then s\<lparr>cmd_showUsage := True, cmd_ret := calledHelp\<rparr>
      else if value = [] then s\<lparr>cmd_showUsage := True, unknownOptions := unknownOptions s @ [name]\<rparr>
      else if name = ''svcConnConfFile'' then s\<lparr>svcConnConfFile := value\<rparr>
      else if name = ''logfilefolder''
      then s\<lparr>logFilePath := HandleLogFileFolderProgramOption exe value\<rparr>
      else if name = ''loglevel''
      then (if validLogLevel ce value then s\<lparr>logLevel := value\<rparr> else s\<lparr>cmd_showUsage := True\<rparr>)
      else s)"

function cmd_loop :: "cmd_env \<Rightarrow> string list \<Rightarrow> nat \<Rightarrow> string \<Rightarrow> cmd_state \<Rightarrow> cmd_state" where
  "cmd_loop ce args i value0 s =
     (if i < length args
      then (case GetCmdLineOptionNameAndValue ce args i value0 of (i', name, value) \<Rightarrow>
              cmd_loop ce args i' value (cmd_option ce (hd args) name value s))
      else s)"
  by pat_completeness auto
termination
  by (relation "measure (\<lambda>(ce, args, i, value0, s). length args - i)")
    (auto simp: GetCmdLineOptionNameAndValue_def Let_def split: if_splits)

declare cmd_loop.simps [simp del]

text \<open>
  The usage text is shown after all arguments were processed, so the flag
  stands for it; the first argument is the path of the executable.
\<close>

definition ProcessCommandLineArgs :: "cmd_env \<Rightarrow> string list \<Rightarrow> cmd_state \<Rightarrow> cmd_state" where
  "ProcessCommandLineArgs ce args s =
     (let s0 = s\<lparr>cmd_showUsage := False, cmd_ret := sccssfllyParsedAllCmdLneArgs\<rparr>
      in if 1 < length args then cmd_loop ce args 1 [] s0 else s0\<lparr>cmd_showUsage := True\<rparr>)"

text \<open>An option as one argument with an equals sign, or as two arguments.\<close>

definition render_option :: "bool \<times> string \<times> string \<Rightarrow> string list" where
  "render_option opt = (case opt of (one, n, v) \<Rightarrow> if one then [n @ CHR ''='' # v] else [n, v])"

lemma equals_split:
  assumes "CHR ''='' \<notin> set n"
  shows "takeWhile (\<lambda>c. c \<noteq> CHR ''='') (n @ CHR ''='' # v) = n"
    "dropWhile (\<lambda>c. c \<noteq> CHR ''='') (n @ CHR ''='' # v) = CHR ''='' # v"
proof -
  have "\<forall>c\<in>set n. c \<noteq> CHR ''=''" using assms by auto
  then show "takeWhile (\<lambda>c. c \<noteq> CHR ''='') (n @ CHR ''='' # v) = n"
    "dropWhile (\<lambda>c. c \<noteq> CHR ''='') (n @ CHR ''='' # v) = CHR ''='' # v"
    by (simp_all add: takeWhile_append dropWhile_append)
qed

lemma known_option_name:
  "n \<in> set commandLineOptions \<Longrightarrow> CHR ''='' \<notin> set n \<and> n \<noteq> ''--help''"
  by (auto simp: commandLineOptions_def)

lemma cmd_loop_options:
  assumes "\<forall>(one, n, v)\<in>set opts. n \<in> set commandLineOptions" "done \<noteq> []"
  shows "cmd_loop ce (done @ concat (map render_option opts)) (length done) value0 s
    = fold (\<lambda>(one, n, v). cmd_option ce (hd done) n v) opts s"
  using assms
proof (induction opts arbitrary: "done" value0 s)
  case Nil
  then show ?case by (subst cmd_loop.simps) simp
next
  case (Cons opt opts)
  obtain one n v where o: "opt = (one, n, v)" by (cases opt) auto
  have n: "n \<in> set commandLineOptions" "CHR ''='' \<notin> set n" "n \<noteq> ''--help''"
    using Cons.prems(1) known_option_name [of n] by (auto simp: o)
  let ?d = "done @ render_option opt"
  have step: "GetCmdLineOptionNameAndValue ce (?d @ r) (length done) value0 = (length ?d, n, v)" for r
    using n by (cases one)
      (simp_all add: o render_option_def GetCmdLineOptionNameAndValue_def getArg_def nth_append
        equals_split GetCommandOptionValue_def)
  have ne: "render_option (one, n, v) \<noteq> []" by (simp add: render_option_def)
  have "cmd_loop ce (?d @ concat (map render_option opts)) (length ?d) v' s'
      = fold (\<lambda>(one, n, v). cmd_option ce (hd done) n v) opts s'" for v' s'
    using Cons.IH [of ?d v' s'] Cons.prems by simp
  then show ?case
    using Cons.prems(2) ne by (subst cmd_loop.simps) (simp add: o step [unfolded o append_assoc])
qed

text \<open>
  C36: A command line of known options is processed option by option, in order
  and each with its own value, whether an option is written as one argument
  \<open>name=value\<close> or as two arguments, and in any mixture of the two forms; also a
  value that contains an equals sign or is the name of an option is taken as it
  is.
\<close>

theorem command_line_options:
  assumes "\<forall>(one, n, v)\<in>set opts. n \<in> set commandLineOptions" "opts \<noteq> []"
  shows "ProcessCommandLineArgs ce (exe # concat (map render_option opts)) s =
    fold (\<lambda>(one, n, v). cmd_option ce exe n v) opts
      (s\<lparr>cmd_showUsage := False, cmd_ret := sccssfllyParsedAllCmdLneArgs\<rparr>)"
proof -
  have "concat (map render_option opts) \<noteq> []"
    using assms(2) by (cases opts) (auto simp: render_option_def split: prod.splits if_splits)
  then show ?thesis
    using cmd_loop_options [OF assms(1), of "[exe]" ce]
    by (simp add: ProcessCommandLineArgs_def)
qed

definition cmd_example :: cmd_state where
  "cmd_example = \<lparr>svcConnConfFile = [], logFilePath = [], logLevel = [], cmd_showUsage = True,
     unknownOptions = [], cmd_ret = calledHelp\<rparr>"

theorem command_line_options_witness:
  "let s = ProcessCommandLineArgs \<lparr>argOut = [], validLogLevel = (\<lambda>l. l = ''debug'')\<rparr>
       [''/bin/smart'', ''loglevel=debug'', ''logfilefolder'', ''/run=x''] cmd_example
   in logLevel s = ''debug'' \<and> logFilePath s = ''/run=x/smart'' \<and> \<not> cmd_showUsage s"
  using command_line_options [of "[(True, ''loglevel'', ''debug''), (False, ''logfilefolder'', ''/run=x'')]"
      "\<lparr>argOut = [], validLogLevel = (\<lambda>l. l = ''debug'')\<rparr>" "''/bin/smart''" cmd_example]
  by (simp add: commandLineOptions_def render_option_def cmd_option_def
      HandleLogFileFolderProgramOption_def GetExeFileName_def cmd_example_def)

text \<open>
  The usage text writes every option with a leading minus sign; an option
  written that way with an equals sign is neither applied nor reported.
\<close>

lemma unknown_option_ignored:
  "ProcessCommandLineArgs ce [exe, ''-loglevel=debug''] s =
    s\<lparr>cmd_showUsage := False, cmd_ret := sccssfllyParsedAllCmdLneArgs\<rparr>"
  by (simp add: ProcessCommandLineArgs_def cmd_loop.simps GetCmdLineOptionNameAndValue_def
      getArg_def cmd_option_def)

section \<open>Configuration files\<close>

text \<open>
  \<open>cwd\<close> is the current working directory, \<open>cfgOpt\<close> the value of the option
  \<open>configfilepath\<close>; when it is given the path stays as it is, the value itself
  is not used.
\<close>

definition ConstructConfigFilePathFromExeDirPath :: "string \<Rightarrow> string \<Rightarrow> string" where
  "ConstructConfigFilePathFromExeDirPath absPath out =
     (if CHR ''/'' \<in> set absPath then rev (dropWhile (\<lambda>c. c \<noteq> CHR ''/'') (rev absPath)) else out)"

definition ConstructConfigFilePath :: "string \<Rightarrow> string \<Rightarrow> string \<Rightarrow> string" where
  "ConstructConfigFilePath cwd cfgOpt path =
     (let p = (if path = [] then cwd else path)
      in if cfgOpt = [] then p @ ''/config/'' else p)"

datatype cfg_fun = readSMARTattrDefs_ATA | readSMARTattrDefs_NVMe | ReadSMARTdataCarrierDefs_fn
  | ReadSrvCnnctnCfg_fn

datatype InitSMARTretCode = init_success | readingConfigFileFailed | accessToSMARTdenied
  | noSMARTcapableDevicePresent

text \<open>\<open>SMARTaccessBase::retCodes\<close>; the initialisation looks at the first three only.\<close>

datatype access_result = acc_success | acc_accessDenied | acc_noSingleSMARTdevice
  | acc_gotSMARTattributeValue | acc_unset | acc_getBusTypFaild | acc_otherError

text \<open>
  The environment: the resources path built into the program (empty on other
  systems than Linux), the loader, which may throw (None), and the access to the
  drives. The paths the loader is called with are returned in order.
\<close>

record 's init_env =
  resourcesFSpath :: string
  ie_cwd :: string
  ie_cfgOpt :: string
  loadCfg :: "cfg_fun \<Rightarrow> string \<Rightarrow> 's \<Rightarrow> (bool \<times> 's) option"
  readAllDrives :: "'s \<Rightarrow> access_result \<times> 's"
  directAccess :: bool

definition cfgPath1 :: "'s init_env \<Rightarrow> string \<Rightarrow> string" where
  "cfgPath1 ie fileName = ConstructConfigFilePath (ie_cwd ie) (ie_cfgOpt ie) (resourcesFSpath ie) @ fileName"

definition cfgPath2 :: "'s init_env \<Rightarrow> string \<Rightarrow> string" where
  "cfgPath2 ie fileName = ConstructConfigFilePath (ie_cwd ie) (ie_cfgOpt ie) [] @ fileName"

definition tryCfgFilePaths :: "'s init_env \<Rightarrow> string \<Rightarrow> cfg_fun \<Rightarrow> 's
    \<Rightarrow> (bool \<times> string list \<times> 's) option" where
  "tryCfgFilePaths ie fileName f s =
     (case loadCfg ie f (cfgPath1 ie fileName) s of
        None \<Rightarrow> None
      | Some (ok, s1) \<Rightarrow>
          if \<not> ok \<and> resourcesFSpath ie \<noteq> [] then
            (case loadCfg ie f (cfgPath2 ie fileName) s1 of
               None \<Rightarrow> None
             | Some (ok2, s2) \<Rightarrow> Some (ok2, [cfgPath1 ie fileName, cfgPath2 ie fileName], s2))
          else Some (ok, [cfgPath1 ie fileName], s1))"

definition cfgFiles :: "(string \<times> cfg_fun) list" where
  "cfgFiles = [(''en/SMARTattrDefs.'', readSMARTattrDefs_ATA),
     (''en/NVMeSMARTattrDefs.'', readSMARTattrDefs_NVMe),
     (''dataCarrierDefs.'', ReadSMARTdataCarrierDefs_fn),
     (''SMARTsrvCnnctn.'', ReadSrvCnnctnCfg_fn)]"

fun tryFiles :: "'s init_env \<Rightarrow> (string \<times> cfg_fun) list \<Rightarrow> 's \<Rightarrow> (bool \<times> string list \<times> 's) option" where
  "tryFiles ie [] s = Some (True, [], s)"
| "tryFiles ie ((n, f) # fs) s =
     (case tryCfgFilePaths ie n f s of
        None \<Rightarrow> None
      | Some (ok, ps, s1) \<Rightarrow>
          if \<not> ok then Some (False, ps, s1)
          else map_option (\<lambda>(ok', ps', s2). (ok', ps @ ps', s2)) (tryFiles ie fs s1))"

definition InitializeSMART :: "'s init_env \<Rightarrow> 's \<Rightarrow> (InitSMARTretCode \<times> string list \<times> 's) option" where
  "InitializeSMART ie s =
     (case tryFiles ie cfgFiles s of
        None \<Rightarrow> None
      | Some (ok, ps, s1) \<Rightarrow>
          if \<not> ok then Some (readingConfigFileFailed, ps, s1)
          else if directAccess ie then
            (case readAllDrives ie s1 of (acc, s2) \<Rightarrow>
               Some (case acc of acc_accessDenied \<Rightarrow> accessToSMARTdenied
                     | acc_noSingleSMARTdevice \<Rightarrow> noSMARTcapableDevicePresent
                     | _ \<Rightarrow> init_success, ps, s2))
          else Some (init_success, ps, s1))"

text \<open>A file is found when it can be loaded from the installation or the working directory.\<close>

definition cfg_found :: "'s init_env \<Rightarrow> (cfg_fun \<Rightarrow> string \<Rightarrow> bool) \<Rightarrow> string \<times> cfg_fun \<Rightarrow> bool" where
  "cfg_found ie readable nf =
     (readable (snd nf) (cfgPath1 ie (fst nf))
      \<or> resourcesFSpath ie \<noteq> [] \<and> readable (snd nf) (cfgPath2 ie (fst nf)))"

lemma tryFiles_result:
  assumes load: "\<And>f p s. \<exists>s'. loadCfg ie f p s = Some (readable f p, s')"
  shows "\<exists>ps s'. tryFiles ie fs s = Some (list_all (cfg_found ie readable) fs, ps, s')"
proof (induction fs arbitrary: s)
  case (Cons nf fs)
  obtain n f where nf: "nf = (n, f)" by (cases nf)
  obtain s1 s2 where s: "loadCfg ie f (cfgPath1 ie n) s = Some (readable f (cfgPath1 ie n), s1)"
    "loadCfg ie f (cfgPath2 ie n) s1 = Some (readable f (cfgPath2 ie n), s2)"
    using load by metis
  have "\<exists>ps s'. tryCfgFilePaths ie n f s = Some (cfg_found ie readable nf, ps, s')"
    by (cases "\<not> readable f (cfgPath1 ie n) \<and> resourcesFSpath ie \<noteq> []")
      (auto simp: s tryCfgFilePaths_def cfg_found_def nf)
  then obtain ps s' where "tryCfgFilePaths ie n f s = Some (cfg_found ie readable nf, ps, s')" by blast
  then show ?case
    using Cons.IH [of s'] by (auto simp: nf)
qed simp

text \<open>Without the configuration the drives are not accessed: the way to access them has no influence.\<close>

lemma InitializeSMART_no_access:
  assumes "tryFiles ie cfgFiles s = Some (False, ps, s1)"
  shows "InitializeSMART (ie\<lparr>readAllDrives := acc\<rparr>) s = Some (readingConfigFileFailed, ps, s1)"
proof -
  have p: "cfgPath1 (ie\<lparr>readAllDrives := acc\<rparr>) n = cfgPath1 ie n"
      "cfgPath2 (ie\<lparr>readAllDrives := acc\<rparr>) n = cfgPath2 ie n" for n
    by (simp_all add: cfgPath1_def cfgPath2_def)
  have "tryCfgFilePaths (ie\<lparr>readAllDrives := acc\<rparr>) n f st = tryCfgFilePaths ie n f st" for n f st
    by (simp add: tryCfgFilePaths_def p cong: option.case_cong prod.case_cong if_cong)
  then have "tryFiles (ie\<lparr>readAllDrives := acc\<rparr>) fs st = tryFiles ie fs st" for fs st
    by (induction ie fs st rule: tryFiles.induct) (simp_all split: option.split)
  then show ?thesis using assms by (simp add: InitializeSMART_def)
qed

text \<open>
  C37: With a loader that throws no exception and whose result for a path depends
  on the file alone: the initialisation fails with the error for the
  configuration exactly when one of the four files can be loaded neither from the
  installation nor from the working directory, and then the drives are not
  accessed (whatever the access would do, result and state are the same). It
  succeeds exactly when all files can be loaded and, with direct access, the
  result of the access is neither ``denied'' nor ``no device'': every other
  result, errors among them, counts as success.
\<close>

theorem InitializeSMART_result:
  assumes "\<And>f p s. \<exists>s'. loadCfg ie f p s = Some (readable f p, s')"
  shows "\<exists>code ps s'. InitializeSMART ie s = Some (code, ps, s')
    \<and> (code = readingConfigFileFailed \<longleftrightarrow> (\<exists>nf\<in>set cfgFiles. \<not> cfg_found ie readable nf))
    \<and> (code = readingConfigFileFailed \<longrightarrow>
         (\<forall>acc. InitializeSMART (ie\<lparr>readAllDrives := acc\<rparr>) s = Some (code, ps, s')))
    \<and> (code = init_success \<longleftrightarrow> (\<forall>nf\<in>set cfgFiles. cfg_found ie readable nf)
         \<and> (directAccess ie \<longrightarrow> (\<exists>s1 ps. tryFiles ie cfgFiles s = Some (True, ps, s1)
              \<and> fst (readAllDrives ie s1) \<notin> {acc_accessDenied, acc_noSingleSMARTdevice})))"
proof -
  obtain ps s1 where t: "tryFiles ie cfgFiles s
      = Some (list_all (cfg_found ie readable) cfgFiles, ps, s1)"
    using tryFiles_result [of ie readable cfgFiles s, OF assms] by blast
  show ?thesis
  proof (cases "list_all (cfg_found ie readable) cfgFiles")
    case True
    then show ?thesis using t
      by (cases "readAllDrives ie s1"; cases "fst (readAllDrives ie s1)"; cases "directAccess ie")
        (simp_all add: InitializeSMART_def list_all_iff)
  next
    case False
    then have f: "tryFiles ie cfgFiles s = Some (False, ps, s1)" using t by simp
    then show ?thesis using False InitializeSMART_no_access [OF f]
      by (auto simp: InitializeSMART_def list_all_iff)
  qed
qed

definition init_example :: "nat init_env" where
  "init_example = \<lparr>resourcesFSpath = ''/usr/local/SMARTmonitor'', ie_cwd = ''/root'', ie_cfgOpt = [],
     loadCfg = (\<lambda>f p n. Some (take 5 p = ''/root'' \<or> f = readSMARTattrDefs_ATA, n + 1)),
     readAllDrives = (\<lambda>n. (acc_success, n)), directAccess = True\<rparr>"

theorem InitializeSMART_result_witness:
  "\<exists>ps s'. InitializeSMART init_example 0 = Some (init_success, ps, s')"
proof -
  let ?r = "\<lambda>f p. take 5 p = ''/root'' \<or> f = readSMARTattrDefs_ATA"
  have load: "\<exists>s'. loadCfg init_example f p s = Some (?r f p, s')" for f p s
    by (simp add: init_example_def)
  have found: "\<forall>nf\<in>set cfgFiles. cfg_found init_example ?r nf"
    by (simp add: cfgFiles_def cfg_found_def cfgPath2_def ConstructConfigFilePath_def init_example_def)
  obtain ps s1 where "tryFiles init_example cfgFiles 0 = Some (True, ps, s1)"
    using tryFiles_result [of init_example ?r cfgFiles 0, OF load] found by (auto simp: list_all_iff)
  moreover have "fst (readAllDrives init_example s1) = acc_success" by (simp add: init_example_def)
  ultimately show ?thesis
    using InitializeSMART_result [of init_example ?r 0, OF load] found by auto
qed

end
