(* ===== verification/UpdateThread.thy ===== *)
theory UpdateThread
  imports MonitorBase
begin

text \<open>
  The thread that gets the values (\<open>UpdateSMARTattrValsThreadFunc\<close> in
  \<open>SMARTmonitorBase.cpp\<close>) and its end by \<open>EndUpdateUIthread\<close> in
  \<open>client/SMARTmonitorClient.cpp\<close>, as two sequences of atomic steps that
  interleave.

  The event both use has no memory: a broadcast wakes a thread that waits and is
  lost when none does. The wait also ends by its timeout.
\<close>

section \<open>The two threads\<close>

datatype upd_pc = U_Get | U_BeforeWait | U_Wait | U_Check | U_After int | U_Ended

datatype end_pc = E_Start | E_Broadcast | E_Clear | E_SetWaitAction | E_WaitForTermination
  | E_SetAfterAction | E_Reenable | E_ChangeState | E_Done

record threads =
  upc :: upd_pc
  epc :: end_pc
  s_updateSMARTvalues :: bool
  getsStarted :: nat
  threadID :: nat
  endCalls :: "ui_call list"

text \<open>
  The result \<open>res\<close> of the function that gets the values; 0 is success. The
  check at the end of the loop starts the next call.
\<close>

inductive upd_step :: "threads \<Rightarrow> threads \<Rightarrow> bool" where
  get_ok: "upc s = U_Get \<Longrightarrow> upd_step s (s\<lparr>upc := U_BeforeWait\<rparr>)"
| get_failed: "\<lbrakk>upc s = U_Get; res \<noteq> 0\<rbrakk> \<Longrightarrow> upd_step s (s\<lparr>upc := U_After res\<rparr>)"
| before_wait: "upc s = U_BeforeWait \<Longrightarrow> upd_step s (s\<lparr>upc := U_Wait\<rparr>)"
| timeout: "upc s = U_Wait \<Longrightarrow> upd_step s (s\<lparr>upc := U_Check\<rparr>)"
| again: "\<lbrakk>upc s = U_Check; s_updateSMARTvalues s\<rbrakk>
    \<Longrightarrow> upd_step s (s\<lparr>upc := U_Get, getsStarted := getsStarted s + 1\<rparr>)"
| leave: "\<lbrakk>upc s = U_Check; \<not> s_updateSMARTvalues s\<rbrakk> \<Longrightarrow> upd_step s (s\<lparr>upc := U_After 0\<rparr>)"
| after: "upc s = U_After res \<Longrightarrow> upd_step s (s\<lparr>upc := U_Ended\<rparr>)"

text \<open>
  \<open>EndUpdateUIthread\<close> for a client of a server; \<open>direct\<close> is the client that
  reads the drives itself.
\<close>

inductive end_step :: "bool \<Rightarrow> threads \<Rightarrow> threads \<Rightarrow> bool" for direct where
  running: "\<lbrakk>epc s = E_Start; upc s \<noteq> U_Ended\<rbrakk> \<Longrightarrow> end_step direct s (s\<lparr>epc := E_Broadcast\<rparr>)"
| not_running: "\<lbrakk>epc s = E_Start; upc s = U_Ended\<rbrakk> \<Longrightarrow> end_step direct s (s\<lparr>epc := E_Done\<rparr>)"
| broadcast: "epc s = E_Broadcast \<Longrightarrow>
    end_step direct s (s\<lparr>epc := E_Clear, upc := if upc s = U_Wait then U_Check else upc s\<rparr>)"
| clear: "epc s = E_Clear \<Longrightarrow>
    end_step direct s (s\<lparr>epc := E_SetWaitAction, s_updateSMARTvalues := False\<rparr>)"
| set_wait_action: "epc s = E_SetWaitAction \<Longrightarrow>
    end_step direct s (s\<lparr>epc := E_WaitForTermination,
      endCalls := endCalls s @ [SetCurrentAction WaitForSMARTupd8ThreadTerm]\<rparr>)"
| terminated: "\<lbrakk>epc s = E_WaitForTermination; upc s = U_Ended\<rbrakk> \<Longrightarrow>
    end_step direct s (s\<lparr>epc := E_SetAfterAction\<rparr>)"
| set_after_action: "epc s = E_SetAfterAction \<Longrightarrow>
    end_step direct s (s\<lparr>epc := E_Reenable,
      endCalls := endCalls s @ [SetCurrentAction AfterWaitForSMARTupd8ThreadTerm]\<rparr>)"
| reenable: "epc s = E_Reenable \<Longrightarrow>
    end_step direct s (s\<lparr>epc := E_ChangeState, s_updateSMARTvalues := True, threadID := 0\<rparr>)"
| change_state: "epc s = E_ChangeState \<Longrightarrow>
    end_step direct s (s\<lparr>epc := E_Done, endCalls := endCalls s
      @ [ChangeConnectionState (if direct then endedDrctSMART else uncnnctdToSrv)]\<rparr>)"

inductive_cases upd_stepE: "upd_step s s'"
inductive_cases end_stepE: "end_step direct s s'"

inductive thr_step :: "bool \<Rightarrow> threads \<Rightarrow> threads \<Rightarrow> bool" for direct where
  upd: "upd_step s s' \<Longrightarrow> thr_step direct s s'"
| endt: "end_step direct s s' \<Longrightarrow> thr_step direct s s'"

definition thr_init :: threads where
  "thr_init = \<lparr>upc = U_Get, epc = E_Start, s_updateSMARTvalues = True, getsStarted = 1,
     threadID = 1, endCalls = []\<rparr>"

inductive thr_run :: "bool \<Rightarrow> nat \<Rightarrow> threads \<Rightarrow> threads \<Rightarrow> bool" for direct where
  run_0: "thr_run direct 0 s s"
| run_Suc: "\<lbrakk>thr_run direct n s s'; thr_step direct s' s''\<rbrakk> \<Longrightarrow> thr_run direct (Suc n) s s''"

section \<open>Invariant\<close>

definition thr_inv :: "threads \<Rightarrow> bool" where
  "thr_inv s \<longleftrightarrow>
     (epc s \<in> {E_SetAfterAction, E_Reenable, E_ChangeState} \<longrightarrow> upc s = U_Ended)
   \<and> (epc s = E_Done \<longrightarrow> upc s = U_Ended)
   \<and> (s_updateSMARTvalues s \<longleftrightarrow>
        epc s \<notin> {E_SetWaitAction, E_WaitForTermination, E_SetAfterAction, E_Reenable})"

lemma thr_inv_step: "\<lbrakk>thr_step direct s s'; thr_inv s\<rbrakk> \<Longrightarrow> thr_inv s'"
  by (erule thr_step.cases; erule upd_stepE end_stepE; auto simp: thr_inv_def)

lemma thr_inv_run: "\<lbrakk>thr_run direct n s s'; thr_inv s\<rbrakk> \<Longrightarrow> thr_inv s'"
  by (induction rule: thr_run.induct) (auto intro: thr_inv_step)

section \<open>The end of the thread\<close>

text \<open>Steps that are left once the flag is cleared.\<close>

fun upc_rank :: "upd_pc \<Rightarrow> nat" where
  "upc_rank U_Get = 5" | "upc_rank U_BeforeWait = 4" | "upc_rank U_Wait = 3"
| "upc_rank U_Check = 2" | "upc_rank (U_After r) = 1" | "upc_rank U_Ended = 0"

fun epc_rank :: "end_pc \<Rightarrow> nat" where
  "epc_rank E_SetWaitAction = 5" | "epc_rank E_WaitForTermination = 4" | "epc_rank E_SetAfterAction = 3"
| "epc_rank E_Reenable = 2" | "epc_rank E_ChangeState = 1" | "epc_rank E_Done = 0" | "epc_rank _ = 6"

definition ending :: "threads \<Rightarrow> bool" where
  "ending s \<longleftrightarrow> epc s \<notin> {E_Start, E_Broadcast, E_Clear}"

lemma ending_step:
  assumes "thr_step direct s s'" "thr_inv s" "ending s"
  shows "ending s' \<and> getsStarted s' = getsStarted s
    \<and> upc_rank (upc s') + epc_rank (epc s') < upc_rank (upc s) + epc_rank (epc s)"
  using assms(1)
proof cases
  case upd
  then show ?thesis using assms(2,3)
    by (cases; cases "epc s") (auto simp: ending_def thr_inv_def)
next
  case endt
  then show ?thesis using assms(2,3) by cases (auto simp: ending_def)
qed

lemma ending_progress:
  assumes "thr_inv s" "ending s" "epc s \<noteq> E_Done"
  shows "\<exists>s'. thr_step direct s s'"
proof (cases "epc s = E_WaitForTermination \<and> upc s \<noteq> U_Ended")
  case True
  then have "\<exists>s'. upd_step s s'"
    by (cases "upc s"; cases "s_updateSMARTvalues s") (blast intro: upd_step.intros)+
  then show ?thesis by (blast intro: thr_step.upd)
next
  case False
  then have "\<exists>s'. end_step direct s s'"
    using assms by (cases "epc s") (auto simp: ending_def intro: end_step.intros)
  then show ?thesis by (blast intro: thr_step.endt)
qed

lemma ending_run:
  assumes "thr_run direct n s s'" "thr_inv s" "ending s"
  shows "ending s' \<and> getsStarted s' = getsStarted s
    \<and> n + upc_rank (upc s') + epc_rank (epc s') \<le> upc_rank (upc s) + epc_rank (epc s)"
  using assms
proof (induction rule: thr_run.induct)
  case (run_Suc n s s' s'')
  then show ?case
    using ending_step [OF run_Suc.hyps(2)] thr_inv_run [OF run_Suc.hyps(1)] by fastforce
qed simp


definition thr_cleared :: threads where
  "thr_cleared = \<lparr>upc = U_BeforeWait, epc = E_SetWaitAction, s_updateSMARTvalues = False,
     getsStarted = 1, threadID = 1, endCalls = []\<rparr>"

lemma thr_cleared_reached: "thr_run direct 4 thr_init thr_cleared"
proof -
  let ?s1 = "thr_init\<lparr>epc := E_Broadcast\<rparr>"
  let ?s2 = "?s1\<lparr>epc := E_Clear\<rparr>"
  let ?s3 = "?s2\<lparr>upc := U_BeforeWait\<rparr>"
  have "thr_step direct thr_init ?s1"
    by (rule thr_step.endt, rule end_step.running) (simp_all add: thr_init_def)
  moreover have "thr_step direct ?s1 ?s2"
    using end_step.broadcast [of ?s1 direct] by (auto intro: thr_step.endt simp: thr_init_def)
  moreover have "thr_step direct ?s2 ?s3"
    by (rule thr_step.upd, rule upd_step.get_ok) (simp add: thr_init_def)
  moreover have "thr_step direct ?s3 thr_cleared"
    using end_step.clear [of ?s3 direct]
    by (auto intro: thr_step.endt simp: thr_init_def thr_cleared_def)
  ultimately have "thr_run direct (Suc (Suc (Suc (Suc 0)))) thr_init thr_cleared"
    by (blast intro: thr_run.intros)
  then show ?thesis by (simp add: numeral_eq_Suc)
qed

text \<open>
  The broadcast comes before the flag is cleared: when the thread is in
  \<open>BeforeWait\<close> at that time the signal is lost, and the thread that ends it
  waits until the timeout between two reads (10 seconds) has passed.
\<close>

definition thr_lost :: threads where
  "thr_lost = \<lparr>upc = U_Wait, epc = E_WaitForTermination, s_updateSMARTvalues = False,
     getsStarted = 1, threadID = 1, endCalls = [SetCurrentAction WaitForSMARTupd8ThreadTerm]\<rparr>"

lemma thr_lost_steps: "thr_run direct 2 thr_cleared thr_lost"
proof -
  let ?s1 = "thr_cleared\<lparr>upc := U_Wait\<rparr>"
  have "thr_step direct thr_cleared ?s1"
    by (rule thr_step.upd, rule upd_step.before_wait) (simp add: thr_cleared_def)
  moreover have "thr_step direct ?s1 thr_lost"
    using end_step.set_wait_action [of ?s1 direct]
    by (auto intro: thr_step.endt simp: thr_cleared_def thr_lost_def)
  ultimately have "thr_run direct (Suc (Suc 0)) thr_cleared thr_lost"
    by (blast intro: thr_run.intros)
  then show ?thesis by (simp add: numeral_eq_Suc)
qed


end
