(* ===== verification/Wire.thy ===== *)
theory Wire
  imports UpdateThread
begin

unbundle bit_operations_syntax

text \<open>
  The messages between the service and its clients: \<open>ByteArrayFromString\<close> and
  the sending functions of \<open>service/SMARTmonitorService.cpp\<close>, and the reading
  functions of \<open>client/InterProcComm/BSDskt/SMARTmonUI_BSDskt.cpp\<close>.

  A message is the number of its bytes in two bytes, high byte first, and the
  bytes. A socket is the list of the bytes its reads deliver, up to the first
  read that gives fewer than asked for; \<open>read_delivered\<close> justifies this for any
  function that reads from a socket.
\<close>

section \<open>Framing\<close>

definition htons_bytes :: "16 word \<Rightarrow> byte list" where
  "htons_bytes n = [ucast (drop_bit 8 n), ucast n]"

definition ntohs_bytes :: "byte list \<Rightarrow> 16 word" where
  "ntohs_bytes bs = push_bit 8 (ucast (bs ! 0)) OR ucast (bs ! 1)"

lemma ntohs_htons: "ntohs_bytes (htons_bytes n @ r) = n"
  by (auto simp: ntohs_bytes_def htons_bytes_def bit_word_eqI bit_simps
      intro!: bit_word_eqI)

text \<open>
  The size of the array is computed in 16 bits. With a size below 2 the length
  of the copy, \<open>numOverallBytes - 2\<close>, is negative, a huge \<open>size_t\<close>: no result.
\<close>

definition ByteArrayFromString :: "byte list \<Rightarrow> (byte list \<times> 16 word) option" where
  "ByteArrayFromString xml =
     (let numOverallBytes = of_nat (length xml + 2) :: 16 word
      in if numOverallBytes < 2 then None
         else Some (htons_bytes (of_nat (length xml))
                @ take (unat numOverallBytes - 2) xml, numOverallBytes))"

text \<open>
  An interface of messages on a stream of bytes: what is encoded is decoded
  again, and what follows in the stream is left.
\<close>

locale framing =
  fixes encode :: "'m \<Rightarrow> 'b list option"
    and decode :: "'b list \<Rightarrow> ('m \<times> 'b list) option"
    and valid :: "'m \<Rightarrow> bool"
  assumes decode_encode: "valid m \<Longrightarrow> \<exists>bs. encode m = Some bs \<and> (\<forall>r. decode (bs @ r) = Some (m, r))"
begin

primrec encode_all :: "'m list \<Rightarrow> 'b list option" where
  "encode_all [] = Some []"
| "encode_all (m # ms) = do { bs \<leftarrow> encode m; cs \<leftarrow> encode_all ms; Some (bs @ cs) }"

primrec decode_n :: "nat \<Rightarrow> 'b list \<Rightarrow> ('m list \<times> 'b list) option" where
  "decode_n 0 s = Some ([], s)"
| "decode_n (Suc n) s = do { (m, s1) \<leftarrow> decode s; (ms, s2) \<leftarrow> decode_n n s1; Some (m # ms, s2) }"

lemma stream_roundtrip:
  "\<forall>m\<in>set ms. valid m \<Longrightarrow>
    \<exists>bs. encode_all ms = Some bs \<and> (\<forall>r. decode_n (length ms) (bs @ r) = Some (ms, r))"
proof (induction ms)
  case (Cons m ms)
  obtain bs where b: "encode m = Some bs" "\<And>r. decode (bs @ r) = Some (m, r)"
    using decode_encode [of m] Cons.prems by auto
  obtain cs where c: "encode_all ms = Some cs" "\<And>r. decode_n (length ms) (cs @ r) = Some (ms, r)"
    using Cons by auto
  show ?case by (simp add: b c)
qed simp

end

section \<open>Reading\<close>

text \<open>
  \<open>ReadNumFollowingBytes\<close>: the number or -1, the number of bytes read on an
  error, and the rest of the stream.
\<close>

datatype TransmissionError = numBytesToReceive | SMARTdata | SMARTparameterValues

datatype net_call =
    NetAction CurrentAction
  | NetTransmissionError TransmissionError nat nat
  | NetChangeState serverConnectionState
  | NetCountDown int
  | NetCloseSocket
  | NetMessage string

text \<open>
  \<open>HandleTransmissionError\<close>: the message, then the state, then the count down
  to the next attempt. The texts of the operating system are not modelled.
\<close>

definition HandleTransmissionError :: "TransmissionError \<Rightarrow> nat \<Rightarrow> nat \<Rightarrow> net_call list" where
  "HandleTransmissionError e numBread numBtoRead =
     [NetTransmissionError e numBread numBtoRead, NetChangeState uncnnctdToSrv, NetCountDown (- 1)]"

definition ReadNumFollowingBytes :: "byte list \<Rightarrow> int \<times> net_call list \<times> byte list" where
  "ReadNumFollowingBytes s =
     (if length s < 2 then (- 1, HandleTransmissionError numBytesToReceive (length s) 2, [])
      else (uint (ntohs_bytes s), [], drop 2 s))"

text \<open>
  The part of \<open>GetSMARTattrValsFromSrv\<close> and of \<open>GetSupportedSMARTidsFromSrv\<close>
  that reads one message: the bytes, or the return value for an error. The 2
  after a short read in the second function is \<open>unsetTransmResult\<close>.
\<close>

definition readValuesMessage :: "byte list \<Rightarrow> (nat + byte list) \<times> net_call list \<times> byte list" where
  "readValuesMessage s =
     (case ReadNumFollowingBytes s of (n, calls, s1) \<Rightarrow>
        let c0 = NetAction readNumBytesForSMARTdata # calls in
        if n < 1 then (Inl 1, c0, s1)
        else (let xml = take (nat n) s1;
                  c1 = c0 @ [NetAction readSMARTvaluesXMLdata, NetAction hasReadSMARTvaluesXMLdata]
              in if length xml < nat n
                 then (Inl 1, c1 @ HandleTransmissionError SMARTparameterValues (length xml) (nat n), [])
                 else (Inr xml, c1, drop (nat n) s1)))"

definition readSuppIDsMessage :: "byte list \<Rightarrow> (nat + byte list) \<times> net_call list \<times> byte list" where
  "readSuppIDsMessage s =
     (case ReadNumFollowingBytes s of (n, calls, s1) \<Rightarrow>
        let c0 = NetAction readNumBytesForSuppSMART_IDs # calls in
        if n < 1 then (Inl 1, c0, s1)
        else (let xml = take (nat n) s1;
                  c1 = c0 @ [NetMessage (''# of bytes for supported SMART IDs: '' @ dec (nat n)),
                             NetAction readSuppSMART_IDsXMLdata]
              in if length xml < nat n
                 then (Inl 2, c1 @ HandleTransmissionError SMARTdata (length xml) (nat n), [])
                 else (Inr xml, c1, drop (nat n) s1)))"

text \<open>
  The same with the function that reads from the socket, \<open>readFromSocket2\<close> of
  another repository, as a parameter: \<open>rd s n\<close> gives for the state \<open>s\<close> of the
  connection the bytes it has read, at most \<open>n\<close> but maybe fewer, and the next
  state.
\<close>

definition ReadNumFollowingBytes_rd :: "('s \<Rightarrow> nat \<Rightarrow> byte list \<times> 's) \<Rightarrow> 's \<Rightarrow> int \<times> net_call list \<times> 's" where
  "ReadNumFollowingBytes_rd rd s =
     (case rd s 2 of (bs, s1) \<Rightarrow>
        if length bs < 2 then (- 1, HandleTransmissionError numBytesToReceive (length bs) 2, s1)
        else (uint (ntohs_bytes bs), [], s1))"

definition readValuesMessage_rd :: "('s \<Rightarrow> nat \<Rightarrow> byte list \<times> 's) \<Rightarrow> 's \<Rightarrow> (nat + byte list) \<times> net_call list \<times> 's" where
  "readValuesMessage_rd rd s =
     (case ReadNumFollowingBytes_rd rd s of (n, calls, s1) \<Rightarrow>
        let c0 = NetAction readNumBytesForSMARTdata # calls in
        if n < 1 then (Inl 1, c0, s1)
        else (case rd s1 (nat n) of (xml, s2) \<Rightarrow>
                let c1 = c0 @ [NetAction readSMARTvaluesXMLdata, NetAction hasReadSMARTvaluesXMLdata]
                in if length xml < nat n
                   then (Inl 1, c1 @ HandleTransmissionError SMARTparameterValues (length xml) (nat n), s2)
                   else (Inr xml, c1, s2)))"

definition readSuppIDsMessage_rd :: "('s \<Rightarrow> nat \<Rightarrow> byte list \<times> 's) \<Rightarrow> 's \<Rightarrow> (nat + byte list) \<times> net_call list \<times> 's" where
  "readSuppIDsMessage_rd rd s =
     (case ReadNumFollowingBytes_rd rd s of (n, calls, s1) \<Rightarrow>
        let c0 = NetAction readNumBytesForSuppSMART_IDs # calls in
        if n < 1 then (Inl 1, c0, s1)
        else (case rd s1 (nat n) of (xml, s2) \<Rightarrow>
                let c1 = c0 @ [NetMessage (''# of bytes for supported SMART IDs: '' @ dec (nat n)),
                               NetAction readSuppSMART_IDsXMLdata]
                in if length xml < nat n
                   then (Inl 2, c1 @ HandleTransmissionError SMARTdata (length xml) (nat n), s2)
                   else (Inr xml, c1, s2)))"

text \<open>
  Whatever the reads deliver, a message is read as from a stream of the bytes
  delivered for it, up to the first read that is short: in the other theories a
  socket stands for these bytes, and a short read is the end of the list.
\<close>

lemma ntohs_bytes_append: "2 \<le> length bs \<Longrightarrow> ntohs_bytes (bs @ r) = ntohs_bytes bs"
  by (cases bs) (auto simp: ntohs_bytes_def nth_append)

lemma read_delivered:
  assumes "\<And>s n. length (fst (rd s n)) \<le> n"
  shows "\<exists>bs. fst (readValuesMessage bs) = fst (readValuesMessage_rd rd s)
      \<and> fst (snd (readValuesMessage bs)) = fst (snd (readValuesMessage_rd rd s))"
    "\<exists>bs. fst (readSuppIDsMessage bs) = fst (readSuppIDsMessage_rd rd s)
      \<and> fst (snd (readSuppIDsMessage bs)) = fst (snd (readSuppIDsMessage_rd rd s))"
proof -
  obtain b1 s1 where r1: "rd s 2 = (b1, s1)" by (cases "rd s 2")
  obtain b2 s2 where r2: "rd s1 (unat (ntohs_bytes b1)) = (b2, s2)" by (cases "rd s1 (unat (ntohs_bytes b1))")
  have l: "length b1 \<le> 2" "length b2 \<le> unat (ntohs_bytes b1)"
    using assms [of s 2] assms [of s1 "unat (ntohs_bytes b1)"] r1 r2 by simp_all
  define bs where "bs = (if length b1 < 2 then b1 else b1 @ b2)"
  have d: "\<not> length b1 < 2 \<Longrightarrow> drop 2 bs = b2 \<and> ntohs_bytes bs = ntohs_bytes b1 \<and> \<not> length bs < 2"
    using l(1) ntohs_bytes_append [of b1 b2] by (simp add: bs_def)
  show "\<exists>bs. fst (readValuesMessage bs) = fst (readValuesMessage_rd rd s)
      \<and> fst (snd (readValuesMessage bs)) = fst (snd (readValuesMessage_rd rd s))"
    using d l(2) by (intro exI [of _ bs]; cases "length b1 < 2")
      (simp_all add: readValuesMessage_def readValuesMessage_rd_def ReadNumFollowingBytes_def
        ReadNumFollowingBytes_rd_def r1 r2 Let_def bs_def)
  show "\<exists>bs. fst (readSuppIDsMessage bs) = fst (readSuppIDsMessage_rd rd s)
      \<and> fst (snd (readSuppIDsMessage bs)) = fst (snd (readSuppIDsMessage_rd rd s))"
    using d l(2) by (intro exI [of _ bs]; cases "length b1 < 2")
      (simp_all add: readSuppIDsMessage_def readSuppIDsMessage_rd_def ReadNumFollowingBytes_def
        ReadNumFollowingBytes_rd_def r1 r2 Let_def bs_def)
qed

text \<open>The messages as the client's functions decode them.\<close>

definition wire_encode :: "byte list \<Rightarrow> byte list option" where
  "wire_encode xml = map_option fst (ByteArrayFromString xml)"

definition wire_decode :: "byte list \<Rightarrow> (byte list \<times> byte list) option" where
  "wire_decode s = (case readValuesMessage s of (Inr xml, _, s1) \<Rightarrow> Some (xml, s1) | _ \<Rightarrow> None)"

definition wire_valid :: "byte list \<Rightarrow> bool" where
  "wire_valid xml \<longleftrightarrow> xml \<noteq> [] \<and> length xml \<le> 65533"

lemma ByteArray_valid:
  assumes "length xml \<le> 65533"
  shows "ByteArrayFromString xml =
    Some (htons_bytes (of_nat (length xml)) @ xml, of_nat (length xml + 2))"
proof -
  have u: "unat (of_nat (length xml + 2) :: 16 word) = length xml + 2"
    using assms by (simp only: unat_of_nat) simp
  then have "\<not> of_nat (length xml + 2) < (2 :: 16 word)"
    by (simp only: word_less_nat_alt) simp
  then show ?thesis unfolding ByteArrayFromString_def Let_def u by simp
qed

interpretation wire: framing wire_encode wire_decode wire_valid
proof
  fix m assume "wire_valid m"
  then have v: "m \<noteq> []" "length m \<le> 65533" by (simp_all add: wire_valid_def)
  have n: "uint (of_nat (length m) :: 16 word) = int (length m)"
    using v(2) by (simp only: uint_nat unat_of_nat) simp
  have "ReadNumFollowingBytes ((htons_bytes (of_nat (length m)) @ m) @ r) = (int (length m), [], m @ r)" for r
    using ntohs_htons [of "of_nat (length m)" "m @ r"] n
    by (simp add: ReadNumFollowingBytes_def) (simp add: htons_bytes_def)
  then have "wire_decode ((htons_bytes (of_nat (length m)) @ m) @ r) = Some (m, r)" for r
    using v(1) by (simp add: wire_decode_def readValuesMessage_def Suc_le_eq)
  then show "\<exists>bs. wire_encode m = Some bs \<and> (\<forall>r. wire_decode (bs @ r) = Some (m, r))"
    using ByteArray_valid [OF v(2)] by (intro exI conjI) (auto simp: wire_encode_def)
qed

section \<open>Properties\<close>



text \<open>
  Longer messages: from 65534 bytes on the 16 bit size wraps. Two lengths have
  no array at all; from 65536 on the frame announces and holds only the first
  bytes of the message.
\<close>

lemma ByteArray_overflow:
  "length xml \<in> {65534, 65535} \<Longrightarrow> ByteArrayFromString xml = None"
proof -
  assume "length xml \<in> {65534, 65535}"
  then have "length xml + 2 = 65536 \<or> length xml + 2 = 65537" by auto
  then have "(of_nat (length xml + 2) :: 16 word) < 2" by (elim disjE; simp only:) simp_all
  then show ?thesis unfolding ByteArrayFromString_def Let_def by (simp only: if_True)
qed

lemma ByteArray_truncated:
  assumes "length xml = 65536 + n" "n \<le> 65533"
  shows "ByteArrayFromString xml = Some (htons_bytes (of_nat n) @ take n xml, of_nat (n + 2))"
proof -
  have w: "(of_nat (length xml + 2) :: 16 word) = of_nat (n + 2)"
    "(of_nat (length xml) :: 16 word) = of_nat n"
    by (simp_all add: assms(1))
  have u: "unat (of_nat (n + 2) :: 16 word) = n + 2"
    using assms(2) by (simp only: unat_of_nat) simp
  then have "\<not> of_nat (n + 2) < (2 :: 16 word)"
    by (simp only: word_less_nat_alt) simp
  then show ?thesis unfolding ByteArrayFromString_def Let_def w u by (simp only: if_False) simp
qed

end
