(* ===== verification/Service.thy ===== *)
theory Service
  imports Wire
begin

unbundle bit_operations_syntax

text \<open>
  \<open>service/SMARTmonitorService.cpp\<close>: the clients of the service, the XML texts
  it makes of the drives, and whom it sends them to.

  Writing to a socket is the argument \<open>wr\<close>; a write of fewer bytes than
  intended counts as success, as in the source, where only a negative result is
  an error. The texts are characters and are sent as bytes.
\<close>

datatype BindAndListenRetCode = listeningToSocket | bind_unset | failedToBindToSocket
  | failedToListenToSocket

definition BindAndListenToSocket :: "bool \<Rightarrow> bool \<Rightarrow> BindAndListenRetCode" where
  "BindAndListenToSocket bound listens =
     (if \<not> bound then failedToBindToSocket
      else if listens then listeningToSocket else failedToListenToSocket)"

text \<open>
  The main function of the service: its exit code, and whether the update
  thread was started and clients were accepted.
\<close>

definition service_main :: "cmdLineRtrn \<Rightarrow> bool \<Rightarrow> InitSMARTretCode \<Rightarrow> BindAndListenRetCode \<Rightarrow> int \<times> bool" where
  "service_main cmd loggerOK init bindRes =
     (if cmd \<noteq> sccssfllyParsedAllCmdLneArgs then (1, False)
      else if \<not> loggerOK then (2, False)
      else (0, init = init_success \<and> bindRes = listeningToSocket))"

section \<open>Clients\<close>

datatype SocketSendReturnCodes = successfullyWroteAllBytes | readingEndOfSocketClosed
  | wroteLessBytesThanIntended | SocketSendReturnCode_Unset

datatype write_result = Wrote | WriteEPIPE | WriteError

definition string_bytes :: "string \<Rightarrow> byte list" where
  "string_bytes s = map (\<lambda>c. of_nat (of_char c)) s"

definition SendBytesTo1Client :: "(int \<Rightarrow> byte list \<Rightarrow> write_result) \<Rightarrow> int \<Rightarrow> string
    \<Rightarrow> SocketSendReturnCodes option" where
  "SendBytesTo1Client wr fd xml =
     (case ByteArrayFromString (string_bytes xml) of
        None \<Rightarrow> None
      | Some (arr, n) \<Rightarrow> Some (case wr fd arr of
            Wrote \<Rightarrow> successfullyWroteAllBytes
          | WriteEPIPE \<Rightarrow> readingEndOfSocketClosed
          | WriteError \<Rightarrow> wroteLessBytesThanIntended))"

definition RemoveFileDescsOfBrokenSocketConns :: "int list \<Rightarrow> int list \<Rightarrow> int list" where
  "RemoveFileDescsOfBrokenSocketConns del clients = fold removeAll del clients"

fun send_loop :: "(int \<Rightarrow> byte list \<Rightarrow> write_result) \<Rightarrow> string \<Rightarrow> int list \<Rightarrow> int list \<Rightarrow> int list option" where
  "send_loop wr xml [] del = Some del"
| "send_loop wr xml (fd # fds) del =
     (case SendBytesTo1Client wr fd xml of
        None \<Rightarrow> None
      | Some r \<Rightarrow> send_loop wr xml fds (if r \<noteq> successfullyWroteAllBytes then del @ [fd] else del))"

text \<open>The array that is made first is not sent; each client gets its own.\<close>

definition SendBytesToAllClients :: "(int \<Rightarrow> byte list \<Rightarrow> write_result) \<Rightarrow> string \<Rightarrow> int list
    \<Rightarrow> int list option" where
  "SendBytesToAllClients wr xml clients =
     do { _ \<leftarrow> ByteArrayFromString (string_bytes xml);
          del \<leftarrow> send_loop wr xml clients [];
          Some (RemoveFileDescsOfBrokenSocketConns del clients) }"

definition AddClient :: "int \<Rightarrow> int list \<Rightarrow> int list" where
  "AddClient fd clients = set_insert (<) fd clients"

definition CloseAllClientSockets :: "int list \<Rightarrow> int list" where
  "CloseAllClientSockets clients = clients"

interpretation fds: strict_weak_order "(<) :: int \<Rightarrow> int \<Rightarrow> bool"
  by unfold_locales auto

section \<open>XML texts\<close>

text \<open>\<open>std::fixed\<close> with three digits after the point.\<close>

definition fixed3 :: "rat \<Rightarrow> string" where
  "fixed3 x = (let n = nat (rne (x * 1000))
     in dec (n div 1000) @ ''.'' @ dec (n div 100 mod 10) @ dec (n div 10 mod 10) @ dec (n mod 10))"

definition xml_attr :: "string \<times> string \<Rightarrow> string" where
  "xml_attr a = '' '' @ fst a @ ''=\"'' @ snd a @ ''\"''"

definition carrier_attrs :: "SMARTuniqueID \<Rightarrow> (string \<times> string) list" where
  "carrier_attrs u = [(''model'', cstr (modelName u)), (''firmware'', cstr (firmWareName u)),
     (''serial_number'', cstr (serialNumber u))]"

definition carrier_begin :: "SMARTuniqueID \<Rightarrow> string" where
  "carrier_begin u = ''<data_carrier'' @ concat (map xml_attr (carrier_attrs u)) @ ''>''"

definition carrier_end :: string where "carrier_end = ''</data_carrier>''"

text \<open>The attributes of the element of one value, for a time in milliseconds.\<close>

definition entry_attrs :: "SMARTuniqueID \<Rightarrow> attr_id \<Rightarrow> 64 word \<Rightarrow> rat \<Rightarrow> (string \<times> string) list" where
  "entry_attrs u i raw fTimeInS =
     [(''ID'', dec i), (''raw_value'', dec (unat raw)), (''time_in_s'', fixed3 fTimeInS)]
     @ (let unit = units u i; MSB = GetBitMaskForMostSignificantBit in
        if unit \<noteq> 0
        then [(''unit'', if unit AND MSB \<noteq> 0 then ''>'' @ dec_int (sint (unit AND NOT MSB))
                         else dec_int (sint unit))]
        else [])
     @ (if lowerUnitBound u i \<noteq> 0
        then [(''lower_unit_bound'', dec_int (sint (lowerUnitBound u i)))] else [])
     @ (if upperUnitBound u i \<noteq> 0
        then [(''upper_unit_bound'', dec_int (sint (upperUnitBound u i)))] else [])"

definition entry_text :: "(string \<times> string) list \<Rightarrow> string" where
  "entry_text as = ''<SMART'' @ concat (map xml_attr as) @ ''/>''"

definition retrieval_seconds :: "'l::len word SMARTattr \<Rightarrow> rat" where
  "retrieval_seconds a =
     (case GetRetrievalTime a of (ok, ms) \<Rightarrow>
        if ok then f32 (f32 (of_int (uint ms)) / 1000) else 0)"

definition drive_entry :: "'u::len itself \<Rightarrow> 'l::len word SMARTuniqueIDandValues \<Rightarrow> attr_id \<Rightarrow> string" where
  "drive_entry T d i =
     (let a = m_SMARTattrs d i; (consistent, raw) = IsConsistent T a
      in if successfullyReadSMARTrawValue a \<noteq> 0 \<and> consistent
         then entry_text (entry_attrs (m_SMARTuniqueID d) i raw (retrieval_seconds a)) else [])"

definition drive_text :: "'u::len itself \<Rightarrow> hw_sizes \<Rightarrow> 'l::len word SMARTuniqueIDandValues \<Rightarrow> string option" where
  "drive_text T h d =
     map_option (\<lambda>ids. carrier_begin (m_SMARTuniqueID d) @ concat (map (drive_entry T d) ids) @ carrier_end)
       (IDsToRead_from h (m_SMARTuniqueID d) 0)"

section \<open>Sending\<close>

text \<open>
  \<open>BeforeWait\<close>: the text stream \<open>oss\<close> is one for all drives and is not cleared
  between them. The result is the clients that are left and the texts sent.
\<close>

fun BeforeWait_loop :: "'u::len itself \<Rightarrow> hw_sizes \<Rightarrow> (int \<Rightarrow> byte list \<Rightarrow> write_result)
    \<Rightarrow> 'l::len word SMARTuniqueIDandValues list \<Rightarrow> string \<Rightarrow> int list \<Rightarrow> (int list \<times> string list) option" where
  "BeforeWait_loop T h wr [] oss clients = Some (clients, [])"
| "BeforeWait_loop T h wr (d # ds) oss clients =
     do { t \<leftarrow> drive_text T h d;
          let oss' = oss @ t;
          clients1 \<leftarrow> SendBytesToAllClients wr oss' clients;
          (clients2, msgs) \<leftarrow> BeforeWait_loop T h wr ds oss' clients1;
          Some (clients2, oss' # msgs) }"

definition BeforeWait :: "'u::len itself \<Rightarrow> hw_sizes \<Rightarrow> (int \<Rightarrow> byte list \<Rightarrow> write_result)
    \<Rightarrow> 'l::len word SMARTuniqueIDandValues list \<Rightarrow> int list \<Rightarrow> (int list \<times> string list) option" where
  "BeforeWait T h wr drives clients = BeforeWait_loop T h wr drives [] clients"

fun comma_list :: "attr_id list \<Rightarrow> string" where
  "comma_list [] = []"
| "comma_list [i] = dec i"
| "comma_list (i # j # is) = dec i @ '','' @ comma_list (j # is)"

text \<open>
  \<open>supp\<close> gives the supported attributes of a drive whose device path is known.
  Also here the text stream is not cleared between the drives.
\<close>

fun SendSupported_loop :: "(SMARTuniqueID \<Rightarrow> attr_id list option) \<Rightarrow> (int \<Rightarrow> byte list \<Rightarrow> write_result)
    \<Rightarrow> int \<Rightarrow> SMARTuniqueID list \<Rightarrow> string \<Rightarrow> string list option" where
  "SendSupported_loop supp wr fd [] oss = Some []"
| "SendSupported_loop supp wr fd (u # us) oss =
     (case supp u of
        None \<Rightarrow> SendSupported_loop supp wr fd us oss
      | Some ids \<Rightarrow>
          if ids = [] then SendSupported_loop supp wr fd us oss
          else (let oss' = oss @ carrier_begin u @ ''<supportedSMART_IDs>'' @ comma_list ids
                             @ ''</supportedSMART_IDs>'' @ carrier_end
                in do { _ \<leftarrow> SendBytesTo1Client wr fd oss';
                        msgs \<leftarrow> SendSupported_loop supp wr fd us oss';
                        Some (oss' # msgs) }))"

definition SendSupportedSMART_IDsToClient :: "(SMARTuniqueID \<Rightarrow> attr_id list option)
    \<Rightarrow> (int \<Rightarrow> byte list \<Rightarrow> write_result) \<Rightarrow> int \<Rightarrow> SMARTuniqueID list \<Rightarrow> string list option" where
  "SendSupportedSMART_IDsToClient supp wr fd us = SendSupported_loop supp wr fd us []"

text \<open>
  The thread that accepts clients, over the results of \<open>accept\<close> and the values
  the flag has after each of them; the result is the clients whose sockets are
  closed at the end.
\<close>

fun ClientConnThreadFunc :: "(SMARTuniqueID \<Rightarrow> attr_id list option) \<Rightarrow> (int \<Rightarrow> byte list \<Rightarrow> write_result)
    \<Rightarrow> SMARTuniqueID list \<Rightarrow> (int \<times> bool) list \<Rightarrow> int list \<Rightarrow> int list option" where
  "ClientConnThreadFunc supp wr us [] clients = Some clients"
| "ClientConnThreadFunc supp wr us ((fd, upd) # acc) clients =
     do { clients1 \<leftarrow> (if fd < 0 then Some clients
            else do { _ \<leftarrow> SendSupportedSMART_IDsToClient supp wr fd us;
                      Some (AddClient fd clients) });
          if upd then ClientConnThreadFunc supp wr us acc clients1
          else Some (CloseAllClientSockets clients1) }"

section \<open>Properties\<close>

lemma send_loop_result:
  assumes "length xml \<le> 65533"
  shows "send_loop wr xml fds del =
    Some (del @ filter (\<lambda>fd. wr fd (the (wire_encode (string_bytes xml))) \<noteq> Wrote) fds)"
proof (induction fds arbitrary: del)
  case (Cons fd fds)
  then show ?case using ByteArray_valid [of "string_bytes xml"] assms
    by (cases "wr fd (htons_bytes (of_nat (length xml)) @ string_bytes xml)")
      (simp_all add: SendBytesTo1Client_def wire_encode_def string_bytes_def)
qed simp

lemma fold_removeAll: "fold removeAll del xs = filter (\<lambda>x. x \<notin> set del) xs"
proof (induction del arbitrary: xs)
  case (Cons d del)
  then show ?case by (simp add: removeAll_filter_not_eq) (metis (lifting))
qed simp

lemma SendBytesToAllClients_result:
  assumes "length xml \<le> 65533"
  shows "SendBytesToAllClients wr xml clients =
    Some (filter (\<lambda>fd. wr fd (the (wire_encode (string_bytes xml))) = Wrote) clients)"
  using ByteArray_valid [of "string_bytes xml"] assms
  by (auto simp: SendBytesToAllClients_def send_loop_result RemoveFileDescsOfBrokenSocketConns_def
      fold_removeAll string_bytes_def intro: filter_cong)

lemma BeforeWait_loop_result:
  assumes "list_all2 (\<lambda>d t. drive_text T h d = Some t) ds ts" "length (oss @ concat ts) \<le> 65533"
  shows "BeforeWait_loop T h wr ds oss clients = Some
    (filter (\<lambda>fd. \<forall>k<length ts. wr fd (the (wire_encode (string_bytes (oss @ concat (take (Suc k) ts))))) = Wrote) clients,
     map (\<lambda>k. oss @ concat (take (Suc k) ts)) [0..<length ts])"
  using assms
proof (induction ds ts arbitrary: oss clients rule: list_all2_induct)
  case (Cons d ds t ts)
  have all: "(\<forall>k<Suc n. P k) \<longleftrightarrow> P 0 \<and> (\<forall>k<n. P (Suc k))" for P :: "nat \<Rightarrow> bool" and n
    by (auto simp: less_Suc_eq_0_disj)
  have upt: "[0..<Suc n] = 0 # map Suc [0..<n]" for n
    by (simp add: map_Suc_upt upt_conv_Cons)
  have "length (oss @ t) \<le> 65533" using Cons.prems by simp
  note s = SendBytesToAllClients_result [OF this]
  show ?case
    using Cons.IH [of "oss @ t"] Cons.prems Cons.hyps(1)
    by (simp add: s all upt Let_def comp_def del: upt_Suc)
qed simp

text \<open>
  C34: What the service sends after each read of the drives: one text per drive,
  in order, but each text is that of all drives up to this one, as the stream is
  never cleared; the clients that are kept are exactly those to which every one
  of these texts could be written. It holds while the texts together fit into
  one message.
\<close>

theorem BeforeWait_messages:
  assumes "list_all2 (\<lambda>d t. drive_text T h d = Some t) drives ts" "length (concat ts) \<le> 65533"
  shows "BeforeWait T h wr drives clients = Some
    (filter (\<lambda>fd. \<forall>k<length ts. wr fd (the (wire_encode (string_bytes (concat (take (Suc k) ts))))) = Wrote) clients,
     map (\<lambda>k. concat (take (Suc k) ts)) [0..<length ts])"
  using BeforeWait_loop_result [of T h drives ts "[]" wr clients] assms by (simp add: BeforeWait_def)

lemma drive_text_example:
  "drive_text TYPE(64) std_sizes drive_example = Some (carrier_begin blank_uid @ carrier_end)"
proof -
  have "IDsToRead_from std_sizes blank_uid 0 = Some []"
    by (subst IDsToRead_id_list)
      (simp_all add: blank_uid_def initAttrVals_def std_sizes_def id_list_def numeral_eq_Suc)
  then show ?thesis by (simp add: drive_text_def drive_example_def)
qed

lemma carrier_example_length: "length (carrier_begin blank_uid @ carrier_end) \<le> 100"
  by (simp add: carrier_begin_def carrier_attrs_def carrier_end_def xml_attr_def blank_uid_def
      initAttrVals_def cstr_def numeral_eq_Suc)

theorem BeforeWait_messages_witness:
  "let t = carrier_begin blank_uid @ carrier_end in
    BeforeWait TYPE(64) std_sizes (\<lambda>fd _. if fd = 4 then Wrote else WriteEPIPE)
      [drive_example, drive_example] [4, 5] = Some ([4], [t, t @ t])"
proof -
  let ?t = "carrier_begin blank_uid @ carrier_end"
  have "length (concat [?t, ?t]) \<le> 65533" using carrier_example_length by simp
  moreover have "[0..<length [?t, ?t]] = [0, 1]" by (simp add: upt_rec)
  moreover have "\<exists>k. k < Suc (Suc 0)" by (rule exI [of _ 0]) simp
  ultimately show ?thesis
    using BeforeWait_messages [of "TYPE(64)" std_sizes "[drive_example, drive_example]" "[?t, ?t]"
        "\<lambda>fd _. if fd = 4 then Wrote else WriteEPIPE" "[4, 5]"] drive_text_example
    by simp
qed

end
