(* ===== verification/XmlData.thy ===== *)
theory XmlData
  imports Service AtaAccess
begin

unbundle bit_operations_syntax

text \<open>
  \<open>tinyxml2/ProcessSMARTdata.cpp\<close> and \<open>GetSMARTattrValsFromSrv\<close> of
  \<open>client/InterProcComm/BSDskt/SMARTmonUI_BSDskt.cpp\<close>: what the client makes of
  the XML texts of the service.

  The parser of tinyxml2 and its conversions of texts to numbers are
  parameters; what it returns, an element with attributes, text and children,
  is the type \<open>xml\<close>.
\<close>

datatype xml = XML (xml_name: string) (xml_attrs: "(string \<times> string) list")
  (xml_text: "string option") (xml_children: "xml list")

record xml_env =
  parseXML :: "byte list \<Rightarrow> xml option option"
  toInt :: "string \<Rightarrow> int option"
  toInt64 :: "string \<Rightarrow> int option"
  toFloat :: "string \<Rightarrow> rat option"
  atol :: "string \<Rightarrow> int"
  convertToTypename :: "string \<Rightarrow> nat option"

definition attribute :: "xml \<Rightarrow> string \<Rightarrow> string option" where
  "attribute e n = map_of (xml_attrs e) n"

definition numAttribute :: "(string \<Rightarrow> 'n option) \<Rightarrow> xml \<Rightarrow> string \<Rightarrow> 'n \<Rightarrow> 'n" where
  "numAttribute conv e n dflt =
     (case attribute e n of None \<Rightarrow> dflt | Some s \<Rightarrow> opt_default dflt (conv s))"

text \<open>The identification of the data carrier; False when one of the three attributes is missing.\<close>

definition GetSMARTuniqueID_xml :: "hw_sizes \<Rightarrow> xml \<Rightarrow> SMARTuniqueID \<Rightarrow> bool \<times> SMARTuniqueID" where
  "GetSMARTuniqueID_xml h e u =
     (case (attribute e ''model'', attribute e ''firmware'', attribute e ''serial_number'') of
        (Some m, Some f, Some s) \<Rightarrow>
          (True, SetSerialNumber h s (SetFirmwareName h f (SetModelName h m u)))
      | _ \<Rightarrow> (False, u))"

text \<open>
  \<open>numDifferentSMART_IDsPlus1\<close> is the number of elements of the arrays: the
  check lets the first index behind them pass.
\<close>

definition CheckSMARTidRange :: "hw_sizes \<Rightarrow> int \<Rightarrow> int" where
  "CheckSMARTidRange h i = (if int (numMaxATAplus1 h) < i then 1 else if i < 0 then - 1 else 0)"

definition unit_of_text :: "(string \<Rightarrow> int) \<Rightarrow> string \<Rightarrow> 64 word" where
  "unit_of_text al s =
     (if hd s = CHR ''>'' then setGreaterBit 0 OR word_of_int (al (tl s)) else word_of_int (al s))"

text \<open>
  One value. None is an access behind the arrays. The time of retrieval, a
  \<open>float\<close> in seconds, becomes milliseconds in \<open>SetRetrievalTime\<close>. The raw value
  is stored in both representations of the attribute.
\<close>

definition HandleSingleSMARTentry :: "xml_env \<Rightarrow> hw_sizes \<Rightarrow> xml \<Rightarrow> 'l::len word SMARTuniqueIDandValues
    \<Rightarrow> 'l word SMARTuniqueIDandValues option" where
  "HandleSingleSMARTentry X h e d =
     (let i = numAttribute (toInt X) e ''ID'' 0 in
      if CheckSMARTidRange h i \<noteq> 0 then Some d
      else if numMaxATAplus1 h \<le> nat i then None
      else (let k = nat i; raw = numAttribute (toInt64 X) e ''raw_value'' 0; a = m_SMARTattrs d k;
                setA = (\<lambda>a'. d\<lparr>m_SMARTattrs := (m_SMARTattrs d)(k := a')\<rparr>)
            in if raw < 0 then Some (setA (a\<lparr>successfullyReadSMARTrawValue := 0\<rparr>))
               else (let u = m_SMARTuniqueID d;
                         u1 = u\<lparr>lowerUnitBound := (lowerUnitBound u)(k :=
                                  word_of_int (numAttribute (toInt64 X) e ''lower_unit_bound'' 0)),
                                upperUnitBound := (upperUnitBound u)(k :=
                                  word_of_int (numAttribute (toInt64 X) e ''upper_unit_bound'' 0))\<rparr>;
                         u2 = (case attribute e ''unit'' of
                                 Some s \<Rightarrow> if s \<noteq> [] then u1\<lparr>units := (units u1)(k := unit_of_text (atol X) s)\<rparr> else u1
                               | None \<Rightarrow> u1);
                         t = numAttribute (toFloat X) e ''time_in_s'' 0;
                         a1 = SetRetrievalTime (of_nat (nat \<lfloor>t * 1000\<rfloor>))
                                (a\<lparr>successfullyReadSMARTrawValue := 1\<rparr>);
                         a2 = (setRawVal (word_of_int raw) a1)\<lparr>m_rawValue := raw\<rparr>
                     in Some ((setA a2)\<lparr>m_SMARTuniqueID := u2\<rparr>))))"

text \<open>All elements \<open>SMART\<close> below the root, in their order.\<close>

fun handle_entries :: "xml_env \<Rightarrow> hw_sizes \<Rightarrow> xml list \<Rightarrow> 'l::len word SMARTuniqueIDandValues
    \<Rightarrow> 'l word SMARTuniqueIDandValues option" where
  "handle_entries X h [] d = Some d"
| "handle_entries X h (e # es) d =
     (case HandleSingleSMARTentry X h e d of None \<Rightarrow> None | Some d1 \<Rightarrow> handle_entries X h es d1)"

definition GetSMARTrawValues :: "xml_env \<Rightarrow> hw_sizes \<Rightarrow> xml \<Rightarrow> 'l::len word SMARTuniqueIDandValues
    \<Rightarrow> 'l word SMARTuniqueIDandValues option" where
  "GetSMARTrawValues X h e d = handle_entries X h (filter (\<lambda>c. xml_name c = ''SMART'') (xml_children e)) d"

definition getXMLdoc :: "xml_env \<Rightarrow> byte list \<Rightarrow> xml option" where
  "getXMLdoc X data = (case parseXML X data of Some (Some rt) \<Rightarrow> Some rt | _ \<Rightarrow> None)"

text \<open>
  \<open>GetSMARTattrValsFromSrv\<close>: one message changes the drive of the set that is
  equivalent to the one the message names; a drive that is not in the set is
  inserted, as a copy. An object before its constructor has run is \<open>d0\<close>; a
  message that is no XML document inserts a copy of a new object.
\<close>

definition GetSMARTattrValsFromSrv :: "xml_env \<Rightarrow> hw_sizes \<Rightarrow> 'l::len word SMARTuniqueIDandValues
    \<Rightarrow> byte list \<Rightarrow> 'l word SMARTuniqueIDandValues list
    \<Rightarrow> (nat \<times> net_call list \<times> byte list \<times> 'l word SMARTuniqueIDandValues list) option" where
  "GetSMARTattrValsFromSrv X h d0 sock drives =
     (case readValuesMessage sock of (res, calls, sock1) \<Rightarrow>
        (case res of
           Inl r \<Rightarrow> Some (r, calls, sock1, drives)
         | Inr xml \<Rightarrow>
             (case getXMLdoc X xml of
                None \<Rightarrow> Some (0, calls, sock1, set_insert (drive_less h) (drive_copy h d0 d0) drives)
              | Some rt \<Rightarrow>
                  (let u = snd (GetSMARTuniqueID_xml h rt (m_SMARTuniqueID d0));
                       d = drive_copy h d0 (SetDataCarrierID h u d0);
                       drives1 = set_insert (drive_less h) d drives
                   in case set_find (drive_less h) d drives1 of
                        None \<Rightarrow> Some (0, calls, sock1, drives1)
                      | Some d1 \<Rightarrow>
                          map_option (\<lambda>d2. (0, calls, sock1,
                              map (\<lambda>x. if \<not> drive_less h x d \<and> \<not> drive_less h d x then d2 else x) drives1))
                            (GetSMARTrawValues X h rt d1)))))"

section \<open>Supported attributes\<close>

definition ConvertStringToInt :: "xml_env \<Rightarrow> hw_sizes \<Rightarrow> string \<Rightarrow> nat" where
  "ConvertStringToInt X h s =
     (case convertToTypename X s of
        Some n \<Rightarrow> if CheckSMARTidRange h (int n) = 0 then n else 0
      | None \<Rightarrow> 0)"

text \<open>
  The loop over the characters: \<open>cur\<close> are the characters since the last comma,
  \<open>out\<close> the numbers so far. A text that ends with a comma has no last number.
\<close>

fun split_ids :: "xml_env \<Rightarrow> hw_sizes \<Rightarrow> string \<Rightarrow> string \<Rightarrow> nat list \<Rightarrow> nat list" where
  "split_ids X h [] cur out = (if cur \<noteq> [] then out @ [ConvertStringToInt X h cur] else out)"
| "split_ids X h (c # cs) cur out =
     (if c = CHR '','' then split_ids X h cs [] (out @ [ConvertStringToInt X h cur])
      else split_ids X h cs (cur @ [c]) out)"

definition write_ids :: "hw_sizes \<Rightarrow> nat list \<Rightarrow> attr_id list \<Rightarrow> attr_id list" where
  "write_ids h ids arr =
     (let arr1 = fold (\<lambda>(i, x) a. a[i := x]) (enumerate 0 ids) arr
      in if length ids < numSATA h then arr1[length ids := 0] else arr1)"

definition first_child :: "xml \<Rightarrow> string \<Rightarrow> xml option" where
  "first_child e n = find (\<lambda>c. xml_name c = n) (xml_children e)"

text \<open>
  The inner option is whether the message names a drive with its supported
  attributes; the outer one is None if there are more of them than the array has
  elements, because nothing limits the index it is written at.
\<close>

definition GetSupportedSMARTattributesViaXML :: "xml_env \<Rightarrow> hw_sizes \<Rightarrow> SMARTuniqueID \<Rightarrow> byte list
    \<Rightarrow> (SMARTuniqueID \<times> attr_id set) option option" where
  "GetSupportedSMARTattributesViaXML X h u0 data =
     (case getXMLdoc X data of None \<Rightarrow> Some None
      | Some rt \<Rightarrow>
         (case GetSMARTuniqueID_xml h rt u0 of (ok, u) \<Rightarrow>
            if \<not> ok then Some None
            else (case first_child rt ''supportedSMART_IDs'' of None \<Rightarrow> Some None
                  | Some c \<Rightarrow> (case xml_text c of None \<Rightarrow> Some None
                      | Some txt \<Rightarrow> (let ids = split_ids X h txt [] []
                          in if length (supportedSMART_IDs u) < length ids then None
                             else Some (Some (u\<lparr>supportedSMART_IDs := write_ids h ids (supportedSMART_IDs u)\<rparr>,
                                    set ids)))))))"

section \<open>Properties\<close>

lemma split_ids_dec:
  "\<forall>c\<in>set s. c \<noteq> CHR '','' \<Longrightarrow> split_ids X h (s @ r) cur out = split_ids X h r (cur @ s) out"
  by (induction s arbitrary: cur) auto

lemma dec_no_comma: "\<forall>c\<in>set (dec n). c \<noteq> CHR '',''"
proof
  fix c assume "c \<in> set (dec n)"
  then have "is_digit c" using dec_digits by blast
  then show "c \<noteq> CHR '',''" by (auto simp: is_digit_def)
qed

lemma split_comma_list:
  "\<forall>n\<in>set ids. ConvertStringToInt X h (dec n) = n \<Longrightarrow>
    split_ids X h (comma_list ids) [] out = out @ ids"
proof (induction ids arbitrary: out rule: comma_list.induct)
  case (2 i)
  then show ?case using split_ids_dec [OF dec_no_comma, of X h i "[]" "[]" out] by simp
next
  case (3 i j "is")
  then show ?case by (simp add: split_ids_dec [OF dec_no_comma])
qed simp

lemma fold_write:
  "length xs + k \<le> length arr \<Longrightarrow>
    fold (\<lambda>(i, x) a. a[i := x]) (enumerate k xs) arr = take k arr @ xs @ drop (k + length xs) arr"
proof (induction xs arbitrary: k arr)
  case (Cons x xs)
  have "take (Suc k) (arr[k := x]) = take k arr @ [x]"
    using Cons.prems by (simp add: take_Suc_conv_app_nth)
  then show ?case using Cons by simp
qed simp

text \<open>
  The attributes the service lists as supported arrive in the client's array
  of the drive: separated by commas, read number by number and ended with 0, the
  array holds the same IDs in the same order. The conversion of tinyxml2's text
  to a number is relied on for the decimal texts of these IDs.
\<close>

theorem supported_ids_roundtrip:
  assumes "\<forall>n\<in>set ids. convertToTypename X (dec n) = Some n \<and> 0 < n \<and> n \<le> numMaxATAplus1 h"
    and "length ids < numSATA h" "numSATA h \<le> length arr"
  shows "id_list (write_ids h (split_ids X h (comma_list ids) [] []) arr) = ids"
proof -
  have "split_ids X h (comma_list ids) [] [] = [] @ ids"
    by (rule split_comma_list) (use assms(1) in \<open>auto simp: ConvertStringToInt_def CheckSMARTidRange_def\<close>)
  moreover have "fold (\<lambda>(i, x) a. a[i := x]) (enumerate 0 ids) arr = ids @ drop (length ids) arr"
    using fold_write [of ids 0 arr] assms(2,3) by simp
  moreover have "drop (length ids) arr \<noteq> []" using assms(2,3) by simp
  then obtain y ys where "drop (length ids) arr = y # ys" by (cases "drop (length ids) arr") auto
  moreover have "0 \<notin> set ids" using assms(1) by auto
  ultimately show ?thesis
    using assms(2) by (simp add: write_ids_def list_update_append)
qed

text \<open>Conversions that read decimal numbers, for the witnesses.\<close>

definition read_int :: "string \<Rightarrow> int" where
  "read_int s = (if s \<noteq> [] \<and> hd s = CHR ''-'' then - int (undec (tl s)) else int (undec s))"

definition std_xml :: xml_env where
  "std_xml = \<lparr>parseXML = (\<lambda>_. None), toInt = (\<lambda>s. Some (read_int s)), toInt64 = (\<lambda>s. Some (read_int s)),
     toFloat = (\<lambda>s. None), atol = read_int, convertToTypename = (\<lambda>s. Some (undec s))\<rparr>"

theorem supported_ids_roundtrip_witness:
  "id_list (write_ids std_sizes (split_ids std_xml std_sizes (comma_list [5, 9, 241]) [] [])
     (replicate 255 7)) = [5, 9, 241]"
  by (rule supported_ids_roundtrip)
     (simp_all add: std_xml_def std_sizes_def numMaxATAplus1_def)

text \<open>
  What is relied on of the conversions: they read back the texts that
  \<open>ostream\<close> prints of numbers in their range.
\<close>

definition conversions_read :: "xml_env \<Rightarrow> bool" where
  "conversions_read X \<longleftrightarrow>
     (\<forall>n < 2 ^ 31. toInt X (dec n) = Some (int n))
   \<and> (\<forall>k. - (2 ^ 63) \<le> k \<and> k < 2 ^ 63 \<longrightarrow> toInt64 X (dec_int k) = Some k \<and> atol X (dec_int k) = k)"

lemma hd_dec_digit: "is_digit (hd (dec n))"
  using dec_digits [of n] dec_nonempty [of n] by (meson hd_in_set)

lemma hd_dec_not: "\<not> is_digit c \<Longrightarrow> hd (dec n) \<noteq> c"
  using hd_dec_digit by metis

lemma hd_dec_int: "hd (dec_int k) \<noteq> CHR ''>''"
  using hd_dec_not [of "CHR ''>''"] by (simp add: dec_int_def is_digit_def)

lemma read_int_dec_int: "read_int (dec_int k) = k"
proof (cases "k < 0")
  case False
  have "hd (dec (nat k)) \<noteq> CHR ''-''" by (rule hd_dec_not) (simp add: is_digit_def)
  then show ?thesis using False by (simp add: read_int_def dec_int_def)
qed (simp add: read_int_def dec_int_def)

lemma std_conversions_read: "conversions_read std_xml"
proof -
  have "read_int (dec n) = int n" for n
    using read_int_dec_int [of "int n"] by (simp add: dec_int_def)
  then show ?thesis by (simp add: conversions_read_def std_xml_def read_int_dec_int)
qed

lemma unit_text_roundtrip:
  fixes w :: "64 word"
  assumes "\<forall>k. - (2 ^ 63) \<le> k \<and> k < 2 ^ 63 \<longrightarrow> al (dec_int k) = k"
  defines "M \<equiv> GetBitMaskForMostSignificantBit"
  shows "unit_of_text al (if w AND M \<noteq> 0 then ''>'' @ dec_int (sint (w AND NOT M)) else dec_int (sint w)) = w"
proof -
  have al: "al (dec_int (sint v)) = sint v" for v :: "64 word"
    using assms(1) sint_range_size [of v] by (simp add: size_word.rep_eq)
  have "M OR (w AND NOT M) = w" if "w AND M \<noteq> 0"
  proof (rule bit_word_eqI)
    fix n assume "n < LENGTH(64)"
    have "bit w 63"
    proof (rule ccontr)
      assume "\<not> bit w 63"
      then have "w AND M = 0"
        by (intro bit_word_eqI) (auto simp: M_def bit_and_iff bit_mask_iff)
      then show False using that by simp
    qed
    then show "bit (M OR (w AND NOT M)) n = bit w n"
      using \<open>n < LENGTH(64)\<close> by (auto simp: M_def bit_or_iff bit_and_iff bit_not_iff bit_mask_iff)
  qed
  then show ?thesis
    using hd_dec_int by (simp add: unit_of_text_def al setGreaterBit_def M_def)
qed

lemma map_of_entry_attrs:
  "map_of (entry_attrs u i raw t) ''ID'' = Some (dec i)"
  "map_of (entry_attrs u i raw t) ''raw_value'' = Some (dec (unat raw))"
  "map_of (entry_attrs u i raw t) ''time_in_s'' = Some (fixed3 t)"
  "map_of (entry_attrs u i raw t) ''unit'' = (if units u i = 0 then None else
     Some (if units u i AND GetBitMaskForMostSignificantBit \<noteq> 0
       then ''>'' @ dec_int (sint (units u i AND NOT GetBitMaskForMostSignificantBit))
       else dec_int (sint (units u i))))"
  "map_of (entry_attrs u i raw t) ''lower_unit_bound'' =
     (if lowerUnitBound u i = 0 then None else Some (dec_int (sint (lowerUnitBound u i))))"
  "map_of (entry_attrs u i raw t) ''upper_unit_bound'' =
     (if upperUnitBound u i = 0 then None else Some (dec_int (sint (upperUnitBound u i))))"
  by (simp_all add: entry_attrs_def Let_def)

text \<open>What an attribute becomes by an element with a raw value that is not negative.\<close>

definition received_attr :: "xml_env \<Rightarrow> xml \<Rightarrow> 64 word \<Rightarrow> 'l::len word SMARTattr \<Rightarrow> 'l word SMARTattr" where
  "received_attr X e raw a =
     (setRawVal raw (SetRetrievalTime (of_nat (nat \<lfloor>numAttribute (toFloat X) e ''time_in_s'' 0 * 1000\<rfloor>))
        (a\<lparr>successfullyReadSMARTrawValue := 1\<rparr>)))\<lparr>m_rawValue := uint raw\<rparr>"

text \<open>
  The element the service writes for a value, handled by the client, gives
  the client the same raw value (below \<open>2 ^ 63\<close>), the same bounds of the unit,
  and the same unit with its ``greater'' mark; a unit that is not known to the
  service leaves the client's unit as it was. All other attributes stay as they
  are.
\<close>

theorem value_entry_roundtrip:
  assumes "conversions_read X" "xml_attrs e = entry_attrs u i raw t"
    and "i < numMaxATAplus1 h" "numMaxATAplus1 h \<le> 2 ^ 31" "unat raw < 2 ^ 63"
  shows "\<exists>d'. HandleSingleSMARTentry X h e d = Some d'
    \<and> m_SMARTattrs d' i = received_attr X e raw (m_SMARTattrs d i)
    \<and> m_rawValue (m_SMARTattrs d' i) = uint raw
    \<and> successfullyReadSMARTrawValue (m_SMARTattrs d' i) = 1
    \<and> lowerUnitBound (m_SMARTuniqueID d') i = lowerUnitBound u i
    \<and> upperUnitBound (m_SMARTuniqueID d') i = upperUnitBound u i
    \<and> units (m_SMARTuniqueID d') i = (if units u i = 0 then units (m_SMARTuniqueID d) i else units u i)
    \<and> (\<forall>j. j \<noteq> i \<longrightarrow> m_SMARTattrs d' j = m_SMARTattrs d j
          \<and> units (m_SMARTuniqueID d') j = units (m_SMARTuniqueID d) j
          \<and> lowerUnitBound (m_SMARTuniqueID d') j = lowerUnitBound (m_SMARTuniqueID d) j
          \<and> upperUnitBound (m_SMARTuniqueID d') j = upperUnitBound (m_SMARTuniqueID d) j)
    \<and> uid_key h (m_SMARTuniqueID d') = uid_key h (m_SMARTuniqueID d)
    \<and> SMART_IDsToRd (m_SMARTuniqueID d') = SMART_IDsToRd (m_SMARTuniqueID d)
    \<and> busType (m_SMARTuniqueID d') = busType (m_SMARTuniqueID d)"
proof -
  have c: "\<forall>n < 2 ^ 31. toInt X (dec n) = Some (int n)"
    "\<And>k. - (2 ^ 63) \<le> k \<Longrightarrow> k < 2 ^ 63 \<Longrightarrow> toInt64 X (dec_int k) = Some k"
    and al: "\<forall>k. - (2 ^ 63) \<le> k \<and> k < 2 ^ 63 \<longrightarrow> atol X (dec_int k) = k"
    using assms(1) by (simp_all only: conversions_read_def) blast+
  have s64: "toInt64 X (dec_int (sint w)) = Some (sint w)" for w :: "64 word"
    using c(2) [of "sint w"] sint_range_size [of w] by (simp add: size_word.rep_eq)
  have "int (unat raw) < 2 ^ 63" using assms(5) by (metis of_nat_less_iff of_nat_numeral of_nat_power)
  moreover have "- (2 ^ 63) \<le> int (unat raw)" by (rule order_trans [of _ 0]) simp_all
  ultimately have "toInt64 X (dec_int (int (unat raw))) = Some (int (unat raw))" by (intro c(2))
  then have raw: "toInt64 X (dec (unat raw)) = Some (int (unat raw))"
    by (simp only: dec_int_def of_nat_less_0_iff if_False nat_int)
  have id: "numAttribute (toInt X) e ''ID'' 0 = int i"
    using c(1) assms(3,4) by (simp add: numAttribute_def attribute_def assms(2) map_of_entry_attrs)
  have v: "numAttribute (toInt64 X) e ''raw_value'' 0 = int (unat raw)"
    by (simp only: numAttribute_def attribute_def assms(2) map_of_entry_attrs raw option.case opt_default_simps)
  have lo: "word_of_int (numAttribute (toInt64 X) e ''lower_unit_bound'' 0) = lowerUnitBound u i"
    "word_of_int (numAttribute (toInt64 X) e ''upper_unit_bound'' 0) = upperUnitBound u i"
    by (simp_all add: numAttribute_def attribute_def assms(2) map_of_entry_attrs s64)
  have un: "attribute e ''unit'' = None" if "units u i = 0"
    using that by (simp add: attribute_def assms(2) map_of_entry_attrs)
  have ut: "\<exists>s. attribute e ''unit'' = Some s \<and> s \<noteq> [] \<and> unit_of_text (atol X) s = units u i" if "units u i \<noteq> 0"
    using that unit_text_roundtrip [OF al, of "units u i"]
    by (simp add: attribute_def assms(2) map_of_entry_attrs) (simp add: dec_int_def)
  have chk: "CheckSMARTidRange h (int i) = 0" using assms(3) by (simp add: CheckSMARTidRange_def)
  show ?thesis
  proof (cases "units u i = 0")
    case True
    then show ?thesis using assms(3)
      by (auto simp: HandleSingleSMARTentry_def Let_def id chk v lo un setRawVal_other received_attr_def
          SetRetrievalTime_def run_steps_raw uid_key_def)
  next
    case False
    then obtain s where "attribute e ''unit'' = Some s" "s \<noteq> []" "unit_of_text (atol X) s = units u i"
      using ut by blast
    then show ?thesis using assms(3) False
      by (auto simp: HandleSingleSMARTentry_def Let_def id chk v lo setRawVal_other received_attr_def
          SetRetrievalTime_def run_steps_raw uid_key_def)
  qed
qed

definition sender_uid :: SMARTuniqueID where
  "sender_uid = blank_uid\<lparr>units := (\<lambda>_. setGreaterBit 512), lowerUnitBound := (\<lambda>_. 500)\<rparr>"

theorem value_entry_roundtrip_witness:
  "\<exists>d'. HandleSingleSMARTentry std_xml std_sizes
      (XML ''SMART'' (entry_attrs sender_uid 241 1000 0) None []) drive_example = Some d'
    \<and> m_rawValue (m_SMARTattrs d' 241) = 1000
    \<and> units (m_SMARTuniqueID d') 241 = setGreaterBit 512
    \<and> lowerUnitBound (m_SMARTuniqueID d') 241 = 500"
proof -
  have "setGreaterBit 512 \<noteq> 0" by (simp add: setGreaterBit_def GetBitMaskForMostSignificantBit_def)
  then show ?thesis
    using value_entry_roundtrip [OF std_conversions_read, of
        "XML ''SMART'' (entry_attrs sender_uid 241 1000 0) None []" sender_uid 241 1000 0 std_sizes drive_example]
    by (auto simp: std_sizes_def numMaxATAplus1_def sender_uid_def)
qed

text \<open>
  An attribute ID one past the last index passes the range check and is used as
  an index.
\<close>

lemma id_behind_array_passes: "CheckSMARTidRange h (int (numMaxATAplus1 h)) = 0"
  by (simp add: CheckSMARTidRange_def)

end
