(* ===== verification/ConfigLoad.thy ===== *)
theory ConfigLoad
  imports XmlData MonitorBase
begin

text \<open>
  \<open>tinyxml2/ConfigLoader.cpp\<close>: the configuration read from XML files, the
  definitions of the attributes, the models of data carriers, and the
  connection to the service with the attributes to observe.

  Loading a file is a parameter, \<open>loadXML\<close>; it answers the root element of the
  document or an error. The loader's C string conversions are parameters, too.
  None as the result of an operation is an access through a NULL pointer or
  behind an array.
\<close>

datatype xml_error = XML_ERROR_FILE_NOT_FOUND | XML_ERROR_FILE_COULD_NOT_BE_OPENED
  | XML_ERROR_FILE_READ_ERROR | XML_PARSE_ERROR | XML_OTHER_ERROR

record cfg_env =
  loadXML :: "string \<Rightarrow> (xml_error \<times> string) + xml option"
  GetAbsPathA :: "string \<Rightarrow> string"
  cfgToInt :: "string \<Rightarrow> int option"
  ConvertCharStringToTypename :: "string \<Rightarrow> int option"
  mf_indeterminate :: ModelAndFirmware

record cfg_state =
  socketPortNumber :: nat
  serviceHostName :: string
  IDsOfSMARTattrsToObserve :: "int set"
  SMARTattrIDsToObs :: "attr_id list"
  attrDefs :: SMARTattrDefAccss
  modelAndFirmwareTuples :: "ModelAndFirmware list"
  shownMessages :: "string list"
  errorMsg :: string

section \<open>Opening a file\<close>

definition cfg_error_text :: "cfg_env \<Rightarrow> string \<Rightarrow> xml_error \<Rightarrow> string" where
  "cfg_error_text E path e = (case e of
     XML_ERROR_FILE_NOT_FOUND \<Rightarrow> ''File \"'' @ GetAbsPathA E path @ ''\" not found''
   | XML_ERROR_FILE_COULD_NOT_BE_OPENED \<Rightarrow> ''Could not open file \"'' @ path @ ''\"''
   | XML_ERROR_FILE_READ_ERROR \<Rightarrow> ''Error reading from file \"'' @ path @ ''\"''
   | XML_PARSE_ERROR \<Rightarrow> ''parse error reading from file \"'' @ path @ ''\"''
   | XML_OTHER_ERROR \<Rightarrow> ''OTHER error reading from file \"'' @ path @ ''\"'')"

definition OpenConfigFile :: "cfg_env \<Rightarrow> string \<Rightarrow> cfg_state \<Rightarrow> xml option \<times> cfg_state" where
  "OpenConfigFile E path st =
     (case loadXML E path of
        Inl (e, errStr) \<Rightarrow>
          (None, st\<lparr>errorMsg := cfg_error_text E path e @ '':'' @ [CHR 0x0A] @ errStr\<rparr>)
      | Inr rt \<Rightarrow> (rt, st))"

text \<open>The overload for a path without file name extension also hands back the full path.\<close>

definition OpenConfigFile_prefix :: "cfg_env \<Rightarrow> string \<Rightarrow> cfg_state \<Rightarrow> (xml option \<times> string) \<times> cfg_state" where
  "OpenConfigFile_prefix E prefix st =
     (let path = prefix @ ''xml'' in
      case OpenConfigFile E path st of (rt, st1) \<Rightarrow> ((rt, path), st1))"

text \<open>
  The start of each of the three readers: with no element given, the file is
  opened through the two pointers to its path.
\<close>

definition get_root :: "cfg_env \<Rightarrow> string option \<Rightarrow> string option \<Rightarrow> xml option \<Rightarrow> cfg_state
    \<Rightarrow> ((xml option \<times> string option) \<times> cfg_state) option" where
  "get_root E prefix path rt st =
     (case rt of
        Some r \<Rightarrow> Some ((Some r, path), st)
      | None \<Rightarrow>
          (case (prefix, path) of
             (Some p, Some _) \<Rightarrow>
               (case OpenConfigFile_prefix E p st of ((rt1, full), st1) \<Rightarrow> Some ((rt1, Some full), st1))
           | _ \<Rightarrow> None))"

section \<open>The attributes to observe\<close>

definition uint_of_int :: "int \<Rightarrow> nat" where
  "uint_of_int i = nat (i mod 2 ^ 64)"

text \<open>
  The loop over the characters of the text; \<open>cur\<close> are the characters from
  \<open>SMARTparamsToObsNumBgn\<close> on. A number is taken at the comma that follows it.
\<close>

fun observe_loop :: "(string \<Rightarrow> int option) \<Rightarrow> nat \<Rightarrow> string \<Rightarrow> string \<Rightarrow> int set \<times> attr_id list \<times> nat
    \<Rightarrow> int set \<times> attr_id list \<times> nat" where
  "observe_loop conv n [] cur r = r"
| "observe_loop conv n (c # cs) cur (ids, arr, idx) =
     (if c = CHR '','' then
        observe_loop conv n cs []
          (case conv cur of
             Some v \<Rightarrow> (insert v ids,
               if idx < n then (arr[idx := uint_of_int v], Suc idx) else (arr, idx))
           | None \<Rightarrow> (ids, arr, idx))
      else observe_loop conv n cs (cur @ [c]) (ids, arr, idx))"

text \<open>
  The commas of the text are overwritten in the document itself: what is left
  for the next reader of the text ends at the first of them.
\<close>

definition cut_commas :: "string \<Rightarrow> string" where
  "cut_commas s = map (\<lambda>c. if c = CHR '','' then NUL else c) (cstr s) @ drop (length (cstr s)) s"

fun modify_child :: "string \<Rightarrow> (xml \<Rightarrow> xml) \<Rightarrow> xml list \<Rightarrow> xml list" where
  "modify_child n f [] = []"
| "modify_child n f (e # es) = (if xml_name e = n then f e # es else e # modify_child n f es)"

definition observe_name :: string where
  "observe_name = ''SMART_parameters_to_observe''"

definition GetSMARTattributesToObserve :: "cfg_env \<Rightarrow> hw_sizes \<Rightarrow> xml \<Rightarrow> cfg_state \<Rightarrow> (xml \<times> cfg_state) option" where
  "GetSMARTattributesToObserve E h rt st =
     (case first_child rt observe_name of
        None \<Rightarrow> Some (rt, st)
      | Some e \<Rightarrow>
          (case xml_text e of
             None \<Rightarrow> None
           | Some txt \<Rightarrow>
               (case observe_loop (ConvertCharStringToTypename E) (numSATA h) (cstr txt) []
                       (IDsOfSMARTattrsToObserve st, SMARTattrIDsToObs st, 0) of
                  (ids, arr, idx) \<Rightarrow>
                    Some (XML (xml_name rt) (xml_attrs rt) (xml_text rt)
                            (modify_child observe_name
                              (\<lambda>c. XML (xml_name c) (xml_attrs c) (Some (cut_commas txt)) (xml_children c))
                              (xml_children rt)),
                          st\<lparr>IDsOfSMARTattrsToObserve := ids,
                             SMARTattrIDsToObs := if idx < numSATA h then arr[idx := 0] else arr\<rparr>))))"

section \<open>The connection to the service\<close>

text \<open>The port is an \<open>unsigned int\<close> read with \<open>IntAttribute\<close>.\<close>

definition ReadSrvCnnctnCfg :: "cfg_env \<Rightarrow> hw_sizes \<Rightarrow> string option \<Rightarrow> string option \<Rightarrow> xml option \<Rightarrow> cfg_state
    \<Rightarrow> (bool \<times> xml option \<times> cfg_state) option" where
  "ReadSrvCnnctnCfg E h prefix path rt st =
     (case get_root E prefix path rt st of
        None \<Rightarrow> None
      | Some ((rt1, path1), st1) \<Rightarrow>
          (case rt1 of
             None \<Rightarrow> Some (False, None, st1)
           | Some r \<Rightarrow>
               (case first_child r ''networkConnection'' of
                  None \<Rightarrow> Some (False, Some r, st1)
                | Some nc \<Rightarrow>
                    (let port = nat (numAttribute (cfgToInt E) nc ''portNumber'' 0 mod 2 ^ 32) in
                     if port = 0 then Some (False, Some r, st1)
                     else (let st2 = st1\<lparr>socketPortNumber := port\<rparr> in
                       case attribute nc ''serviceHostName'' of
                         None \<Rightarrow> map_option (\<lambda>p. (False, Some r, st2\<lparr>errorMsg :=
                             ''no service  XML element \"serviceHostName\" in file \"'' @ p @ ''\"''\<rparr>)) path1
                       | Some host \<Rightarrow>
                           map_option (\<lambda>(r1, st3). (True, Some r1, st3))
                             (GetSMARTattributesToObserve E h r (st2\<lparr>serviceHostName := host\<rparr>)))))))"

definition ReadServiceConnectionSettings :: "cfg_env \<Rightarrow> hw_sizes \<Rightarrow> string \<Rightarrow> cfg_state \<Rightarrow> cfg_state option" where
  "ReadServiceConnectionSettings E h path st =
     (if path = [] then Some st
      else (case OpenConfigFile E path st of
              (None, st1) \<Rightarrow> Some st1
            | (Some r, st1) \<Rightarrow> map_option (snd \<circ> snd) (ReadSrvCnnctnCfg E h None None (Some r) st1)))"

section \<open>The definitions of the attributes\<close>

datatype defs_array = ATA_array | NVMe_array

definition add_def :: "hw_sizes \<Rightarrow> defs_array option \<Rightarrow> int \<Rightarrow> string \<Rightarrow> bool \<Rightarrow> cfg_state \<Rightarrow> cfg_state option" where
  "add_def h arr i name crit st =
     (let d = SMARTattrDef_new crit (uint_of_int i) name; s = attrDefs st in
      case arr of
        None \<Rightarrow> None
      | Some ATA_array \<Rightarrow>
          if uint_of_int i < numMaxATAplus1 h
          then Some (st\<lparr>attrDefs := s\<lparr>SMARTattrDefs := defs_Add d (SMARTattrDefs s)\<rparr>\<rparr>) else None
      | Some NVMe_array \<Rightarrow>
          if uint_of_int i < numNVMePlus1 h
          then Some (st\<lparr>attrDefs := s\<lparr>NVMeSMARTattrDefs := defs_Add d (NVMeSMARTattrDefs s)\<rparr>\<rparr>) else None)"

text \<open>The loop; \<open>name\<close> is the name of the last element that had one.\<close>

fun defs_loop :: "cfg_env \<Rightarrow> hw_sizes \<Rightarrow> defs_array option \<Rightarrow> string option \<Rightarrow> xml list \<Rightarrow> string
    \<Rightarrow> cfg_state \<Rightarrow> cfg_state option" where
  "defs_loop E h arr path [] name st = Some st"
| "defs_loop E h arr path (e # es) name st =
     (let i = numAttribute (cfgToInt E) e ''ID'' 0 in
      if i \<noteq> 0 then
        (let name1 = opt_default name (attribute e ''name'');
             crit = (attribute e ''Critical'' = Some ''yes'')
         in if name1 \<noteq> [] then
              (case add_def h arr i name1 crit st of
                 None \<Rightarrow> None | Some st1 \<Rightarrow> defs_loop E h arr path es name1 st1)
            else defs_loop E h arr path es name1 st)
      else (case path of
              None \<Rightarrow> None
            | Some p \<Rightarrow> defs_loop E h arr path es name (st\<lparr>shownMessages := shownMessages st @
                [''warning: no \"Id\" parameter provided for SMART parameter in file \"'' @ p @ ''\"'']\<rparr>)))"

definition attribute_elements :: "xml \<Rightarrow> xml list" where
  "attribute_elements r = dropWhile (\<lambda>c. xml_name c \<noteq> ''SMART_attribute'') (xml_children r)"

definition readSMARTattrDefs :: "cfg_env \<Rightarrow> hw_sizes \<Rightarrow> defs_array option \<Rightarrow> string option \<Rightarrow> string option
    \<Rightarrow> xml option \<Rightarrow> cfg_state \<Rightarrow> (bool \<times> cfg_state) option" where
  "readSMARTattrDefs E h arr prefix path rt st =
     (case get_root E prefix path rt st of
        None \<Rightarrow> None
      | Some ((None, path1), st1) \<Rightarrow> Some (False, st1)
      | Some ((Some r, path1), st1) \<Rightarrow>
          (case attribute_elements r of
             [] \<Rightarrow> map_option (\<lambda>p. (False, st1\<lparr>errorMsg :=
                ''no \"SMART_attribute\" element in XML file \"'' @ p @ ''\"''\<rparr>)) path1
           | es \<Rightarrow> map_option (\<lambda>st2. (True, st2))
                (defs_loop E h arr path1 es [] (st1\<lparr>attrDefs := clearSMARTattrDefs h (attrDefs st1)\<rparr>))))"

section \<open>The models of data carriers\<close>

definition set_units :: "cfg_env \<Rightarrow> hw_sizes \<Rightarrow> xml list \<Rightarrow> ModelAndFirmware \<Rightarrow> ModelAndFirmware option" where
  "set_units E h es m =
     fold (\<lambda>e r. case r of None \<Rightarrow> None | Some m \<Rightarrow>
        (let i = numAttribute (cfgToInt E) e ''paramID'' 0 in
         case attribute e ''unit'' of
           Some s \<Rightarrow> if i = 0 then Some m
                     else if uint_of_int i < numSATA h then Some (setParamUnit (uint_of_int i) s m) else None
         | None \<Rightarrow> Some m)) es (Some m)"

definition data_carrier :: "cfg_env \<Rightarrow> hw_sizes \<Rightarrow> xml \<Rightarrow> ModelAndFirmware list \<Rightarrow> ModelAndFirmware list option" where
  "data_carrier E h e models =
     (case (attribute e ''model'', attribute e ''firmware'') of
        (Some model, Some fw) \<Rightarrow>
          if numModelBytes h < length model \<or> numFWbytes h < length fw then None
          else (let tb = numAttribute (cfgToInt E) e ''maxTeraBytesWritten'' (- 1);
               m0 = (mf_indeterminate E)\<lparr>maxTeraBytesWritten := 0\<rparr>;
               m1 = (if tb \<noteq> - 1 then setMaxTeraBytesWritten (word_of_int tb) m0 else m0)
           in map_option (\<lambda>m. set_insert mf_less m models)
                (set_units E h (filter (\<lambda>c. xml_name c = ''SMART'') (xml_children e)) (mf_Set model fw m1)))
      | _ \<Rightarrow> Some models)"

fun data_carriers :: "cfg_env \<Rightarrow> hw_sizes \<Rightarrow> xml list \<Rightarrow> ModelAndFirmware list \<Rightarrow> ModelAndFirmware list option" where
  "data_carriers E h [] models = Some models"
| "data_carriers E h (e # es) models =
     (case data_carrier E h e models of None \<Rightarrow> None | Some ms \<Rightarrow> data_carriers E h es ms)"

definition ReadSMARTdataCarrierDefs :: "cfg_env \<Rightarrow> hw_sizes \<Rightarrow> string option \<Rightarrow> string option \<Rightarrow> xml option
    \<Rightarrow> cfg_state \<Rightarrow> (bool \<times> cfg_state) option" where
  "ReadSMARTdataCarrierDefs E h prefix path rt st =
     (case get_root E prefix path rt st of
        None \<Rightarrow> None
      | Some ((None, _), st1) \<Rightarrow> Some (False, st1)
      | Some ((Some r, _), st1) \<Rightarrow>
          map_option (\<lambda>ms. (True, st1\<lparr>modelAndFirmwareTuples := ms\<rparr>))
            (data_carriers E h (filter (\<lambda>c. xml_name c = ''data_carrier'') (xml_children r))
              (modelAndFirmwareTuples st1)))"

section \<open>All sections of one file\<close>

definition LoadSMARTcfg :: "cfg_env \<Rightarrow> hw_sizes \<Rightarrow> string \<Rightarrow> cfg_state \<Rightarrow> (bool \<times> cfg_state) option" where
  "LoadSMARTcfg E h prefix st =
     (case OpenConfigFile_prefix E prefix st of ((rt, _), st1) \<Rightarrow>
      (case ReadSrvCnnctnCfg E h None None rt st1 of
         None \<Rightarrow> None
       | Some (_, rt2, st2) \<Rightarrow>
           (case ReadSMARTdataCarrierDefs E h None None rt2 st2 of
              None \<Rightarrow> None
            | Some (_, st3) \<Rightarrow>
                (case rt2 of
                   None \<Rightarrow> None
                 | Some r2 \<Rightarrow>
                     (case GetSMARTattributesToObserve E h r2 st3 of
                        None \<Rightarrow> None
                      | Some (r4, st4) \<Rightarrow>
                          map_option (\<lambda>(_, st5). (True, st5))
                            (readSMARTattrDefs E h None None None (Some r4) st4))))))"

section \<open>The loader as the initialisation calls it\<close>

definition cfg_load :: "cfg_env \<Rightarrow> hw_sizes \<Rightarrow> cfg_fun \<Rightarrow> string \<Rightarrow> cfg_state \<Rightarrow> (bool \<times> cfg_state) option" where
  "cfg_load E h f p st = (case f of
     readSMARTattrDefs_ATA \<Rightarrow> readSMARTattrDefs E h (Some ATA_array) (Some p) (Some []) None st
   | readSMARTattrDefs_NVMe \<Rightarrow> readSMARTattrDefs E h (Some NVMe_array) (Some p) (Some []) None st
   | ReadSMARTdataCarrierDefs_fn \<Rightarrow> ReadSMARTdataCarrierDefs E h (Some p) (Some []) None st
   | ReadSrvCnnctnCfg_fn \<Rightarrow> map_option (\<lambda>(ok, _, st1). (ok, st1))
       (ReadSrvCnnctnCfg E h (Some p) (Some []) None st))"

section \<open>Properties\<close>

subsection \<open>Definitions of attributes\<close>

abbreviation elem_id :: "cfg_env \<Rightarrow> xml \<Rightarrow> int" where
  "elem_id E e \<equiv> numAttribute (cfgToInt E) e ''ID'' 0"

definition elem_def :: "cfg_env \<Rightarrow> xml \<Rightarrow> SMARTattrDef" where
  "elem_def E e = SMARTattrDef_new (attribute e ''Critical'' = Some ''yes'') (nat (elem_id E e))
     (opt_default [] (attribute e ''name''))"

definition well_defined :: "cfg_env \<Rightarrow> nat \<Rightarrow> xml \<Rightarrow> bool" where
  "well_defined E n e \<longleftrightarrow> 0 < elem_id E e \<and> elem_id E e < int n \<and> opt_default [] (attribute e ''name'') \<noteq> []"

lemma well_defined_name:
  "well_defined E n e \<Longrightarrow> opt_default name (attribute e ''name'') = opt_default [] (attribute e ''name'')
    \<and> opt_default name (attribute e ''name'') \<noteq> []"
  by (auto simp: well_defined_def opt_default_def split: option.splits)

lemma uint_of_int_small: "\<lbrakk>0 \<le> i; i < int n; n \<le> 2 ^ 64\<rbrakk> \<Longrightarrow> uint_of_int i = nat i"
  by (simp add: uint_of_int_def)

lemma defs_loop_ATA:
  assumes "numMaxATAplus1 h \<le> 2 ^ 64" "\<forall>e\<in>set es. well_defined E (numMaxATAplus1 h) e"
  shows "defs_loop E h (Some ATA_array) path es name st = Some (st\<lparr>attrDefs := (attrDefs st)\<lparr>SMARTattrDefs :=
    fold (\<lambda>e. defs_Add (elem_def E e)) es (SMARTattrDefs (attrDefs st))\<rparr>\<rparr>)"
  using assms(2)
proof (induction es arbitrary: name st)
  case (Cons e es)
  have wd: "well_defined E (numMaxATAplus1 h) e" using Cons.prems by simp
  then have i: "uint_of_int (elem_id E e) = nat (elem_id E e)" "nat (elem_id E e) < numMaxATAplus1 h"
    using uint_of_int_small [of "elem_id E e" "numMaxATAplus1 h"] assms(1) by (auto simp: well_defined_def)
  show ?case
    using Cons wd well_defined_name [OF wd, of name] i
    by (simp add: Let_def add_def_def elem_def_def well_defined_def)
qed simp

lemma fold_defs_Add:
  assumes "distinct (map (\<lambda>e. nat (elem_id E e)) es)"
  shows "fold (\<lambda>e. defs_Add (elem_def E e)) es arr i =
    (case find (\<lambda>e. nat (elem_id E e) = i) es of None \<Rightarrow> arr i | Some e \<Rightarrow> elem_def E e)"
  using assms
proof (induction es arbitrary: arr)
  case (Cons e es)
  have "find (\<lambda>e'. nat (elem_id E e') = nat (elem_id E e)) es = None"
    using Cons.prems by (auto simp: find_None_iff image_iff)
  then show ?case using Cons by (auto simp: defs_Add_def elem_def_def SMARTattrDef_new_def)
qed simp

text \<open>
  C10: A file that gives every attribute its own ID in the range of the table and a
  name: after it is read the table of ATA attributes defines exactly these
  attributes, with the name and the critical flag of their elements; every other
  entry is empty, whatever it held before. Nothing else of the configuration
  changes.
\<close>

theorem attribute_definitions_loaded:
  assumes "numMaxATAplus1 h \<le> 2 ^ 64" "es = attribute_elements r" "es \<noteq> []"
    and "\<forall>e\<in>set es. well_defined E (numMaxATAplus1 h) e"
    and "distinct (map (\<lambda>e. nat (elem_id E e)) es)"
  shows "\<exists>s. readSMARTattrDefs E h (Some ATA_array) prefix path (Some r) st = Some (True, st\<lparr>attrDefs := s\<rparr>)
    \<and> (\<forall>e\<in>set es. getSMARTattrDef (nat (elem_id E e)) (SMARTattrDefs s) = elem_def E e)
    \<and> (\<forall>i < numMaxATAplus1 h. i \<notin> (\<lambda>e. nat (elem_id E e)) ` set es
         \<longrightarrow> getSMARTattrDef i (SMARTattrDefs s) = SMARTattrDef_0)
    \<and> NVMeSMARTattrDefs s = NVMeSMARTattrDefs (attrDefs st)"
proof -
  define s0 where "s0 = clearSMARTattrDefs h (attrDefs st)"
  define s where "s = s0\<lparr>SMARTattrDefs := fold (\<lambda>e. defs_Add (elem_def E e)) es (SMARTattrDefs s0)\<rparr>"
  have look: "SMARTattrDefs s i =
      (case find (\<lambda>e. nat (elem_id E e) = i) es of None \<Rightarrow> SMARTattrDefs s0 i | Some e \<Rightarrow> elem_def E e)" for i
    by (simp add: s_def fold_defs_Add [OF assms(5)])
  have "readSMARTattrDefs E h (Some ATA_array) prefix path (Some r) st = Some (True, st\<lparr>attrDefs := s\<rparr>)"
    using assms(3) defs_loop_ATA [OF assms(1,4), of path "[]" "st\<lparr>attrDefs := s0\<rparr>"]
    by (auto simp: readSMARTattrDefs_def get_root_def s_def s0_def assms(2) [symmetric] simp del: defs_loop.simps split: list.split)
  moreover have "SMARTattrDefs s (nat (elem_id E e)) = elem_def E e" if "e \<in> set es" for e
  proof -
    have "find (\<lambda>e'. nat (elem_id E e') = nat (elem_id E e)) es \<noteq> None"
      using that by (auto simp: find_None_iff)
    then obtain e' where e': "find (\<lambda>e'. nat (elem_id E e') = nat (elem_id E e)) es = Some e'" by blast
    then have "e' \<in> set es" "nat (elem_id E e') = nat (elem_id E e)"
      by (auto simp: find_Some_iff)
    then have "e' = e" using that assms(5) by (auto simp: distinct_map dest: inj_onD)
    then show ?thesis using e' by (simp add: look)
  qed
  moreover have "SMARTattrDefs s i = SMARTattrDef_0"
    if "i < numMaxATAplus1 h" "i \<notin> (\<lambda>e. nat (elem_id E e)) ` set es" for i
  proof -
    have "find (\<lambda>e. nat (elem_id E e) = i) es = None" using that(2) by (auto simp: find_None_iff)
    then show ?thesis using that(1) by (simp add: look s0_def clearSMARTattrDefs_def SMARTattrDef_0_def)
  qed
  ultimately show ?thesis
    by (auto simp: getSMARTattrDef_def s_def s0_def clearSMARTattrDefs_def)
qed

text \<open>A small document and an environment that reads decimal numbers, for the witnesses.\<close>

definition cfg_env_example :: "(string \<Rightarrow> xml) \<Rightarrow> cfg_env" where
  "cfg_env_example docs = \<lparr>loadXML = (\<lambda>p. Inr (Some (docs p))), GetAbsPathA = (\<lambda>p. p),
     cfgToInt = (\<lambda>s. Some (read_int s)), ConvertCharStringToTypename = (\<lambda>s. Some (read_int s)),
     mf_indeterminate = mf_example\<rparr>"

definition cfg_state_example :: cfg_state where
  "cfg_state_example = \<lparr>socketPortNumber = 1, serviceHostName = [], IDsOfSMARTattrsToObserve = {},
     SMARTattrIDsToObs = replicate 255 7, attrDefs = defs_example, modelAndFirmwareTuples = [],
     shownMessages = [], errorMsg = []\<rparr>"

definition attr_elem :: "nat \<Rightarrow> string \<Rightarrow> xml" where
  "attr_elem i name = XML ''SMART_attribute'' [(''ID'', dec i), (''name'', name), (''Critical'', ''yes'')] None []"

lemma attr_elem_id: "elem_id (cfg_env_example docs) (attr_elem i name) = int i"
  using read_int_dec_int [of "int i"]
  by (simp add: cfg_env_example_def attr_elem_def numAttribute_def attribute_def dec_int_def)

theorem attribute_definitions_loaded_witness:
  "\<exists>s. readSMARTattrDefs (cfg_env_example undefined) std_sizes (Some ATA_array) None None
       (Some (XML ''root'' [] None [attr_elem 5 ''Reallocated'', attr_elem 9 ''Time''])) cfg_state_example
     = Some (True, cfg_state_example\<lparr>attrDefs := s\<rparr>)
    \<and> SMARTattrDefs s 9 = SMARTattrDef_new True 9 ''Time''"
proof -
  define es where "es = [attr_elem 5 ''Reallocated'', attr_elem 9 ''Time'']"
  define r where "r = XML ''root'' [] None es"
  have "es = attribute_elements r" "es \<noteq> []" by (simp_all add: r_def es_def attribute_elements_def attr_elem_def)
  moreover have "\<forall>e\<in>set es. well_defined (cfg_env_example undefined) (numMaxATAplus1 std_sizes) e"
    by (simp add: es_def well_defined_def attr_elem_id numMaxATAplus1_def std_sizes_def)
      (simp add: attr_elem_def attribute_def)
  moreover have "distinct (map (\<lambda>e. nat (elem_id (cfg_env_example undefined) e)) es)"
    by (simp add: es_def attr_elem_id)
  moreover have "numMaxATAplus1 std_sizes \<le> 2 ^ 64" by (simp add: numMaxATAplus1_def std_sizes_def)
  ultimately obtain s where
    s: "readSMARTattrDefs (cfg_env_example undefined) std_sizes (Some ATA_array) None None (Some r) cfg_state_example
      = Some (True, cfg_state_example\<lparr>attrDefs := s\<rparr>)" and
    d: "\<forall>e\<in>set es. getSMARTattrDef (nat (elem_id (cfg_env_example undefined) e)) (SMARTattrDefs s)
      = elem_def (cfg_env_example undefined) e"
    using attribute_definitions_loaded [of std_sizes es r "cfg_env_example undefined" None None cfg_state_example]
    by blast
  have "SMARTattrDefs s 9 = elem_def (cfg_env_example undefined) (attr_elem 9 ''Time'')"
    using d by (simp add: es_def attr_elem_id getSMARTattrDef_def)
  also have "\<dots> = SMARTattrDef_new True 9 ''Time''"
    by (simp add: elem_def_def attr_elem_id) (simp add: attr_elem_def attribute_def)
  finally show ?thesis using s by (auto simp: r_def es_def)
qed

subsection \<open>The attributes to observe\<close>

lemma observe_loop_digits:
  "\<forall>c\<in>set s. c \<noteq> CHR '','' \<Longrightarrow> observe_loop conv n (s @ r) cur st = observe_loop conv n r (cur @ s) st"
proof (induction s arbitrary: cur)
  case (Cons c s)
  then show ?case by (cases st) simp
qed simp

definition comma_ended :: "nat list \<Rightarrow> string" where
  "comma_ended ids = concat (map (\<lambda>n. dec n @ '','') ids)"

lemma observe_loop_ids:
  assumes "\<forall>n\<in>set ids. conv (dec n) = Some (int n) \<and> n < 2 ^ 64" "k + length ids \<le> m" "length arr = m"
    "\<forall>c\<in>set tail. c \<noteq> CHR '',''"
  shows "observe_loop conv m (comma_ended ids @ tail) [] (S, arr, k)
    = (S \<union> int ` set ids, take k arr @ ids @ drop (k + length ids) arr, k + length ids)"
  using assms
proof (induction ids arbitrary: S arr k)
  case Nil
  then show ?case using observe_loop_digits [of tail conv m "[]"] by (simp add: comma_ended_def)
next
  case (Cons i ids)
  have i: "uint_of_int (int i) = i" "conv (dec i) = Some (int i)"
    using Cons.prems(1) by (simp_all add: uint_of_int_def nat_mod_as_int)
  have tk: "take (Suc k) (arr[k := i]) = take k arr @ [i]"
    using Cons.prems by (simp add: take_Suc_conv_app_nth)
  have "observe_loop conv m (comma_ended (i # ids) @ tail) [] (S, arr, k)
      = observe_loop conv m (comma_ended ids @ tail) [] (insert (int i) S, arr[k := i], Suc k)"
    using Cons.prems(2) i by (simp add: comma_ended_def observe_loop_digits [OF dec_no_comma])
  also have "\<dots> = (insert (int i) S \<union> int ` set ids, take (Suc k) (arr[k := i]) @ ids
      @ drop (Suc k + length ids) (arr[k := i]), Suc k + length ids)"
    by (rule Cons.IH) (use Cons.prems in simp_all)
  finally show ?case by (simp add: tk)
qed

lemma observe_loop_no_comma:
  "\<forall>c\<in>set s. c \<noteq> CHR '','' \<Longrightarrow> observe_loop conv n s cur st = st"
  using observe_loop_digits [of s conv n "[]" cur st] by (cases st) simp

lemma first_child_modify:
  assumes "first_child rt nm = Some e" "\<And>c. xml_name (f c) = xml_name c"
  shows "first_child (XML a b t (modify_child nm f (xml_children rt))) nm = Some (f e)"
proof -
  have "find (\<lambda>c. xml_name c = nm) cs = Some e \<Longrightarrow>
      find (\<lambda>c. xml_name c = nm) (modify_child nm f cs) = Some (f e)" for cs
    by (induction cs) (auto simp: assms(2) split: if_splits)
  then show ?thesis using assms(1) by (simp add: first_child_def)
qed

text \<open>
  C18: From a list of attribute IDs the array of IDs to observe gets exactly those a
  comma follows, in their order and ended with 0; what stands after the last
  comma is not observed. The text is consumed by reading it: reading the
  attributes to observe a second time from the same document empties the array.
\<close>

theorem observed_attributes:
  assumes "first_child rt observe_name = Some e" "xml_text e = Some (comma_ended ids @ tail)"
    and "\<forall>n\<in>set ids. ConvertCharStringToTypename E (dec n) = Some (int n) \<and> 0 < n \<and> n < 2 ^ 64"
    and "\<forall>c\<in>set tail. c \<noteq> CHR '','' \<and> c \<noteq> NUL" "ids \<noteq> []" "length ids < numSATA h"
    and "length (SMARTattrIDsToObs st) = numSATA h"
  shows "\<exists>rt1 st1. GetSMARTattributesToObserve E h rt st = Some (rt1, st1)
    \<and> id_list (SMARTattrIDsToObs st1) = ids
    \<and> IDsOfSMARTattrsToObserve st1 = IDsOfSMARTattrsToObserve st \<union> int ` set ids
    \<and> (\<exists>rt2 st2. GetSMARTattributesToObserve E h rt1 st1 = Some (rt2, st2)
        \<and> id_list (SMARTattrIDsToObs st2) = []
        \<and> IDsOfSMARTattrsToObserve st2 = IDsOfSMARTattrsToObserve st1)"
proof -
  define tx where "tx = comma_ended ids @ tail"
  have "NUL \<notin> set (dec n)" for n
    using dec_digits [of n] by (auto simp: is_digit_def NUL_def)
  then have "NUL \<notin> set tx" using assms(4) by (auto simp: tx_def comma_ended_def NUL_def)
  then have cs: "cstr tx = tx" by simp
  define arr where "arr = ids @ drop (length ids) (SMARTattrIDsToObs st)"
  have loop: "observe_loop (ConvertCharStringToTypename E) (numSATA h) tx []
      (IDsOfSMARTattrsToObserve st, SMARTattrIDsToObs st, 0)
    = (IDsOfSMARTattrsToObserve st \<union> int ` set ids, arr, length ids)"
    using observe_loop_ids [of ids "ConvertCharStringToTypename E" 0 "numSATA h" "SMARTattrIDsToObs st" tail]
      assms(3,4,6,7) by (simp add: tx_def arr_def)
  define f where "f c = XML (xml_name c) (xml_attrs c) (Some (cut_commas tx)) (xml_children c)" for c
  define rt1 where "rt1 = XML (xml_name rt) (xml_attrs rt) (xml_text rt) (modify_child observe_name f (xml_children rt))"
  define st1 where "st1 = st\<lparr>IDsOfSMARTattrsToObserve := IDsOfSMARTattrsToObserve st \<union> int ` set ids,
      SMARTattrIDsToObs := arr[length ids := 0]\<rparr>"
  have one: "GetSMARTattributesToObserve E h rt st = Some (rt1, st1)"
    using assms(1,2,6) loop
    by (simp add: GetSMARTattributesToObserve_def tx_def [symmetric] cs rt1_def st1_def f_def [abs_def])
  have "0 \<notin> set ids" using assms(3) by auto
  moreover have "length ids < length arr" using assms(6,7) by (simp add: arr_def)
  ultimately have ids: "id_list (SMARTattrIDsToObs st1) = ids"
    by (simp add: st1_def id_list_mark_end arr_def)
  have "first_child rt1 observe_name = Some (f e)"
    unfolding rt1_def by (rule first_child_modify [OF assms(1)]) (simp add: f_def)
  moreover have "\<forall>c\<in>set (cstr (cut_commas tx)). c \<noteq> CHR '',''"
  proof -
    have "CHR '','' \<notin> set (cut_commas tx)" by (auto simp: cut_commas_def cs NUL_def)
    then show ?thesis by (auto simp: cstr_def dest: set_takeWhileD)
  qed
  ultimately have two: "\<exists>rt2. GetSMARTattributesToObserve E h rt1 st1
      = Some (rt2, st1\<lparr>SMARTattrIDsToObs := (SMARTattrIDsToObs st1)[0 := 0]\<rparr>)"
    using assms(6) observe_loop_no_comma
    by (simp add: GetSMARTattributesToObserve_def f_def [of e])
  moreover have "id_list ((SMARTattrIDsToObs st1)[0 := 0]) = []"
    using \<open>length ids < length arr\<close> by (intro id_list_mark_end) (auto simp: st1_def)
  ultimately show ?thesis using one ids by (auto simp: st1_def)
qed

definition observe_doc :: xml where
  "observe_doc = XML ''options'' [] None [XML observe_name [] (Some (comma_ended [5, 9] @ ''241'')) []]"

theorem observed_attributes_witness:
  "\<exists>rt1 st1. GetSMARTattributesToObserve (cfg_env_example undefined) std_sizes observe_doc cfg_state_example
      = Some (rt1, st1) \<and> id_list (SMARTattrIDsToObs st1) = [5, 9]"
proof -
  have c: "\<forall>n\<in>set [5, 9]. ConvertCharStringToTypename (cfg_env_example undefined) (dec n) = Some (int n)
      \<and> 0 < n \<and> n < 2 ^ 64"
    using read_int_dec_int [of "int 5"] read_int_dec_int [of "int 9"]
    by (simp add: cfg_env_example_def dec_int_def)
  have d: "first_child observe_doc observe_name = Some (hd (xml_children observe_doc))"
    "xml_text (hd (xml_children observe_doc)) = Some (comma_ended [5, 9] @ ''241'')"
    by (simp_all add: first_child_def observe_doc_def)
  have tl: "\<forall>c\<in>set ''241''. c \<noteq> CHR '','' \<and> c \<noteq> NUL" by (simp add: NUL_def)
  have l: "length [5, 9 :: nat] < numSATA std_sizes"
    "length (SMARTattrIDsToObs cfg_state_example) = numSATA std_sizes"
    by (simp_all add: std_sizes_def cfg_state_example_def)
  show ?thesis using observed_attributes [OF d c tl list.distinct(2) l] by blast
qed

subsection \<open>The initialisation with this loader\<close>

lemma add_def_NVMe_ATA:
  "add_def h (Some NVMe_array) i nm crit st = Some st1 \<Longrightarrow>
    SMARTattrDefs (attrDefs st1) = SMARTattrDefs (attrDefs st)"
  by (auto simp: add_def_def Let_def split: if_splits)

lemma defs_loop_NVMe_ATA:
  "defs_loop E h (Some NVMe_array) path es name st = Some st1 \<Longrightarrow>
    SMARTattrDefs (attrDefs st1) = SMARTattrDefs (attrDefs st)"
proof (induction es arbitrary: name st path)
  case (Cons e es)
  show ?case
  proof (cases "elem_id E e = 0")
    case True
    then show ?thesis using Cons.prems by (auto split: option.splits dest!: Cons.IH)
  next
    case False
    then show ?thesis using Cons.prems
      by (auto simp: Let_def split: option.splits if_splits dest!: Cons.IH add_def_NVMe_ATA)
  qed
qed simp

lemma NVMe_clears_ATA:
  assumes "cfg_load E h readSMARTattrDefs_NVMe p st = Some (True, st1)"
  shows "\<forall>i < numMaxATAplus1 h. SMARTattrDefs (attrDefs st1) i = SMARTattrDef_0"
proof -
  obtain st0 path es where "defs_loop E h (Some NVMe_array) path es []
      (st0\<lparr>attrDefs := clearSMARTattrDefs h (attrDefs st0)\<rparr>) = Some st1"
    using assms by (auto simp: cfg_load_def readSMARTattrDefs_def simp del: defs_loop.simps
        split: option.splits prod.splits list.splits)
  from defs_loop_NVMe_ATA [OF this] show ?thesis
    by (simp add: clearSMARTattrDefs_def SMARTattrDef_0_def)
qed

lemma OpenConfigFile_attrDefs:
  "OpenConfigFile E p st = (rt, st1) \<Longrightarrow> attrDefs st1 = attrDefs st"
  by (auto simp: OpenConfigFile_def split: sum.splits)

lemma get_root_attrDefs:
  "get_root E prefix path rt st = Some (r, st1) \<Longrightarrow> attrDefs st1 = attrDefs st"
  by (auto simp: get_root_def OpenConfigFile_prefix_def Let_def split: option.splits prod.splits
      dest: OpenConfigFile_attrDefs)

lemma other_loads_attrDefs:
  assumes "cfg_load E h f p st = Some (ok, st1)" "f = ReadSMARTdataCarrierDefs_fn \<or> f = ReadSrvCnnctnCfg_fn"
  shows "attrDefs st1 = attrDefs st"
proof -
  have obs: "attrDefs st4 = attrDefs st3" if "GetSMARTattributesToObserve E h r st3 = Some (r4, st4)" for r st3 r4 st4
    using that by (auto simp: GetSMARTattributesToObserve_def split: option.splits prod.splits)
  show ?thesis
    using assms get_root_attrDefs
    by (auto simp: cfg_load_def ReadSMARTdataCarrierDefs_def ReadSrvCnnctnCfg_def Let_def
        split: option.splits prod.splits if_splits dest!: obs)
qed

lemma tryCfgFilePaths_load:
  assumes "tryCfgFilePaths ie n f s = Some (True, ps, s1)"
  obtains p s0 where "loadCfg ie f p s0 = Some (True, s1)"
  using assms by (auto simp: tryCfgFilePaths_def split: option.splits prod.splits if_splits)

text \<open>
  C40: A successful initialisation, with direct access or without, has no ATA
  attribute defined: reading the definitions of the NVMe attributes clears the
  table of the ATA attributes that was read before it, and nothing fills it
  again. The access to the drives, which has no part in the configuration, leaves
  the definitions as they are.
\<close>

theorem initialised_without_ATA_definitions:
  assumes "loadCfg ie = cfg_load E h" "\<And>s. attrDefs (snd (readAllDrives ie s)) = attrDefs s"
    and "InitializeSMART ie st = Some (init_success, ps, st1)"
  shows "(\<forall>i < numMaxATAplus1 h. getSMARTattrDef i (SMARTattrDefs (attrDefs st1)) = SMARTattrDef_0)
    \<and> GetNumSMARTattrDefs h (attrDefs st1) = 0"
proof -
  obtain st2 where files: "tryFiles ie cfgFiles st = Some (True, ps, st2)"
      and st2: "st1 = (if directAccess ie then snd (readAllDrives ie st2) else st2)"
    using assms(3) by (auto simp: InitializeSMART_def split: option.splits prod.splits if_splits)
  from files obtain sA sB sC psB psC psD where
    B: "tryCfgFilePaths ie ''en/NVMeSMARTattrDefs.'' readSMARTattrDefs_NVMe sA = Some (True, psB, sB)" and
    C: "tryCfgFilePaths ie ''dataCarrierDefs.'' ReadSMARTdataCarrierDefs_fn sB = Some (True, psC, sC)" and
    D: "tryCfgFilePaths ie ''SMARTsrvCnnctn.'' ReadSrvCnnctnCfg_fn sC = Some (True, psD, st2)"
    unfolding cfgFiles_def by (auto split: option.splits prod.splits if_splits)
  have keep: "attrDefs s2 = attrDefs s1"
    if "tryCfgFilePaths ie n f s1 = Some (True, qs, s2)"
      "f = ReadSMARTdataCarrierDefs_fn \<or> f = ReadSrvCnnctnCfg_fn" for n f s1 qs s2
    using that assms(1) other_loads_attrDefs
    by (auto simp: tryCfgFilePaths_def split: option.splits prod.splits if_splits)
  obtain p s0 where "cfg_load E h readSMARTattrDefs_NVMe p s0 = Some (True, sB)"
    using tryCfgFilePaths_load [OF B] assms(1) by metis
  then have "\<forall>i < numMaxATAplus1 h. SMARTattrDefs (attrDefs sB) i = SMARTattrDef_0"
    by (rule NVMe_clears_ATA)
  moreover have "attrDefs st1 = attrDefs sB" using keep [OF C] keep [OF D] assms(2) by (simp add: st2)
  ultimately have "\<forall>i < numMaxATAplus1 h. SMARTattrDefs (attrDefs st1) i = SMARTattrDef_0" by simp
  then show ?thesis
    by (simp add: getSMARTattrDef_def GetNumSMARTattrDefs_def count_fold SMARTattrDef_0_def)
qed

text \<open>One document with a connection and an attribute, that every path leads to.\<close>

definition cfg_doc :: xml where
  "cfg_doc = XML ''options'' [] None
     [XML ''networkConnection'' [(''portNumber'', dec 80), (''serviceHostName'', ''localhost'')] None [],
      attr_elem 5 ''Spare'']"

definition init_cfg_example :: "cfg_state init_env" where
  "init_cfg_example = \<lparr>resourcesFSpath = [], ie_cwd = ''/root'', ie_cfgOpt = [],
     loadCfg = cfg_load (cfg_env_example (\<lambda>_. cfg_doc)) std_sizes,
     readAllDrives = (\<lambda>s. (acc_success, s)), directAccess = True\<rparr>"

lemma cfg_doc_loads: "\<exists>s'. loadCfg init_cfg_example f p s = Some (True, s')"
proof -
  let ?E = "cfg_env_example (\<lambda>_. cfg_doc)"
  have root: "get_root ?E (Some q) (Some []) None s = Some ((Some cfg_doc, Some (q @ ''xml'')), s)" for q s
    by (simp add: get_root_def OpenConfigFile_prefix_def OpenConfigFile_def cfg_env_example_def)
  have el: "attribute_elements cfg_doc = [attr_elem 5 ''Spare'']"
    by (simp add: attribute_elements_def cfg_doc_def attr_elem_def)
  have nm: "attribute (attr_elem 5 ''Spare'') ''name'' = Some ''Spare''"
    by (simp add: attr_elem_def attribute_def)
  have nc: "first_child cfg_doc ''networkConnection'' = Some (hd (xml_children cfg_doc))"
    "first_child cfg_doc observe_name = None" "attribute (hd (xml_children cfg_doc)) ''serviceHostName'' = Some ''localhost''"
    by (simp_all add: first_child_def cfg_doc_def observe_name_def attr_elem_def attribute_def)
  have port: "numAttribute (cfgToInt ?E) (hd (xml_children cfg_doc)) ''portNumber'' 0 = 80"
    using read_int_dec_int [of 80]
    by (simp add: cfg_doc_def numAttribute_def attribute_def cfg_env_example_def dec_int_def)
  have dc: "filter (\<lambda>c. xml_name c = ''data_carrier'') (xml_children cfg_doc) = []"
    by (simp add: cfg_doc_def attr_elem_def)
  have sz: "uint_of_int 5 = 5" "5 < numMaxATAplus1 std_sizes" "5 < numNVMePlus1 std_sizes"
    by (simp_all add: uint_of_int_def numMaxATAplus1_def numNVMePlus1_def std_sizes_def)
  show ?thesis
    by (cases f) (simp_all add: init_cfg_example_def cfg_load_def readSMARTattrDefs_def root el nm
        attr_elem_id add_def_def Let_def sz ReadSMARTdataCarrierDefs_def dc ReadSrvCnnctnCfg_def nc port
        GetSMARTattributesToObserve_def)
qed

theorem initialised_without_ATA_definitions_witness:
  "\<exists>ps st1. InitializeSMART init_cfg_example cfg_state_example = Some (init_success, ps, st1)
    \<and> GetNumSMARTattrDefs std_sizes (attrDefs st1) = 0"
proof -
  obtain ps st1 where "tryFiles init_cfg_example cfgFiles cfg_state_example
      = Some (list_all (cfg_found init_cfg_example (\<lambda>_ _. True)) cfgFiles, ps, st1)"
    using tryFiles_result [of init_cfg_example "\<lambda>_ _. True", OF cfg_doc_loads] by blast
  moreover have a: "readAllDrives init_cfg_example s = (acc_success, s)" for s by (simp add: init_cfg_example_def)
  ultimately have i: "InitializeSMART init_cfg_example cfg_state_example = Some (init_success, ps, st1)"
    by (simp add: InitializeSMART_def cfg_found_def list_all_iff)
  have "loadCfg init_cfg_example = cfg_load (cfg_env_example (\<lambda>_. cfg_doc)) std_sizes"
    by (simp add: init_cfg_example_def)
  from initialised_without_ATA_definitions [OF this _ i] a show ?thesis using i by simp
qed

text \<open>
  The reader of all sections of one file passes no array for the definitions and
  no path for the messages: it only gets through a file whose elements define no
  attribute.
\<close>

lemma defs_loop_NULL:
  "defs_loop E h None None es [] st = Some st1 \<Longrightarrow>
    \<forall>e\<in>set es. elem_id E e \<noteq> 0 \<and> opt_default [] (attribute e ''name'') = []"
proof (induction es arbitrary: st)
  case (Cons e es)
  then show ?case by (auto simp: Let_def add_def_def split: if_splits option.splits)
qed simp

lemma LoadSMARTcfg_defines_nothing:
  assumes "LoadSMARTcfg E h prefix st = Some r"
  shows "\<exists>rt es. es \<noteq> [] \<and> es = attribute_elements rt
    \<and> (\<forall>e\<in>set es. elem_id E e \<noteq> 0 \<and> opt_default [] (attribute e ''name'') = [])"
proof -
  obtain rt st1 st2 where "readSMARTattrDefs E h None None None (Some rt) st1 = Some st2"
    using assms by (auto simp: LoadSMARTcfg_def split: option.splits prod.splits)
  then have "attribute_elements rt \<noteq> [] \<and> (\<exists>st3 st4. defs_loop E h None None (attribute_elements rt) [] st3 = Some st4)"
    by (cases "attribute_elements rt") (auto simp: readSMARTattrDefs_def get_root_def simp del: defs_loop.simps)
  then show ?thesis using defs_loop_NULL by blast
qed

subsection \<open>The models\<close>

lemma data_carriers_sorted:
  "\<lbrakk>data_carriers E h es models = Some ms; sorted_wrt mf_less models\<rbrakk> \<Longrightarrow> sorted_wrt mf_less ms"
proof (induction es arbitrary: models)
  case (Cons e es)
  then show ?case
    by (auto simp: data_carrier_def Let_def mf.set_insert_sorted split: option.splits if_splits)
qed simp

end
