(* ===== verification/OtherConfig.thy ===== *)
theory OtherConfig
  imports ConfigLoad
begin

text \<open>
  The two other loaders of the configuration: \<open>libConfig/ConfigurationLoader.cpp\<close>
  for files of libconfig, \<open>Windows/ConfigurationLoader.cpp\<close> for INI files.

  Both were written against an older interface of the base class, a set of
  attribute definitions ordered by their ID and a map of details; these are part
  of the state here. libconfig and the functions of Windows for INI files are
  parameters: a setting is a value of a type of its own, read by the functions in
  the environment, None being a \<open>SettingNotFoundException\<close> or a lookup that
  fails.
\<close>

section \<open>libconfig\<close>

record 's setting_api =
  sg_member :: "'s \<Rightarrow> string \<Rightarrow> 's option"
  sg_length :: "'s \<Rightarrow> nat"
  sg_elem :: "'s \<Rightarrow> nat \<Rightarrow> 's"
  sg_isInt :: "'s \<Rightarrow> bool"
  sg_int :: "'s \<Rightarrow> int"
  lookupInt :: "'s \<Rightarrow> string \<Rightarrow> int option"
  lookupUnsigned :: "'s \<Rightarrow> string \<Rightarrow> nat option"
  lookupString :: "'s \<Rightarrow> string \<Rightarrow> string option"
  sourceFile :: "'s \<Rightarrow> string"
  sourceLine :: "'s \<Rightarrow> nat"
  notFoundPath :: "'s \<Rightarrow> string \<Rightarrow> string"
  notFoundWhat :: "'s \<Rightarrow> string \<Rightarrow> string"

datatype 's cfg_read = ReadRoot 's | FileIOException | ParseException string nat string

datatype cfg_exception = FileException_exc string | ParseConfigFileException_exc string nat
  | SettingNotFound_exc string string

record lc_state =
  lc_port :: nat
  lc_hostName :: string
  lc_retryWaitTimeInS :: nat
  lc_IDsToObserve :: "int set"
  lc_attributes :: "SMARTattrDef list"
  lc_names :: "string set"
  lc_messages :: "string list"

definition def_less :: "SMARTattrDef \<Rightarrow> SMARTattrDef \<Rightarrow> bool" where
  "def_less l r \<longleftrightarrow> attributeID l < attributeID r"

interpretation def_order: strict_weak_order def_less
  by (rule strict_weak_order_key [of _ attributeID]) (simp add: def_less_def)

definition lc_show :: "string \<Rightarrow> lc_state \<Rightarrow> lc_state" where
  "lc_show s st = st\<lparr>lc_messages := lc_messages st @ [s]\<rparr>"

definition sg_at :: "'s setting_api \<Rightarrow> 's \<Rightarrow> string \<Rightarrow> cfg_exception + 's" where
  "sg_at S s name = (case sg_member S s name of
     None \<Rightarrow> Inl (SettingNotFound_exc (notFoundPath S s name) (notFoundWhat S s name)) | Some m \<Rightarrow> Inr m)"

definition lc_ReadServiceConfig :: "'s setting_api \<Rightarrow> 's \<Rightarrow> lc_state \<Rightarrow> lc_state" where
  "lc_ReadServiceConfig S net st =
     (let st1 = (case lookupString S net ''serviceHostName'' of None \<Rightarrow> st | Some n \<Rightarrow> st\<lparr>lc_hostName := n\<rparr>)
      in case lookupUnsigned S net ''retryWaitTimeInS'' of None \<Rightarrow> st1
         | Some n \<Rightarrow> st1\<lparr>lc_retryWaitTimeInS := n\<rparr>)"

definition lc_ReadNetworkConfig :: "'s setting_api \<Rightarrow> 's \<Rightarrow> lc_state \<Rightarrow> (cfg_exception + 's) \<times> lc_state" where
  "lc_ReadNetworkConfig S rt st =
     (case sg_at S rt ''networkConnection'' of
        Inl e \<Rightarrow> (Inl e, st)
      | Inr net \<Rightarrow> (Inr net, case lookupUnsigned S net ''portNumber'' of None \<Rightarrow> st
                             | Some n \<Rightarrow> st\<lparr>lc_port := n\<rparr>))"

fun lc_observe :: "'s setting_api \<Rightarrow> 's list \<Rightarrow> lc_state \<Rightarrow> lc_state" where
  "lc_observe S [] st = st"
| "lc_observe S (s # ss) st =
     lc_observe S ss (if sg_isInt S s
       then st\<lparr>lc_IDsToObserve := insert (sg_int S s) (lc_IDsToObserve st)\<rparr> else st)"

definition sg_elems :: "'s setting_api \<Rightarrow> 's \<Rightarrow> 's list" where
  "sg_elems S s = map (sg_elem S s) [0..<sg_length S s]"

definition lc_GetSMARTattributesToObserve :: "'s setting_api \<Rightarrow> 's \<Rightarrow> lc_state
    \<Rightarrow> (cfg_exception + unit) \<times> lc_state" where
  "lc_GetSMARTattributesToObserve S rt st =
     (case sg_at S rt ''SMART_parameters_to_observe'' of
        Inl e \<Rightarrow> (Inl e, st)
      | Inr l \<Rightarrow> (Inr (), lc_observe S (sg_elems S l) st))"

text \<open>
  The loop over the parameters: \<open>crit\<close> is the variable
  \<open>criticalSMARTattribute\<close>, which lives longer than one turn.
\<close>

definition crit_next :: "'s setting_api \<Rightarrow> 's \<Rightarrow> bool \<Rightarrow> bool" where
  "crit_next S p crit = (case lookupString S p ''Critical'' of
     None \<Rightarrow> False | Some v \<Rightarrow> v = ''yes'' \<or> crit)"

definition no_Id_message :: "'s setting_api \<Rightarrow> 's \<Rightarrow> string" where
  "no_Id_message S p = ''warning: no '' @ [CHR 0x22] @ ''Id'' @ [CHR 0x22]
     @ '' parameter provided for SMART parameter at '' @ sourceFile S p @ '':'' @ dec (sourceLine S p)"

fun lc_parameters :: "'s setting_api \<Rightarrow> 's list \<Rightarrow> bool \<Rightarrow> lc_state \<Rightarrow> lc_state" where
  "lc_parameters S [] crit st = st"
| "lc_parameters S (p # ps) crit st =
     (case lookupInt S p ''Id'' of
        None \<Rightarrow> lc_parameters S ps crit (lc_show (no_Id_message S p) st)
      | Some i \<Rightarrow>
          (let crit' = crit_next S p crit
           in lc_parameters S ps crit'
                (case lookupString S p ''Name'' of
                   None \<Rightarrow> st
                 | Some nm \<Rightarrow> st\<lparr>lc_names := insert nm (lc_names st),
                     lc_attributes := set_insert def_less
                       \<lparr>criticalAttribute = crit', attributeID = uint_of_int i, attributeName = cstr nm\<rparr>
                       (lc_attributes st)\<rparr>)))"

text \<open>
  The text of the file name is the wide one converted; \<open>file\<close> is what libconfig
  makes of the file. The pointer that is returned points to a setting of the
  object \<open>libConfig\<close>, which is destroyed when the function returns: using it is
  undefined.
\<close>

datatype 's root_ptr = PointsTo 's | Dangling

definition lc_OpenConfigFile :: "(string \<Rightarrow> 's cfg_read) \<Rightarrow> (string \<Rightarrow> string) \<Rightarrow> string \<Rightarrow> lc_state
    \<Rightarrow> (cfg_exception + 's root_ptr) \<times> lc_state" where
  "lc_OpenConfigFile file narrow prefix st =
     (let full = narrow (prefix @ ''cfg'')
      in case file full of
           ReadRoot r \<Rightarrow> (Inr Dangling, st)
         | FileIOException \<Rightarrow> (Inl (FileException_exc (prefix @ ''cfg'')), st)
         | ParseException f line err \<Rightarrow>
             (Inl (ParseConfigFileException_exc prefix line),
              lc_show (''Parse error in file '' @ [CHR 0x0A, CHR 0x22] @ f @ [CHR 0x22, CHR 0x0A]
                @ '', line '' @ dec line @ '' : '' @ err) st))"

definition lc_ReadServiceConnectionSettings :: "'s setting_api \<Rightarrow> (string \<Rightarrow> 's cfg_read) \<Rightarrow> (string \<Rightarrow> string)
    \<Rightarrow> string \<Rightarrow> lc_state \<Rightarrow> ((cfg_exception + unit) \<times> lc_state) option" where
  "lc_ReadServiceConnectionSettings S file narrow prefix st =
     (case lc_OpenConfigFile file narrow prefix st of
        (Inl e, st1) \<Rightarrow> Some (Inl e, st1)
      | (Inr Dangling, st1) \<Rightarrow> None
      | (Inr (PointsTo rt), st1) \<Rightarrow>
          (case lc_ReadNetworkConfig S rt st1 of
             (Inl e, st2) \<Rightarrow> Some (Inl e, st2)
           | (Inr net, st2) \<Rightarrow> Some (Inr (), lc_ReadServiceConfig S net st2)))"

text \<open>What the \<open>try\<close> block does; a setting that is not found ends it.\<close>

definition lc_read_all :: "'s setting_api \<Rightarrow> 's \<Rightarrow> lc_state \<Rightarrow> (cfg_exception + unit) \<times> lc_state" where
  "lc_read_all S rt st =
     (case lc_ReadNetworkConfig S rt st of
        (Inl e, st1) \<Rightarrow> (Inl e, st1)
      | (Inr net, st1) \<Rightarrow>
          (case lc_GetSMARTattributesToObserve S rt st1 of
             (Inl e, st2) \<Rightarrow> (Inl e, st2)
           | (Inr _, st2) \<Rightarrow>
               (case sg_at S rt ''SMART_parameters'' of
                  Inl e \<Rightarrow> (Inl e, st2)
                | Inr l \<Rightarrow> (Inr (), lc_parameters S (sg_elems S l) False st2))))"

definition not_found_message :: "string \<Rightarrow> cfg_exception \<Rightarrow> string" where
  "not_found_message full e = (case e of
     SettingNotFound_exc path cause \<Rightarrow> [CHR 0x22] @ path @ [CHR 0x22]
       @ '' setting not found in configuration file '' @ [CHR 0x0A, CHR 0x22] @ full @ [CHR 0x22, CHR 0x0A]
       @ ''cause: '' @ cause
   | _ \<Rightarrow> [])"

definition LoadSMARTparametersConfiguration :: "'s setting_api \<Rightarrow> (string \<Rightarrow> 's cfg_read) \<Rightarrow> (string \<Rightarrow> string)
    \<Rightarrow> string \<Rightarrow> lc_state \<Rightarrow> ((cfg_exception + bool) \<times> lc_state) option" where
  "LoadSMARTparametersConfiguration S file narrow prefix st =
     (case lc_OpenConfigFile file narrow prefix st of
        (Inl e, st1) \<Rightarrow> Some (Inl e, st1)
      | (Inr Dangling, st1) \<Rightarrow> None
      | (Inr (PointsTo rt), st1) \<Rightarrow>
          (case lc_read_all S rt (st1\<lparr>lc_attributes := []\<rparr>) of
             (Inl e, st2) \<Rightarrow> Some (Inr True, lc_show (not_found_message (narrow (prefix @ ''cfg'')) e) st2)
           | (Inr _, st2) \<Rightarrow> Some (Inr True, st2)))"

text \<open>
  What is meant, without the loop: parameter \<open>k\<close> is critical if a parameter up
  to it says yes and none from that one on, \<open>k\<close> included, lacks the setting;
  parameters without ID do not count.
\<close>

definition has_Id :: "'s setting_api \<Rightarrow> 's \<Rightarrow> bool" where
  "has_Id S p \<longleftrightarrow> lookupInt S p ''Id'' \<noteq> None"

definition critical_upto :: "'s setting_api \<Rightarrow> 's list \<Rightarrow> bool" where
  "critical_upto S ps \<longleftrightarrow> (\<exists>j<length ps. has_Id S (ps ! j) \<and> lookupString S (ps ! j) ''Critical'' = Some ''yes''
     \<and> (\<forall>l<length ps. j \<le> l \<longrightarrow> has_Id S (ps ! l) \<longrightarrow> lookupString S (ps ! l) ''Critical'' \<noteq> None))"

definition crit_after :: "'s setting_api \<Rightarrow> 's list \<Rightarrow> bool \<Rightarrow> bool" where
  "crit_after S ps crit = fold (\<lambda>p c. if has_Id S p then crit_next S p c else c) ps crit"

lemma crit_after_critical_upto: "crit_after S ps False = critical_upto S ps"
proof (induction ps rule: rev_induct)
  case (snoc p ps)
  have "crit_after S (ps @ [p]) False =
      (if has_Id S p then crit_next S p (critical_upto S ps) else critical_upto S ps)"
    using snoc by (simp add: crit_after_def)
  also have "\<dots> = critical_upto S (ps @ [p])"
  proof (cases "has_Id S p \<and> lookupString S p ''Critical'' = Some ''yes''")
    case True
    then show ?thesis
      by (auto simp: critical_upto_def crit_next_def nth_append intro!: exI [of _ "length ps"])
  next
    case False
    then show ?thesis
      by (auto simp: critical_upto_def crit_next_def nth_append less_Suc_eq split: option.splits if_splits)
  qed
  finally show ?case .
qed (simp add: crit_after_def critical_upto_def)

definition names_attr :: "'s setting_api \<Rightarrow> attr_id \<Rightarrow> 's \<Rightarrow> bool" where
  "names_attr S i p \<longleftrightarrow> map_option uint_of_int (lookupInt S p ''Id'') = Some i
     \<and> lookupString S p ''Name'' \<noteq> None"

definition first_naming :: "'s setting_api \<Rightarrow> attr_id \<Rightarrow> 's list \<Rightarrow> SMARTattrDef option" where
  "first_naming S i ps = map_option
     (\<lambda>k. \<lparr>criticalAttribute = critical_upto S (take (Suc k) ps), attributeID = i,
           attributeName = cstr (the (lookupString S (ps ! k) ''Name''))\<rparr>)
     (find (\<lambda>k. names_attr S i (ps ! k)) [0..<length ps])"

definition find_def :: "attr_id \<Rightarrow> SMARTattrDef list \<Rightarrow> SMARTattrDef option" where
  "find_def i = set_find def_less \<lparr>criticalAttribute = False, attributeID = i, attributeName = []\<rparr>"

lemma lc_parameters_append:
  "lc_parameters S (ps @ qs) crit st = lc_parameters S qs (crit_after S ps crit) (lc_parameters S ps crit st)"
  by (induction ps arbitrary: crit st)
    (auto simp: crit_after_def has_Id_def Let_def split: option.splits)

lemma find_def_insert:
  assumes "sorted_wrt def_less ds"
  shows "find_def i (set_insert def_less d ds) =
    (case find_def i ds of Some e \<Rightarrow> Some e | None \<Rightarrow> if attributeID d = i then Some d else None)"
proof (cases "attributeID d = i")
  case True
  show ?thesis
    using assms True unfolding find_def_def
    by (induction ds) (auto simp: def_less_def split: option.splits)
next
  case False
  then have "attributeID d < i \<or> i < attributeID d" by auto
  then have "find_def i (set_insert def_less d ds) = find_def i ds"
    unfolding find_def_def by (intro def_order.set_find_insert_other [OF assms]) (simp add: def_less_def)
  then show ?thesis using False by (simp split: option.split)
qed

lemma find_snoc:
  "find P (xs @ [x]) = (case find P xs of Some y \<Rightarrow> Some y | None \<Rightarrow> if P x then Some x else None)"
  by (induction xs) auto

lemma first_naming_snoc: "first_naming S i (ps @ [p]) =
    (case first_naming S i ps of Some d \<Rightarrow> Some d
     | None \<Rightarrow> if names_attr S i p
         then Some \<lparr>criticalAttribute = critical_upto S (ps @ [p]), attributeID = i,
           attributeName = cstr (the (lookupString S p ''Name''))\<rparr> else None)"
proof -
  have eq: "find (\<lambda>k. names_attr S i ((ps @ [p]) ! k)) [0..<length ps]
      = find (\<lambda>k. names_attr S i (ps ! k)) [0..<length ps]"
    by (rule find_cong) (simp_all add: nth_append)
  show ?thesis
  proof (cases "find (\<lambda>k. names_attr S i (ps ! k)) [0..<length ps]")
    case None
    then show ?thesis by (simp add: first_naming_def find_snoc eq)
  next
    case (Some k)
    then have "k < length ps" by (auto simp: find_Some_iff)
    then show ?thesis using Some by (simp add: first_naming_def find_snoc eq) (simp add: nth_append)
  qed
qed

lemma lc_parameters_attributes:
  assumes "lc_attributes st = []"
  shows "sorted_wrt def_less (lc_attributes (lc_parameters S ps False st))
    \<and> find_def i (lc_attributes (lc_parameters S ps False st)) = first_naming S i ps"
proof (induction ps rule: rev_induct)
  case Nil
  then show ?case using assms by (simp add: find_def_def first_naming_def)
next
  case (snoc p ps)
  let ?st = "lc_parameters S ps False st"
  have crit: "has_Id S p \<Longrightarrow> crit_next S p (crit_after S ps False) = critical_upto S (ps @ [p])"
    by (simp add: crit_after_critical_upto [symmetric]) (simp add: crit_after_def)
  show ?case
  proof (cases "lookupInt S p ''Id''")
    case None
    then show ?thesis using snoc
      by (simp add: lc_parameters_append first_naming_snoc names_attr_def lc_show_def split: option.split)
  next
    case (Some n)
    then have "crit_next S p (crit_after S ps False) = critical_upto S (ps @ [p])"
      by (intro crit) (simp add: has_Id_def)
    then show ?thesis using snoc Some
      by (auto simp: lc_parameters_append first_naming_snoc names_attr_def find_def_insert
          def_order.set_insert_sorted split: option.splits)
  qed
qed

text \<open>
  C15: Loading a file of libconfig that can be read is undefined: its settings are
  used after the object they belong to was destroyed. What the statements that
  read the settings would do to a tree that still exists: an attribute gets the
  name of the first parameter that has its ID and a name, without a name none,
  whatever was known before. It is marked critical if that parameter, or one
  before it with no parameter without the setting between them, says yes; with
  all sections there is no message but for parameters without ID.
\<close>

theorem libconfig_parameters_loaded:
  assumes "file (narrow (prefix @ ''cfg'')) = ReadRoot rt" "sg_member S rt ''networkConnection'' = Some net"
    and "sg_member S rt ''SMART_parameters_to_observe'' = Some obs"
    and "sg_member S rt ''SMART_parameters'' = Some params"
  shows "LoadSMARTparametersConfiguration S file narrow prefix st = None
    \<and> (\<exists>st'. lc_read_all S rt (st\<lparr>lc_attributes := []\<rparr>) = (Inr (), st')
    \<and> (\<forall>i. find_def i (lc_attributes st') = first_naming S i (sg_elems S params))
    \<and> lc_IDsToObserve st' = lc_IDsToObserve st \<union> sg_int S ` {s \<in> set (sg_elems S obs). sg_isInt S s}
    \<and> lc_messages st' = lc_messages st
        @ map (no_Id_message S) (filter (\<lambda>p. \<not> has_Id S p) (sg_elems S params)))"
proof -
  have o: "lc_IDsToObserve (lc_observe S ss st) = lc_IDsToObserve st \<union> sg_int S ` {s \<in> set ss. sg_isInt S s}"
      "lc_attributes (lc_observe S ss st) = lc_attributes st" "lc_messages (lc_observe S ss st) = lc_messages st"
    for ss st by (induction ss arbitrary: st) auto
  have p: "lc_IDsToObserve (lc_parameters S ps c st) = lc_IDsToObserve st"
      "lc_messages (lc_parameters S ps c st) = lc_messages st @ map (no_Id_message S) (filter (\<lambda>p. \<not> has_Id S p) ps)"
    for ps c st
    by (induction ps arbitrary: c st) (auto simp: lc_show_def has_Id_def Let_def split: option.splits)
  show ?thesis
    using assms
    by (simp add: LoadSMARTparametersConfiguration_def lc_OpenConfigFile_def lc_read_all_def
        lc_ReadNetworkConfig_def lc_GetSMARTattributesToObserve_def sg_at_def o p Let_def
        lc_parameters_attributes split: option.split)
qed

definition settings_example :: "nat setting_api" where
  "settings_example = \<lparr>
     sg_member = (\<lambda>s n. if s \<noteq> 0 then None else if n = ''networkConnection'' then Some 1
       else if n = ''SMART_parameters_to_observe'' then Some 2 else if n = ''SMART_parameters'' then Some 3 else None),
     sg_length = (\<lambda>s. if s = 2 then 1 else if s = 3 then 2 else 0), sg_elem = (\<lambda>s k. 10 * s + k),
     sg_isInt = (\<lambda>s. s = 20), sg_int = (\<lambda>_. 5),
     lookupInt = (\<lambda>s n. if n \<noteq> ''Id'' then None else if s = 30 then Some 5 else if s = 31 then Some 194 else None),
     lookupUnsigned = (\<lambda>s n. None),
     lookupString = (\<lambda>s n. if s \<noteq> 30 \<and> s \<noteq> 31 then None else if n = ''Name'' then Some ''x''
       else if n = ''Critical'' then Some (if s = 30 then ''yes'' else ''no'') else None),
     sourceFile = (\<lambda>_. []), sourceLine = (\<lambda>_. 0), notFoundPath = (\<lambda>_ _. []), notFoundWhat = (\<lambda>_ _. [])\<rparr>"

definition lc_example :: lc_state where
  "lc_example = \<lparr>lc_port = 1, lc_hostName = [], lc_retryWaitTimeInS = 0, lc_IDsToObserve = {},
     lc_attributes = [], lc_names = {}, lc_messages = []\<rparr>"

text \<open>The second parameter of the example says \<open>no\<close> and is critical all the same.\<close>

theorem libconfig_parameters_loaded_witness:
  "\<exists>st'. LoadSMARTparametersConfiguration settings_example (\<lambda>_. ReadRoot 0) id ''a.'' lc_example = None
    \<and> lc_read_all settings_example 0 (lc_example\<lparr>lc_attributes := []\<rparr>) = (Inr (), st')
    \<and> find_def 194 (lc_attributes st') = Some \<lparr>criticalAttribute = True, attributeID = 194, attributeName = ''x''\<rparr>
    \<and> lookupString settings_example 31 ''Critical'' = Some ''no''
    \<and> lc_IDsToObserve st' = {5} \<and> lc_messages st' = []"
proof -
  have m: "sg_member settings_example 0 ''networkConnection'' = Some 1"
      "sg_member settings_example 0 ''SMART_parameters_to_observe'' = Some 2"
      "sg_member settings_example 0 ''SMART_parameters'' = Some 3"
    by (simp_all add: settings_example_def)
  have e: "sg_elems settings_example 3 = [30, 31]" "sg_elems settings_example 2 = [20]"
    by (simp_all add: settings_example_def sg_elems_def upt_rec)
  obtain st' where st': "LoadSMARTparametersConfiguration settings_example (\<lambda>_. ReadRoot 0) id ''a.'' lc_example = None"
      "lc_read_all settings_example 0 (lc_example\<lparr>lc_attributes := []\<rparr>) = (Inr (), st')"
      "find_def 194 (lc_attributes st') = first_naming settings_example 194 [30, 31]"
      "lc_IDsToObserve st' = {} \<union> sg_int settings_example ` {s \<in> set [20]. sg_isInt settings_example s}"
      "lc_messages st' = map (no_Id_message settings_example) (filter (\<lambda>p. \<not> has_Id settings_example p) [30, 31])"
    using libconfig_parameters_loaded [of "\<lambda>_. ReadRoot 0" id "''a.''" _ _ _ _ _ lc_example, OF refl m] unfolding e
    by (auto simp only: lc_example_def lc_state.simps append_Nil)
  have "critical_upto settings_example [30, 31]"
    unfolding critical_upto_def
    by (rule exI [of _ 0]) (auto simp: settings_example_def has_Id_def less_Suc_eq)
  moreover have "find (\<lambda>k. names_attr settings_example 194 ([30, 31] ! k)) [0..<length [30 :: nat, 31]] = Some 1"
    by (simp add: names_attr_def settings_example_def uint_of_int_def upt_rec)
  ultimately have "first_naming settings_example 194 [30, 31]
      = Some \<lparr>criticalAttribute = True, attributeID = 194, attributeName = ''x''\<rparr>"
    by (simp add: first_naming_def) (simp add: settings_example_def NUL_def)
  then show ?thesis
    using st' by (auto simp: settings_example_def has_Id_def)
qed

section \<open>INI files\<close>

text \<open>
  \<open>GetPrivateProfileInt\<close> and \<open>GetPrivateProfileString\<close> of section, key and file;
  \<open>toId\<close> is the conversion to the type of the ID in the details.
\<close>

record ini_api =
  profileInt :: "string \<Rightarrow> string \<Rightarrow> string \<Rightarrow> int"
  profileString :: "string \<Rightarrow> string \<Rightarrow> string \<Rightarrow> string"
  toId :: "int \<Rightarrow> nat"

record smart_details =
  m_ucAttribId :: nat
  m_bCritical :: bool
  m_csAttribName :: string
  m_csAttribDetails :: string

text \<open>
  The name of the program with its last three characters replaced; a shorter
  name writes before the array (None).
\<close>

definition ini_path :: "string \<Rightarrow> string option" where
  "ini_path exe = (if length exe < 3 then None else Some (take (length exe - 3) exe @ ''ini''))"

definition ini_section :: "nat \<Rightarrow> string" where
  "ini_section k = ''Attrib'' @ dec k"

definition ini_details :: "ini_api \<Rightarrow> string \<Rightarrow> nat \<Rightarrow> smart_details" where
  "ini_details W path k = \<lparr>m_ucAttribId = toId W (profileInt W (ini_section k) ''Id'' path),
     m_bCritical = (profileInt W (ini_section k) ''Critical'' path \<noteq> 0),
     m_csAttribName = profileString W (ini_section k) ''Name'' path,
     m_csAttribDetails = profileString W (ini_section k) ''Details'' path\<rparr>"

text \<open>\<open>std::map::insert\<close> keeps the entry the map has.\<close>

fun ini_loop :: "ini_api \<Rightarrow> string \<Rightarrow> nat list \<Rightarrow> (nat \<rightharpoonup> smart_details) \<Rightarrow> (nat \<rightharpoonup> smart_details)" where
  "ini_loop W path [] m = m"
| "ini_loop W path (k # ks) m =
     (let d = ini_details W path k
      in ini_loop W path ks (if m (m_ucAttribId d) = None then m(m_ucAttribId d \<mapsto> d) else m))"

definition ini_LoadConfiguration :: "ini_api \<Rightarrow> string \<Rightarrow> ((cfg_exception + bool) \<times> (nat \<rightharpoonup> smart_details)) option" where
  "ini_LoadConfiguration W exe =
     map_option (\<lambda>path.
        let n = profileInt W ''General'' ''Max Attributes'' path
        in if n = 0 then (Inl (FileException_exc path), Map.empty)
           else (Inr True, ini_loop W path [0..<nat n] Map.empty))
       (ini_path exe)"

lemma ini_loop_find:
  "ini_loop W path ks m i = (case m i of Some d \<Rightarrow> Some d
     | None \<Rightarrow> map_option (ini_details W path) (find (\<lambda>k. m_ucAttribId (ini_details W path k) = i) ks))"
  by (induction ks arbitrary: m) (auto simp: Let_def split: option.splits)

text \<open>
  Loading an INI file ends with an exception exactly if its number of
  attributes is 0 or missing. Otherwise an attribute has the details of the first
  of the numbered sections with its ID, and every section's ID is in the map.
\<close>

theorem ini_file_loaded:
  assumes "ini_path exe = Some path"
  shows "\<exists>r m. ini_LoadConfiguration W exe = Some (r, m)
    \<and> (r = Inl (FileException_exc path) \<longleftrightarrow> profileInt W ''General'' ''Max Attributes'' path = 0)
    \<and> (\<forall>i. m i = map_option (ini_details W path) (find (\<lambda>k. m_ucAttribId (ini_details W path k) = i)
          [0..<nat (profileInt W ''General'' ''Max Attributes'' path)]))
    \<and> dom m = (\<lambda>k. m_ucAttribId (ini_details W path k))
        ` {0..<nat (profileInt W ''General'' ''Max Attributes'' path)}"
proof -
  let ?n = "profileInt W ''General'' ''Max Attributes'' path" and ?d = "ini_details W path"
  have dom: "dom (ini_loop W path ks Map.empty) = (\<lambda>k. m_ucAttribId (?d k)) ` set ks" for ks
    by (auto simp: ini_loop_find find_None_iff dom_def)
  show ?thesis using assms
    by (auto simp: ini_LoadConfiguration_def Let_def ini_loop_find dom)
qed

definition ini_example :: ini_api where
  "ini_example = \<lparr>profileInt = (\<lambda>sec key path. if key = ''Id'' then 194 else 2),
     profileString = (\<lambda>sec key path. sec), toId = nat\<rparr>"

theorem ini_file_loaded_witness:
  "\<exists>m. ini_LoadConfiguration ini_example ''a.exe'' = Some (Inr True, m) \<and> dom m = {194}"
proof -
  have "ini_path ''a.exe'' = Some ''a.ini''" by (simp add: ini_path_def)
  from ini_file_loaded [OF this, of ini_example] show ?thesis
    by (auto simp: ini_LoadConfiguration_def ini_example_def ini_details_def ini_path_def)
qed

end
