(* ===== verification/ClientNet.thy ===== *)
theory ClientNet
  imports XmlData
begin

text \<open>
  \<open>client/InterProcComm/BSDskt/SMARTmonUI_BSDskt.cpp\<close>, the part above the
  messages: connecting to the service, and the session of a client that reads
  the supported attributes and the values and starts the update thread.

  What the socket functions of the operating system answer are parameters; the
  calls that have an effect outside are recorded in their order.
\<close>

datatype client_call =
    Net net_call
  | RegCancelSelectSigHandler
  | StartSrvCnnctCntDown
  | SetBlockingSocket
  | CloseSocketFD
  | ShowConnectionState string nat
  | StartConnectThread bool
  | BeforeConnectToServer
  | AfterConnectToServer int
  | ReBuildUserInterface
  | UpdateUI
  | StartUpdateThread start_result

section \<open>Connecting without blocking\<close>

record connect_os =
  connect_rc :: int
  isNonBlckngCnnctRtrnCode :: bool
  select_rc :: int
  iSO_ERROR :: int
  NonBlckingIsCnnctd :: bool
  getpeernameErrNo :: int
  os_errno :: int
  os_ETIMEDOUT :: int

text \<open>The result, the error number, and the calls.\<close>

definition ConnectToSocketNonBlocking :: "connect_os \<Rightarrow> int \<times> int \<times> client_call list" where
  "ConnectToSocketNonBlocking Q =
     (let c0 = [Net (NetAction nonBlckCnnctToSrv)] in
      if connect_rc Q \<noteq> - 1 then (connect_rc Q, - 1, c0)
      else if isNonBlckngCnnctRtrnCode Q then
        (let c1 = c0 @ [StartSrvCnnctCntDown] in
         if 0 < select_rc Q then
           (if NonBlckingIsCnnctd Q \<and> iSO_ERROR Q = 0 then (- 1, 0, c1 @ [SetBlockingSocket])
            else (- 1, if iSO_ERROR Q \<noteq> 0 then os_errno Q else getpeernameErrNo Q, c1 @ [CloseSocketFD]))
         else if select_rc Q = 0 then (- 1, os_ETIMEDOUT Q, c1 @ [CloseSocketFD])
         else (os_errno Q, os_errno Q, c1))
      else (- 1, - 1, c0))"

definition SocketConnectThreadFunc :: "connect_os \<Rightarrow> int \<times> client_call list" where
  "SocketConnectThreadFunc Q =
     (case ConnectToSocketNonBlocking Q of (res, errNo, calls) \<Rightarrow>
        (res, calls
          @ [if errNo \<noteq> 0 then CloseSocketFD else Net (NetMessage ''successfully connected to service'')]
          @ [AfterConnectToServer errNo]))"

text \<open>The blocking variant passes on \<open>errno\<close> whether or not \<open>connect\<close> has set it.\<close>

definition InterruptableBlckngCnnctToSrvThrdFn :: "connect_os \<Rightarrow> int \<times> client_call list" where
  "InterruptableBlckngCnnctToSrvThrdFn Q =
     (connect_rc Q, [StartSrvCnnctCntDown, Net (NetAction cnnctToSrv), AfterConnectToServer (os_errno Q)])"

record prep_os =
  prepCnnctToSrvRslt :: nat
  prepCnnctToSrvSucceeded :: nat
  socketTimeoutInS :: rat

definition ConnectToServer :: "prep_os \<Rightarrow> string \<Rightarrow> bool \<Rightarrow> nat \<times> client_call list" where
  "ConnectToServer P hostName asyncConnect =
     (if prepCnnctToSrvRslt P \<noteq> prepCnnctToSrvSucceeded P
      then (prepCnnctToSrvRslt P, [RegCancelSelectSigHandler])
      else (let t = (if socketTimeoutInS P = 0 then 30 else socketTimeoutInS P) in
        (prepCnnctToSrvRslt P, [RegCancelSelectSigHandler]
          @ (if asyncConnect
             then [ShowConnectionState hostName (nat \<lfloor>t\<rfloor>), StartConnectThread True, BeforeConnectToServer]
             else [StartConnectThread False]))))"

record err_env =
  ECONNREFUSED :: int
  err_ETIMEDOUT :: int
  EBADFD :: int
  EnglishMessageFromErrorCode :: "int \<Rightarrow> string"

definition HandleConnectionError :: "err_env \<Rightarrow> string \<Rightarrow> nat \<Rightarrow> int \<Rightarrow> int \<Rightarrow> client_call list" where
  "HandleConnectionError R host port fd connectResult =
     [Net (NetMessage (''error connecting to S.M.A.R.T. values server at \"'' @ host @ ''\", port ''
        @ dec port @ '':'' @
        (if connectResult = ECONNREFUSED R then ''No process listening on the remote address''
         else if connectResult = err_ETIMEDOUT R then ''connection timed out''
         else if connectResult = EBADFD R then
           ''The socket file descriptor #'' @ dec_int fd @ '' is not a valid open file descriptor.''
         else EnglishMessageFromErrorCode R connectResult @ '' (OS error code: '' @ dec_int connectResult @ '')'')))]"

section \<open>The session\<close>

record 'lw session =
  ss_socket :: "byte list"
  ss_drives :: "'lw SMARTuniqueIDandValues list"
  ss_supported :: "(SMARTuniqueID \<times> attr_id set) list"
  ss_connection :: serverConnectionState
  ss_toObserve :: "attr_id set"
  ss_threadID :: nat
  ss_calls :: "client_call list"

definition add_calls :: "client_call list \<Rightarrow> 'l::len word session \<Rightarrow> 'l word session" where
  "add_calls cs s = s\<lparr>ss_calls := ss_calls s @ cs\<rparr>"

text \<open>A transmission error changes the connection's state as it is reported.\<close>

definition net_state :: "net_call list \<Rightarrow> serverConnectionState \<Rightarrow> serverConnectionState" where
  "net_state cs st = fold (\<lambda>c s. case c of NetChangeState n \<Rightarrow> n | _ \<Rightarrow> s) cs st"

definition net_done :: "net_call list \<Rightarrow> byte list \<Rightarrow> 'l::len word session \<Rightarrow> 'l word session" where
  "net_done cs sock s = add_calls (map Net cs)
     (s\<lparr>ss_socket := sock, ss_connection := net_state cs (ss_connection s)\<rparr>)"

definition AfterGetSMARTvaluesLoop :: "int \<Rightarrow> 'l::len word session \<Rightarrow> 'l word session" where
  "AfterGetSMARTvaluesLoop res s =
     add_calls (CloseSocketFD # (if res \<noteq> 0 then [Net (NetCountDown 60)] else [])) s"

text \<open>
  The read of the supported attributes: 0, or the number of the error. The
  identification \<open>u0\<close> is the object the names are read into. The drive the
  message names is put into the container of drives here, before any value is read.
\<close>

definition insert_supported :: "hw_sizes \<Rightarrow> 'l::len word SMARTuniqueIDandValues \<Rightarrow> SMARTuniqueID \<times> attr_id set
    \<Rightarrow> 'l word session \<Rightarrow> 'l word session" where
  "insert_supported h d0 e s =
     s\<lparr>ss_drives := set_insert (drive_less h) (drive_copy h d0 (drive_new h d0 (fst e))) (ss_drives s),
       ss_supported := [e]\<rparr>"

definition GetSupportedSMARTidsFromSrv :: "xml_env \<Rightarrow> hw_sizes \<Rightarrow> SMARTuniqueID \<Rightarrow> 'l::len word SMARTuniqueIDandValues
    \<Rightarrow> 'l word session \<Rightarrow> (nat \<times> 'l word session) option" where
  "GetSupportedSMARTidsFromSrv X h u0 d0 s =
     (case readSuppIDsMessage (ss_socket s) of (res, calls, sock) \<Rightarrow>
        (let s1 = net_done calls sock (s\<lparr>ss_supported := []\<rparr>) in
         case res of
           Inl r \<Rightarrow> Some (r, s1)
         | Inr xml \<Rightarrow>
             map_option (\<lambda>e. (0, case e of None \<Rightarrow> s1 | Some e \<Rightarrow> insert_supported h d0 e s1))
               (GetSupportedSMARTattributesViaXML X h u0 xml)))"

text \<open>
  The loop over the drives that sets the IDs to read of those without any; None
  is a full array of IDs read behind its end.
\<close>

fun set_missing_ids :: "hw_sizes \<Rightarrow> 'l::len word SMARTuniqueIDandValues list
    \<Rightarrow> 'l word SMARTuniqueIDandValues list option" where
  "set_missing_ids h [] = Some []"
| "set_missing_ids h (d # ds) =
     (case noSMARTattrsToRead h (m_SMARTuniqueID d) of
        None \<Rightarrow> None
      | Some b \<Rightarrow> map_option ((#) (if b then setSMART_IDsToReadFromSuccSMARTrawValUpd8 h d else d))
          (set_missing_ids h ds))"

definition retry_later :: "'l::len word session \<Rightarrow> 'l word session" where
  "retry_later s = add_calls [CloseSocketFD, Net (NetCountDown 60)] s"

text \<open>
  \<open>GetSMARTvaluesAndUpdateUI\<close>, its part after the supported attributes, and the
  whole.
\<close>

definition get_values_and_start :: "xml_env \<Rightarrow> hw_sizes \<Rightarrow> 'l::len word SMARTuniqueIDandValues
    \<Rightarrow> 'l word session \<Rightarrow> 'l word session option" where
  "get_values_and_start X h d0 s2 =
     (case GetSMARTattrValsFromSrv X h d0 (ss_socket s2) (ss_drives s2) of
        None \<Rightarrow> None
      | Some (r2, calls, sock, drives) \<Rightarrow>
          (let s3 = net_done calls sock (s2\<lparr>ss_drives := drives\<rparr>) in
           if r2 = 0 then
             map_option (\<lambda>ds.
                 (let ids = SetSMARTattributesToObserve h ds in
                  add_calls [ReBuildUserInterface, UpdateUI, StartUpdateThread (StartAsyncUpdateThread ids)]
                    (s3\<lparr>ss_drives := ds, ss_toObserve := ids\<rparr>)))
               (set_missing_ids h drives)
           else Some (retry_later s3)))"

definition GetSMARTvaluesAndUpdateUI :: "bool \<Rightarrow> nat \<Rightarrow> xml_env \<Rightarrow> hw_sizes \<Rightarrow> SMARTuniqueID
    \<Rightarrow> 'l::len word SMARTuniqueIDandValues \<Rightarrow> 'l word session \<Rightarrow> 'l word session option" where
  "GetSMARTvaluesAndUpdateUI debug threadNum X h u0 d0 s =
     (if debug \<and> ss_threadID s \<noteq> 0
      then Some (add_calls [Net (NetMessage ''a thread already started GetSMARTvaluesAndUpdateUI'')] s)
      else
        (let s0 = (if debug then s\<lparr>ss_threadID := threadNum\<rparr> else s);
             s1 = add_calls [Net (NetChangeState cnnctdToSrv)]
                    (s0\<lparr>ss_drives := [], ss_connection := cnnctdToSrv\<rparr>)
         in case GetSupportedSMARTidsFromSrv X h u0 d0 s1 of
              None \<Rightarrow> None
            | Some (r, s2) \<Rightarrow>
                if 0 < r then Some (retry_later s2) else get_values_and_start X h d0 s2))"

section \<open>Properties\<close>

definition told :: "client_call list \<Rightarrow> int option" where
  "told cs = (case last cs of AfterConnectToServer e \<Rightarrow> Some e | _ \<Rightarrow> None)"

definition closes :: "client_call list \<Rightarrow> nat" where
  "closes cs = length (filter (\<lambda>c. c = CloseSocketFD) cs)"

text \<open>
  The outcome of a non-blocking connection: the client is told about success
  (error number 0) after the socket was found connected without an error, and
  then the socket stays open. A connection that succeeds at once is reported as
  error -1 and its socket is closed. After a time out and after a failed
  connection the descriptor is closed twice, and with an error of the operating
  system 0 the closed socket is reported as connected.
\<close>

theorem connection_outcome:
  assumes "os_ETIMEDOUT Q \<noteq> 0" "SocketConnectThreadFunc Q = (res, calls)"
  shows "(connect_rc Q \<noteq> - 1 \<longrightarrow> told calls = Some (- 1) \<and> closes calls = 1)
    \<and> (connect_rc Q = - 1 \<and> \<not> isNonBlckngCnnctRtrnCode Q \<longrightarrow> told calls = Some (- 1) \<and> closes calls = 1)
    \<and> (connect_rc Q = - 1 \<and> isNonBlckngCnnctRtrnCode Q \<longrightarrow>
        (0 < select_rc Q \<and> NonBlckingIsCnnctd Q \<and> iSO_ERROR Q = 0 \<longrightarrow>
            told calls = Some 0 \<and> closes calls = 0 \<and> res = - 1)
      \<and> (0 < select_rc Q \<and> iSO_ERROR Q \<noteq> 0 \<longrightarrow>
            told calls = Some (os_errno Q) \<and> closes calls = (if os_errno Q = 0 then 1 else 2))
      \<and> (0 < select_rc Q \<and> \<not> NonBlckingIsCnnctd Q \<and> iSO_ERROR Q = 0 \<longrightarrow>
            told calls = Some (getpeernameErrNo Q) \<and> closes calls = (if getpeernameErrNo Q = 0 then 1 else 2))
      \<and> (select_rc Q = 0 \<longrightarrow> told calls = Some (os_ETIMEDOUT Q) \<and> closes calls = 2)
      \<and> (select_rc Q < 0 \<longrightarrow> told calls = Some (os_errno Q)
            \<and> closes calls = (if os_errno Q = 0 then 0 else 1)))"
  using assms
  by (auto simp: SocketConnectThreadFunc_def ConnectToSocketNonBlocking_def Let_def told_def closes_def)

definition os_connected :: connect_os where
  "os_connected = \<lparr>connect_rc = - 1, isNonBlckngCnnctRtrnCode = True, select_rc = 1, iSO_ERROR = 0,
     NonBlckingIsCnnctd = True, getpeernameErrNo = 0, os_errno = 0, os_ETIMEDOUT = 110\<rparr>"

theorem connection_outcome_witness:
  "closes (snd (SocketConnectThreadFunc (os_connected\<lparr>select_rc := 0\<rparr>))) = 2
    \<and> told (snd (SocketConnectThreadFunc os_connected)) = Some 0"
proof -
  note c = connection_outcome [OF _ surjective_pairing]
  show ?thesis
    using c [of "os_connected\<lparr>select_rc := 0\<rparr>"] c [of os_connected]
    by (simp add: os_connected_def)
qed

text \<open>The cases of reading one message, for both of its readers.\<close>

lemma message_cases:
  obtains (short) "length s < 2"
  | (empty) "2 \<le> length s" "uint (ntohs_bytes s) = 0"
  | (cut) n where "2 \<le> length s" "uint (ntohs_bytes s) = int n" "0 < n" "length s - 2 < n"
  | (whole) n where "2 \<le> length s" "uint (ntohs_bytes s) = int n" "0 < n" "n \<le> length s - 2"
proof -
  obtain n where n: "uint (ntohs_bytes s) = int n" by (metis uint_nonnegative zero_le_imp_eq_int)
  consider "length s < 2" | "2 \<le> length s" "n = 0" | "2 \<le> length s" "0 < n" "length s - 2 < n"
    | "2 \<le> length s" "0 < n" "n \<le> length s - 2" by linarith
  then show thesis by cases (use that n in simp_all)
qed

lemmas message_defs = wire_decode_def readSuppIDsMessage_def readValuesMessage_def
  ReadNumFollowingBytes_def HandleTransmissionError_def Let_def net_state_def

lemma supp_message_decode:
  obtains (message) m s1 calls where "wire_decode s = Some (m, s1)" "readSuppIDsMessage s = (Inr m, calls, s1)"
    "net_state calls st = st"
  | (failed) r calls s1 where "wire_decode s = None" "readSuppIDsMessage s = (Inl r, calls, s1)" "0 < r"
  by (cases s rule: message_cases) (auto simp: message_defs)

lemma values_message_decode:
  obtains (message) m s1 calls where "wire_decode s = Some (m, s1)" "readValuesMessage s = (Inr m, calls, s1)"
    "net_state calls st = st"
  | (failed) r calls s1 where "wire_decode s = None" "readValuesMessage s = (Inl r, calls, s1)" "0 < r"
  by (cases s rule: message_cases) (auto simp: message_defs)

lemma values_result:
  assumes "GetSMARTattrValsFromSrv X h d0 sock drives = Some (r, calls, sock1, drives1)"
  shows "\<exists>res. readValuesMessage sock = (res, calls, sock1)
    \<and> (case res of Inl r' \<Rightarrow> r = r' \<and> drives1 = drives | Inr m \<Rightarrow> r = 0)"
  using assms unfolding GetSMARTattrValsFromSrv_def
  by (auto simp: Let_def split: prod.splits sum.splits option.splits)

lemma net_done_simps [simp]:
  "ss_calls (net_done cs sock s) = ss_calls s @ map Net cs" "ss_socket (net_done cs sock s) = sock"
  "ss_connection (net_done cs sock s) = net_state cs (ss_connection s)"
  "ss_drives (net_done cs sock s) = ss_drives s" "ss_calls (add_calls ks s) = ss_calls s @ ks"
  "ss_socket (add_calls ks s) = ss_socket s" "ss_connection (add_calls ks s) = ss_connection s"
  "ss_drives (add_calls ks s) = ss_drives s" "ss_toObserve (add_calls ks s) = ss_toObserve s"
  "ss_threadID (add_calls ks s) = ss_threadID s" "ss_threadID (net_done cs sock s) = ss_threadID s"
  by (simp_all add: net_done_def add_calls_def)

text \<open>
  The calls of a session, in order: after those that report states, messages and
  actions (\<open>Net\<close>), the user interface is built and filled and the thread asked
  for, which only starts if there is an attribute to observe, or the socket is
  closed and the countdown started.
\<close>

definition session_ok :: "attr_id set \<Rightarrow> client_call list \<Rightarrow> bool" where
  "session_ok toObserve cs \<longleftrightarrow> (\<exists>ks. cs = map Net ks @ [ReBuildUserInterface, UpdateUI,
     StartUpdateThread (if toObserve = {} then NoAttrsToObserve else ThreadStarted)])"

definition session_retry :: "client_call list \<Rightarrow> bool" where
  "session_retry cs \<longleftrightarrow> (\<exists>ks. cs = map Net ks @ [CloseSocketFD, Net (NetCountDown 60)])"

lemma session_calls_Net:
  "session_ok ids cs \<Longrightarrow> session_ok ids (map Net ks @ cs)" "session_retry cs \<Longrightarrow> session_retry (map Net ks @ cs)"
  unfolding session_ok_def session_retry_def by (metis append_assoc map_append)+

lemma session_calls:
  "session_ok ids (map Net ks @ [ReBuildUserInterface, UpdateUI,
     StartUpdateThread (if ids = {} then NoAttrsToObserve else ThreadStarted)])"
  "session_retry (map Net ks @ [CloseSocketFD, Net (NetCountDown 60)])"
  by (auto simp: session_ok_def session_retry_def)

lemma SetSMARTattributesToObserve_started:
  fixes ds :: "'l::len word SMARTuniqueIDandValues list"
  shows "StartAsyncUpdateThread (SetSMARTattributesToObserve h ds)
    = (if SetSMARTattributesToObserve h ds = {} then NoAttrsToObserve else ThreadStarted)"
proof -
  have "finite ids \<Longrightarrow> finite (fold (\<lambda>i ids. if P i then insert i ids else ids) xs ids)"
    for P and xs :: "attr_id list" and ids
    by (induction xs arbitrary: ids) simp_all
  then have f: "finite ids \<Longrightarrow> finite (fold (\<lambda>d ids. fold (\<lambda>i ids. if P d i then insert i ids else ids)
      [0..<n] ids) xs ids)" for P n and xs :: "'l word SMARTuniqueIDandValues list" and ids
    by (induction xs arbitrary: ids) (simp_all del: upt_Suc)
  then have "finite (SetSMARTattributesToObserve h ds)"
    using f [of "{}" "\<lambda>d i. successfullyReadSMARTrawValue (m_SMARTattrs d i) \<noteq> 0" "numMaxATAplus1 h" ds]
    by (simp add: SetSMARTattributesToObserve_def)
  then show ?thesis by (simp add: StartAsyncUpdateThread_def card_gt_0_iff)
qed

lemma session_values:
  assumes "get_values_and_start X h d0 s2 = Some s'" "ss_connection s2 = cnnctdToSrv"
  shows "\<exists>cs. ss_calls s' = ss_calls s2 @ cs \<and>
    (case wire_decode (ss_socket s2) of
       None \<Rightarrow> session_retry cs
     | Some (vals, rest) \<Rightarrow>
         session_ok (ss_toObserve s') cs \<and> ss_socket s' = rest \<and> ss_connection s' = cnnctdToSrv)"
proof -
  obtain r2 calls sock drives where
    v: "GetSMARTattrValsFromSrv X h d0 (ss_socket s2) (ss_drives s2) = Some (r2, calls, sock, drives)"
    using assms(1) by (auto simp: get_values_and_start_def split: option.splits)
  show ?thesis
  proof (cases "ss_socket s2" rule: values_message_decode [where st = cnnctdToSrv])
    case (failed q callsV restV)
    then have "r2 = q" using values_result [OF v] by auto
    then show ?thesis
      using assms(1) v failed by (auto simp: get_values_and_start_def retry_later_def session_retry_def Let_def)
  next
    case (message vals restV callsV)
    then have "r2 = 0" "calls = callsV" "sock = restV" using values_result [OF v] by auto
    then show ?thesis
      using assms v message session_calls(1) [of _ callsV]
      by (auto simp: get_values_and_start_def SetSMARTattributesToObserve_started Let_def simp del: if_split_asm)
  qed
qed


text \<open>A message without bytes ends the session and leaves the state ``connected''.\<close>

lemma empty_message_stays_connected:
  assumes "uint (ntohs_bytes (ss_socket s)) = 0" "2 \<le> length (ss_socket s)"
  shows "\<exists>s'. GetSMARTvaluesAndUpdateUI False t X h u0 d0 s = Some s'
    \<and> CloseSocketFD \<in> set (ss_calls s') \<and> ss_connection s' = cnnctdToSrv"
  using assms
  by (auto simp: GetSMARTvaluesAndUpdateUI_def get_values_and_start_def GetSupportedSMARTidsFromSrv_def readSuppIDsMessage_def
      ReadNumFollowingBytes_def Let_def net_state_def retry_later_def)

text \<open>A socket that announces 300 bytes and ends after 2 of them.\<close>

definition session_example :: "byte list \<Rightarrow> 64 word session" where
  "session_example bs = \<lparr>ss_socket = bs, ss_drives = [], ss_supported = [], ss_connection = uncnnctdToSrv,
     ss_toObserve = {}, ss_threadID = 0, ss_calls = []\<rparr>"

lemma cut_socket_decode: "wire_decode [1, 44, 60, 62] = None"
proof -
  have "unat (ntohs_bytes [1, 44, 60, 62]) = 300" by (simp add: ntohs_bytes_def)
  then show ?thesis
    by (simp add: wire_decode_def readValuesMessage_def ReadNumFollowingBytes_def Let_def)
qed


section \<open>The service's messages in the client\<close>

lemma fold_insert_if:
  "fold (\<lambda>i S. if P i then insert i S else S) xs S = S \<union> {i \<in> set xs. P i}"
  by (induction xs arbitrary: S) auto

text \<open>Two messages after each other, as the two functions that read them take them.\<close>

lemma two_messages:
  assumes "framing.encode_all wire_encode [supp, vals] = Some bs"
    and "supp \<noteq> []" "length supp \<le> 65533" "vals \<noteq> []" "length vals \<le> 65533"
  obtains cs cv rest where "readSuppIDsMessage (bs @ r) = (Inr supp, cs, rest)"
    "readValuesMessage rest = (Inr vals, cv, r)"
proof -
  obtain bs' where "framing.encode_all wire_encode [supp, vals] = Some bs'"
    and all: "\<And>q. framing.decode_n wire_decode (length [supp, vals]) (bs' @ q) = Some ([supp, vals], q)"
    using wire.stream_roundtrip [of "[supp, vals]"] assms(2-5) by (auto simp only: wire_valid_def list.set)
  then have "bs' = bs" using assms(1) by (simp only: option.inject)
  then have n: "framing.decode_n wire_decode (Suc (Suc 0)) (bs @ r) = Some ([supp, vals], r)"
    using all [of r] by (simp only: list.size add_0 add_Suc_right add_0_right One_nat_def)
  obtain m1 s1 where 1: "wire_decode (bs @ r) = Some (m1, s1)"
    using n by (cases "wire_decode (bs @ r)") (auto simp only: wire.decode_n.simps bind.bind_lzero option.distinct)
  obtain m2 s2 where 2: "wire_decode s1 = Some (m2, s2)"
    using n 1 by (cases "wire_decode s1")
      (auto simp only: wire.decode_n.simps bind.bind_lzero bind.bind_lunit prod.case option.distinct)
  have "m1 = supp" "m2 = vals" "s2 = r"
    using n by (simp_all only: 1 2 wire.decode_n.simps bind.bind_lunit prod.case option.inject list.inject prod.inject)
  with 1 2 obtain cs cv where "readSuppIDsMessage (bs @ r) = (Inr supp, cs, s1)" "readValuesMessage s1 = (Inr vals, cv, r)"
    using supp_message_decode [of "bs @ r" cnnctdToSrv] values_message_decode [of s1 cnnctdToSrv]
    by (metis option.distinct(1) option.inject prod.inject)
  then show thesis by (rule that)
qed

text \<open>
  A session in which the second message names the drive that the first one put
  into the container: the container has this one drive, with the values of the
  second message, the attributes to observe are exactly those whose value was
  read, and exactly the two messages are consumed.
\<close>

lemma session_one_drive:
  assumes "framing.encode_all wire_encode [supp, vals] = Some bs"
    and "supp \<noteq> []" "length supp \<le> 65533" "vals \<noteq> []" "length vals \<le> 65533"
    and "ss_socket s = bs @ r" "getXMLdoc X vals = Some rt"
    and "GetSupportedSMARTattributesViaXML X h u0 supp = Some (Some e)"
    and "uid_key h (fst e) = uid_key h (snd (GetSMARTuniqueID_xml h rt (m_SMARTuniqueID d0)))"
    and "GetSMARTrawValues X h rt (drive_copy h d0 (drive_new h d0 (fst e))) = Some d1"
    and "noSMARTattrsToRead h (m_SMARTuniqueID d1) = Some b"
  shows "\<exists>s'. GetSMARTvaluesAndUpdateUI False t X h u0 d0 s = Some s' \<and> ss_socket s' = r
    \<and> ss_drives s' = [if b then setSMART_IDsToReadFromSuccSMARTrawValUpd8 h d1 else d1]
    \<and> ss_toObserve s' = {i. i < numMaxATAplus1 h \<and> successfullyReadSMARTrawValue (m_SMARTattrs d1 i) \<noteq> 0}"
proof -
  obtain cs cv rest where msgs: "readSuppIDsMessage (ss_socket s) = (Inr supp, cs, rest)"
      "readValuesMessage rest = (Inr vals, cv, r)"
    using two_messages [OF assms(1-5), of r] assms(6) by metis
  define d where "d = drive_copy h d0 (drive_new h d0 (fst e))"
  define dv where "dv = drive_copy h d0 (SetDataCarrierID h (snd (GetSMARTuniqueID_xml h rt (m_SMARTuniqueID d0))) d0)"
  have "uid_key h (m_SMARTuniqueID dv) = uid_key h (m_SMARTuniqueID d)"
    using assms(9) by (simp add: d_def dv_def drive_copy_def drive_new_def SetDataCarrierID_def
        setNumAttrRawValBytes_def assign_same_key Let_def split: prod.split)
  then have eq: "\<not> drive_less h dv d" "\<not> drive_less h d dv" by (simp_all add: drive_less_def uid_less_key)
  then have get: "GetSMARTattrValsFromSrv X h d0 rest [d] = Some (0, cv, r, [d1])"
    using msgs(2) assms(7,10) by (simp add: GetSMARTattrValsFromSrv_def Let_def dv_def [symmetric] d_def [symmetric])
  define d2 where "d2 = (if b then setSMART_IDsToReadFromSuccSMARTrawValUpd8 h d1 else d1)"
  have m: "m_SMARTattrs d2 = m_SMARTattrs d1"
    by (simp add: d2_def setSMART_IDsToReadFromSuccSMARTrawValUpd8_def Let_def split: prod.splits)
  have "set_missing_ids h [d1] = Some [d2]" by (simp add: assms(11) d2_def)
  moreover have "SetSMARTattributesToObserve h [d2]
      = {i. i < numMaxATAplus1 h \<and> successfullyReadSMARTrawValue (m_SMARTattrs d1 i) \<noteq> 0}"
    by (auto simp: SetSMARTattributesToObserve_def fold_insert_if m)
  ultimately show ?thesis
    using msgs(1) get assms(8)
    by (simp add: GetSMARTvaluesAndUpdateUI_def get_values_and_start_def GetSupportedSMARTidsFromSrv_def
        insert_supported_def d_def [symmetric] d2_def [symmetric] Let_def)
qed

end
