(* ===== verification/ServiceEnd.thy ===== *)
theory ServiceEnd
  imports Service UpdateThread
begin

text \<open>
  How programs of the repository handle signals (\<open>SMARTmonitorBase.cpp\<close> and
  \<open>service/service_main.cpp\<close>), and how the service ends: its main thread, which
  accepts clients in \<open>ClientConnThreadFunc\<close>, and the thread that gets the
  values, which runs \<open>AfterGetSMARTvaluesLoop\<close> of
  \<open>service/SMARTmonitorService.cpp\<close> at its end, as steps that interleave.

  What a signal does to a program without a handler is the documented default of
  the operating system, which also does not allow a handler for SIGKILL.
\<close>

section \<open>Signals\<close>

datatype signal = SIGINT | SIGPIPE | SIGUSR1 | SIGCHLD | SIGTERM | SIGKILL | SIGALRM | SIGHUP

datatype handler_fn = SIG_DFL | base_sigHandler | service_signal_handler

type_synonym dispositions = "signal \<Rightarrow> handler_fn"

definition default_ends :: "signal \<Rightarrow> bool" where
  "default_ends sig \<longleftrightarrow> sig \<noteq> SIGCHLD"

definition set_signal :: "signal \<Rightarrow> handler_fn \<Rightarrow> dispositions \<Rightarrow> dispositions" where
  "set_signal sig h tab = (if sig = SIGKILL then tab else tab(sig := h))"

definition regCancelSelectSigHandler :: "dispositions \<Rightarrow> dispositions" where
  "regCancelSelectSigHandler tab = set_signal SIGPIPE base_sigHandler (set_signal SIGUSR1 base_sigHandler tab)"

definition TrapSignals2 :: "dispositions \<Rightarrow> dispositions" where
  "TrapSignals2 tab = fold (\<lambda>sig. set_signal sig service_signal_handler)
     [SIGCHLD, SIGTERM, SIGKILL, SIGUSR1, SIGALRM, SIGPIPE, SIGHUP, SIGINT] tab"

text \<open>What is logged by the handler of the clients.\<close>

fun sigHandler :: "signal \<Rightarrow> string list" where
  "sigHandler SIGPIPE = [''received signal'', ''pipe/socket is broken'']"
| "sigHandler _ = [''received signal'']"

text \<open>
  The handler of the service: it ends the process with an exit code, logs, or
  ends the service with \<open>End\<close>, which follows the pointer the constructor sets.
\<close>

datatype sig_effect = ExitProcess int | LogsOnly | EndsService string | FollowsNull

definition End :: "bool \<Rightarrow> string \<Rightarrow> sig_effect" where
  "End p_SMARTmonSvc name = (if p_SMARTmonSvc then EndsService name else FollowsNull)"

definition EXIT_FAILURE :: int where "EXIT_FAILURE = 1"

fun signal_handler :: "bool \<Rightarrow> signal \<Rightarrow> sig_effect" where
  "signal_handler p SIGALRM = ExitProcess EXIT_FAILURE"
| "signal_handler p SIGPIPE = LogsOnly"
| "signal_handler p SIGCHLD = ExitProcess EXIT_FAILURE"
| "signal_handler p SIGTERM = End p ''term''"
| "signal_handler p SIGKILL = End p ''kill''"
| "signal_handler p SIGINT = End p ''interrupt''"
| "signal_handler p _ = LogsOnly"

definition survives :: "bool \<Rightarrow> dispositions \<Rightarrow> signal \<Rightarrow> bool" where
  "survives p tab sig =
     (case tab sig of
        SIG_DFL \<Rightarrow> \<not> default_ends sig
      | base_sigHandler \<Rightarrow> True
      | service_signal_handler \<Rightarrow> (case signal_handler p sig of
            ExitProcess c \<Rightarrow> False | FollowsNull \<Rightarrow> False | _ \<Rightarrow> True))"

lemma cancel_select_survives:
  "survives p (regCancelSelectSigHandler tab) SIGUSR1" "survives p (regCancelSelectSigHandler tab) SIGPIPE"
  by (simp_all add: survives_def regCancelSelectSigHandler_def set_signal_def)

text \<open>
  The handler for SIGKILL is never called, and a child process that ends, which
  the default ignores, ends the service.
\<close>

lemma service_signals:
  "survives True (TrapSignals2 (\<lambda>_. SIG_DFL)) sig \<longleftrightarrow> sig \<notin> {SIGKILL, SIGCHLD, SIGALRM}"
  "survives p (\<lambda>_. SIG_DFL) SIGCHLD"
  by (cases sig; simp add: survives_def TrapSignals2_def set_signal_def End_def default_ends_def)
    (simp add: survives_def default_ends_def)

text \<open>The handlers are set before the object whose pointer \<open>End\<close> follows is made.\<close>

lemma signal_before_construction:
  "\<not> survives False (TrapSignals2 (\<lambda>_. SIG_DFL)) SIGTERM" "\<not> survives False (TrapSignals2 (\<lambda>_. SIG_DFL)) SIGINT"
  by (simp_all add: survives_def TrapSignals2_def set_signal_def End_def)

section \<open>The two threads of the service\<close>

datatype main_pc = M_Accept | M_Check | M_Ended

record svc =
  mpc :: main_pc
  spc :: upd_pc
  svcUpdate :: bool
  svcListening :: bool
  svcClients :: "int list"

text \<open>
  \<open>AfterGetSMARTvaluesLoop\<close> shuts the server socket down, which is what makes a
  call of \<open>accept\<close> return without a client; it also signals a condition nobody
  waits for.
\<close>

definition svc_AfterGetSMARTvaluesLoop :: "svc \<Rightarrow> svc" where
  "svc_AfterGetSMARTvaluesLoop s = s\<lparr>svcListening := False\<rparr>"

definition EndUpdateSMARTvaluesThread :: "svc \<Rightarrow> svc" where
  "EndUpdateSMARTvaluesThread s = s\<lparr>svcUpdate := False\<rparr>"

definition on_signal :: "signal \<Rightarrow> svc \<Rightarrow> svc" where
  "on_signal sig s = (case signal_handler True sig of
     EndsService name \<Rightarrow> EndUpdateSMARTvaluesThread s | _ \<Rightarrow> s)"

inductive get_step :: "svc \<Rightarrow> svc \<Rightarrow> bool" where
  get_ok: "spc s = U_Get \<Longrightarrow> get_step s (s\<lparr>spc := U_BeforeWait\<rparr>)"
| get_failed: "\<lbrakk>spc s = U_Get; res \<noteq> 0\<rbrakk> \<Longrightarrow> get_step s (s\<lparr>spc := U_After res\<rparr>)"
| before_wait: "spc s = U_BeforeWait \<Longrightarrow>
    get_step s (s\<lparr>spc := U_Wait, svcClients := RemoveFileDescsOfBrokenSocketConns del (svcClients s)\<rparr>)"
| timeout: "spc s = U_Wait \<Longrightarrow> get_step s (s\<lparr>spc := U_Check\<rparr>)"
| again: "\<lbrakk>spc s = U_Check; svcUpdate s\<rbrakk> \<Longrightarrow> get_step s (s\<lparr>spc := U_Get\<rparr>)"
| leave: "\<lbrakk>spc s = U_Check; \<not> svcUpdate s\<rbrakk> \<Longrightarrow> get_step s (s\<lparr>spc := U_After 0\<rparr>)"
| after: "spc s = U_After res \<Longrightarrow> get_step s ((svc_AfterGetSMARTvaluesLoop s)\<lparr>spc := U_Ended\<rparr>)"

text \<open>
  The main thread; \<open>transient\<close> allows \<open>accept\<close> to fail also while the socket
  listens. The signal is handled in it; a second one changes nothing more.
\<close>

inductive main_step :: "bool \<Rightarrow> svc \<Rightarrow> svc \<Rightarrow> bool" for transient where
  accepted: "\<lbrakk>mpc s = M_Accept; svcListening s; 0 \<le> fd\<rbrakk>
    \<Longrightarrow> main_step transient s (s\<lparr>mpc := M_Check, svcClients := AddClient fd (svcClients s)\<rparr>)"
| accept_failed: "\<lbrakk>mpc s = M_Accept; svcListening s \<longrightarrow> transient\<rbrakk>
    \<Longrightarrow> main_step transient s (s\<lparr>mpc := M_Check\<rparr>)"
| check_again: "\<lbrakk>mpc s = M_Check; svcUpdate s\<rbrakk> \<Longrightarrow> main_step transient s (s\<lparr>mpc := M_Accept\<rparr>)"
| check_ended: "\<lbrakk>mpc s = M_Check; \<not> svcUpdate s\<rbrakk> \<Longrightarrow> main_step transient s (s\<lparr>mpc := M_Ended\<rparr>)"
| handle_signal: "\<lbrakk>mpc s \<noteq> M_Ended; svcUpdate s; signal_handler True sig = EndsService name\<rbrakk>
    \<Longrightarrow> main_step transient s (EndUpdateSMARTvaluesThread s)"

inductive svc_step :: "bool \<Rightarrow> svc \<Rightarrow> svc \<Rightarrow> bool" for transient where
  getter: "get_step s s' \<Longrightarrow> svc_step transient s s'"
| mainer: "main_step transient s s' \<Longrightarrow> svc_step transient s s'"

inductive_cases get_stepE: "get_step s s'"
inductive_cases main_stepE: "main_step transient s s'"

definition svc_init :: svc where
  "svc_init = \<lparr>mpc = M_Accept, spc = U_Get, svcUpdate = True, svcListening = True, svcClients = []\<rparr>"

text \<open>The thread that gets the values is only started if there is an attribute to observe.\<close>

definition svc_start :: "attr_id set \<Rightarrow> svc" where
  "svc_start ids = (if StartAsyncUpdateThread ids = ThreadStarted then svc_init else svc_init\<lparr>spc := U_Ended\<rparr>)"

definition svc_inv :: "svc \<Rightarrow> bool" where
  "svc_inv s \<longleftrightarrow> (svcListening s \<longleftrightarrow> spc s \<noteq> U_Ended) \<and> (mpc s = M_Ended \<longrightarrow> \<not> svcUpdate s)"

lemma svc_inv_step: "\<lbrakk>svc_step transient s s'; svc_inv s\<rbrakk> \<Longrightarrow> svc_inv s'"
  by (erule svc_step.cases; erule get_stepE main_stepE;
      auto simp: svc_inv_def svc_AfterGetSMARTvaluesLoop_def EndUpdateSMARTvaluesThread_def)

lemma svc_inv_run: "\<lbrakk>(svc_step transient ^^ n) s s'; svc_inv s\<rbrakk> \<Longrightarrow> svc_inv s'"
  by (induction n arbitrary: s') (auto intro: svc_inv_step)

lemma svc_inv_init: "svc_inv svc_init"
  by (simp add: svc_inv_def svc_init_def)

fun mpc_rank :: "main_pc \<Rightarrow> nat" where
  "mpc_rank M_Accept = 2" | "mpc_rank M_Check = 1" | "mpc_rank M_Ended = 0"

definition svc_rank :: "svc \<Rightarrow> nat" where
  "svc_rank s = upc_rank (spc s) + mpc_rank (mpc s)"

lemma svc_rank_le: "svc_rank s \<le> 7"
  by (cases "spc s"; cases "mpc s") (simp_all add: svc_rank_def)

lemma svc_ending_step:
  "\<lbrakk>svc_step transient s s'; \<not> svcUpdate s\<rbrakk> \<Longrightarrow> \<not> svcUpdate s' \<and> svc_rank s' < svc_rank s"
  by (erule svc_step.cases; erule get_stepE main_stepE)
    (auto simp: svc_rank_def svc_AfterGetSMARTvaluesLoop_def)

lemma svc_ending_run:
  "\<lbrakk>(svc_step transient ^^ n) s s'; \<not> svcUpdate s\<rbrakk> \<Longrightarrow> \<not> svcUpdate s' \<and> n + svc_rank s' \<le> svc_rank s"
proof (induction n arbitrary: s')
  case (Suc n)
  then show ?case using svc_ending_step by fastforce
qed simp

lemma svc_progress:
  assumes "svc_inv s" "\<not> svcUpdate s" "mpc s \<noteq> M_Ended \<or> spc s \<noteq> U_Ended"
  shows "\<exists>s'. svc_step transient s s'"
proof (cases "spc s = U_Ended")
  case True
  then have "\<exists>s'. main_step transient s s'"
    using assms by (cases "mpc s") (auto simp: svc_inv_def intro: main_step.intros)
  then show ?thesis by (blast intro: svc_step.mainer)
next
  case False
  then have "\<exists>s'. get_step s s'"
    by (cases "spc s"; cases "svcUpdate s") (blast intro: get_step.intros)+
  then show ?thesis by (blast intro: svc_step.getter)
qed

text \<open>
  Nobody connects: \<open>accept\<close> does not return before the socket is shut down. A main
  thread that was in \<open>accept\<close> then leaves it after the other thread has ended.
\<close>

definition quiet_step :: "svc \<Rightarrow> svc \<Rightarrow> bool" where
  "quiet_step s s' \<longleftrightarrow> svc_step False s s' \<and> (mpc s = M_Accept \<and> svcListening s \<longrightarrow> mpc s' = M_Accept)"

lemma quiet_step_accept:
  "\<lbrakk>quiet_step s s'; svc_inv s; mpc s = M_Accept \<or> spc s = U_Ended\<rbrakk> \<Longrightarrow> mpc s' = M_Accept \<or> spc s' = U_Ended"
  unfolding quiet_step_def svc_inv_def
  by (elim conjE svc_step.cases; elim get_stepE main_stepE) (auto simp: EndUpdateSMARTvaluesThread_def)

lemma quiet_run_accept:
  "\<lbrakk>(quiet_step ^^ n) s s'; svc_inv s; mpc s = M_Accept\<rbrakk>
    \<Longrightarrow> svc_inv s' \<and> (mpc s' = M_Accept \<or> spc s' = U_Ended)"
proof (induction n arbitrary: s')
  case (Suc n)
  then obtain t where t: "(quiet_step ^^ n) s t" "quiet_step t s'" by auto
  note IH = Suc.IH [OF t(1) Suc.prems(2,3)]
  have "svc_inv s'" using t(2) svc_inv_step IH unfolding quiet_step_def by blast
  then show ?case using quiet_step_accept [OF t(2)] IH by blast
qed simp

text \<open>A client that connects after the signal lets \<open>main\<close> end while the other thread waits.\<close>

lemma main_leaves_getter:
  assumes "mpc s = M_Accept" "svcListening s" "\<not> svcUpdate s"
  shows "\<exists>s'. (svc_step transient ^^ 2) s s' \<and> mpc s' = M_Ended \<and> spc s' = spc s"
proof -
  let ?b = "s\<lparr>mpc := M_Check, svcClients := AddClient 4 (svcClients s)\<rparr>"
  have "main_step transient s ?b" using main_step.accepted [OF assms(1,2), of 4 transient] by simp
  moreover have "main_step transient ?b (?b\<lparr>mpc := M_Ended\<rparr>)"
    using main_step.check_ended [of ?b transient] assms(3) by simp
  ultimately have "(svc_step transient ^^ 2) s (?b\<lparr>mpc := M_Ended\<rparr>)"
    by (auto intro: svc_step.mainer simp: numeral_2_eq_2)
  then show ?thesis by (intro exI [of _ "?b\<lparr>mpc := M_Ended\<rparr>"]) simp
qed


text \<open>
  The main thread is in \<open>accept\<close> and the other one waits; after the signal the
  wait ends, the thread shuts the socket down, and \<open>accept\<close> returns.
\<close>

definition svc_waiting :: svc where
  "svc_waiting = \<lparr>mpc = M_Accept, spc = U_Wait, svcUpdate = True, svcListening = True, svcClients = []\<rparr>"

definition svc_done :: svc where
  "svc_done = \<lparr>mpc = M_Ended, spc = U_Ended, svcUpdate = False, svcListening = False, svcClients = []\<rparr>"

lemmas svc_step_intros = svc_step.getter svc_step.mainer

lemma svc_waiting_reached: "(svc_step transient ^^ 2) svc_init svc_waiting"
proof -
  have "svc_step transient svc_init (svc_init\<lparr>spc := U_BeforeWait\<rparr>)"
    by (rule svc_step.getter, rule get_step.get_ok) (simp add: svc_init_def)
  moreover have "svc_step transient (svc_init\<lparr>spc := U_BeforeWait\<rparr>) svc_waiting"
    using get_step.before_wait [of "svc_init\<lparr>spc := U_BeforeWait\<rparr>" "[]"]
    by (auto intro!: svc_step.getter
        simp: svc_init_def svc_waiting_def RemoveFileDescsOfBrokenSocketConns_def)
  ultimately show ?thesis by (auto simp: numeral_2_eq_2)
qed

lemma svc_done_reached: "(svc_step transient ^^ 5) (on_signal SIGTERM svc_waiting) svc_done"
proof -
  let ?a = "on_signal SIGTERM svc_waiting"
  let ?b = "?a\<lparr>spc := U_Check\<rparr>"
  let ?c = "?a\<lparr>spc := U_After 0\<rparr>"
  let ?d = "?a\<lparr>spc := U_Ended, svcListening := False\<rparr>"
  let ?e = "?d\<lparr>mpc := M_Check\<rparr>"
  note d = on_signal_def End_def EndUpdateSMARTvaluesThread_def svc_AfterGetSMARTvaluesLoop_def
    svc_waiting_def svc_done_def
  have "get_step ?a ?b" by (rule get_step.timeout) (simp add: d)
  moreover have "get_step ?b ?c" using get_step.leave [of ?b] by (simp add: d)
  moreover have "get_step ?c ?d" using get_step.after [of ?c 0] by (simp add: d)
  moreover have "main_step transient ?d ?e" by (rule main_step.accept_failed) (simp_all add: d)
  moreover have "main_step transient ?e svc_done" using main_step.check_ended [of ?e transient] by (simp add: d)
  ultimately have "(svc_step transient ^^ Suc (Suc (Suc (Suc (Suc 0))))) ?a svc_done"
    unfolding relpowp.simps by (blast intro: svc_step_intros)
  then show ?thesis by (simp add: numeral_eq_Suc)
qed


text \<open>
  Without attributes to observe the thread is not started, and nothing shuts the
  socket down: after a signal \<open>main\<close> stays in \<open>accept\<close> until a client connects.
\<close>

lemma unstarted_waits_for_client:
  assumes "StartAsyncUpdateThread ids = NoAttrsToObserve" "sig \<in> {SIGTERM, SIGINT}"
  shows "\<not> quiet_step (on_signal sig (svc_start ids)) s'"
proof
  assume "quiet_step (on_signal sig (svc_start ids)) s'"
  moreover have "on_signal sig (svc_start ids) = svc_init\<lparr>spc := U_Ended, svcUpdate := False\<rparr>"
    using assms by (auto simp: on_signal_def End_def EndUpdateSMARTvaluesThread_def svc_start_def svc_init_def)
  ultimately show False
    by (auto simp: quiet_step_def svc_init_def elim!: svc_step.cases get_stepE main_stepE)
qed

section \<open>Waiting for the thread\<close>

text \<open>
  A version of \<open>main\<close> that calls \<open>WaitForSignal\<close> at its end, as the log in
  \<open>service_main.cpp\<close> shows it and the commented-out call still says: a condition
  wakes a thread that waits when it is signalled, and keeps nothing for one that
  waits later.
\<close>

datatype wait_pc = W_Before | W_Waiting | W_Woken

definition pthread_cond_signal :: "wait_pc \<Rightarrow> wait_pc" where
  "pthread_cond_signal w = (if w = W_Waiting then W_Woken else w)"

inductive waiting_step :: "bool \<Rightarrow> svc \<times> wait_pc \<Rightarrow> svc \<times> wait_pc \<Rightarrow> bool" for transient where
  getter_signals: "\<lbrakk>get_step s s'; spc s' = U_Ended\<rbrakk>
    \<Longrightarrow> waiting_step transient (s, w) (s', pthread_cond_signal w)"
| getter_other: "\<lbrakk>get_step s s'; spc s' \<noteq> U_Ended\<rbrakk> \<Longrightarrow> waiting_step transient (s, w) (s', w)"
| main_other: "main_step transient s s' \<Longrightarrow> waiting_step transient (s, w) (s', w)"
| WaitForSignal: "mpc s = M_Ended \<Longrightarrow> waiting_step transient (s, W_Before) (s, W_Waiting)"

inductive_cases waiting_stepE: "waiting_step transient (s, w) (s', w')"

lemma waiting_step_inv:
  "\<lbrakk>waiting_step transient (s, w) (s', w'); svc_inv s\<rbrakk> \<Longrightarrow> svc_inv s'"
  by (elim waiting_stepE) (auto intro: svc_inv_step svc_step.getter svc_step.mainer)

text \<open>
  The log: the thread has ended before \<open>main\<close> waits, as it always has when the
  signal found \<open>main\<close> in \<open>accept\<close> and nobody connects. Then \<open>main\<close> waits for ever.
\<close>

lemma WaitForSignal_misses_signal:
  assumes "spc s = U_Ended" "mpc s = M_Ended"
  shows "waiting_step transient (s, W_Before) (s, W_Waiting)" "\<not> waiting_step transient (s, W_Waiting) x"
proof -
  show "waiting_step transient (s, W_Before) (s, W_Waiting)" by (rule waiting_step.WaitForSignal [OF assms(2)])
  show "\<not> waiting_step transient (s, W_Waiting) x"
    using assms by (cases x) (auto elim!: waiting_stepE get_stepE main_stepE)
qed

section \<open>A failed read\<close>

text \<open>
  When a read of the values fails, the thread that gets them ends and shuts the
  socket down, but the flag stays set: the main thread calls \<open>accept\<close> again and
  again without waiting, no client is ever accepted, and only a signal ends the
  loop.
\<close>

definition svc_spinning :: "svc \<Rightarrow> bool" where
  "svc_spinning s \<longleftrightarrow> spc s = U_Ended \<and> svcUpdate s \<and> \<not> svcListening s \<and> mpc s \<noteq> M_Ended"

lemma failed_read_spins:
  assumes "svc_step transient s s'" "svc_spinning s" "svcUpdate s'"
  shows "svc_spinning s' \<and> svcClients s' = svcClients s \<and> mpc s' \<noteq> mpc s"
  using assms
  by (elim svc_step.cases; elim get_stepE main_stepE)
    (auto simp: svc_spinning_def EndUpdateSMARTvaluesThread_def)

lemma spinning_goes_on: "svc_spinning s \<Longrightarrow> \<exists>s'. svc_step transient s s' \<and> svcUpdate s'"
  by (cases "mpc s") (auto simp: svc_spinning_def intro!: exI svc_step.mainer
      main_step.accept_failed main_step.check_again)

lemma failed_read_reaches_spinning:
  "(svc_step transient ^^ 2) svc_init (svc_init\<lparr>spc := U_Ended, svcListening := False\<rparr>)"
proof -
  have "get_step svc_init (svc_init\<lparr>spc := U_After 1\<rparr>)"
    by (rule get_step.get_failed) (simp_all add: svc_init_def)
  moreover have "get_step (svc_init\<lparr>spc := U_After 1\<rparr>) (svc_init\<lparr>spc := U_Ended, svcListening := False\<rparr>)"
    using get_step.after [of "svc_init\<lparr>spc := U_After 1\<rparr>" 1]
    by (simp add: svc_init_def svc_AfterGetSMARTvaluesLoop_def)
  ultimately show ?thesis by (auto intro: svc_step_intros simp: numeral_2_eq_2)
qed

end
