(* ===== verification/AttrView.thy ===== *)
theory AttrView
  imports Prelude
begin

text \<open>
  What the parts of the program rely on when they hand the texts of the
  attributes to a user interface through \<open>UserInterface::SetAttribute\<close>: a
  text set for a column of an attribute is what is seen there until the next
  one, and no other cell changes. The wxWidgets table and the curses window
  are its two providers.
\<close>

type_synonym 'r cell = "attr_id \<times> nat \<times> string \<times> 'r"

fun set_cells :: "(attr_id \<Rightarrow> nat \<Rightarrow> string \<Rightarrow> 'r \<Rightarrow> 's \<Rightarrow> 's option) \<Rightarrow> 'r cell list \<Rightarrow> 's \<Rightarrow> 's option" where
  "set_cells setc [] s = Some s"
| "set_cells setc ((i, c, v, r) # cs) s = Option.bind (setc i c v r s) (set_cells setc cs)"

text \<open>The text that was set last.\<close>

definition last_text :: "'r cell list \<Rightarrow> (attr_id \<times> nat) \<rightharpoonup> string" where
  "last_text cs = map_of (rev (map (\<lambda>(i, c, v, r). ((i, c), v)) cs))"

lemma last_text_Nil [simp]: "last_text [] = Map.empty"
  by (simp add: last_text_def)

lemma last_text_Cons: "last_text ((i, c, v, r) # cs) k =
    (case last_text cs k of None \<Rightarrow> (if k = (i, c) then Some v else None) | Some w \<Rightarrow> Some w)"
  by (auto simp: last_text_def map_add_def split: option.splits)

lemma last_text_snoc: "last_text (cs @ [(i, c, v, r)]) = (last_text cs)((i, c) \<mapsto> v)"
  by (simp add: last_text_def)

lemma last_text_None: "\<forall>(i, c, v, r)\<in>set cs. (i, c) \<noteq> k \<Longrightarrow> last_text cs k = None"
  by (induction cs) (auto simp: last_text_Cons)

text \<open>The entries of a map updated for a list.\<close>

lemma map_upds_nth:
  "\<lbrakk>distinct xs; k < length xs; length ys = length xs\<rbrakk> \<Longrightarrow> (m(xs [\<mapsto>] ys)) (xs ! k) = Some (ys ! k)"
proof (induction xs arbitrary: m k ys)
  case (Cons x xs)
  then show ?case by (cases k; cases ys) auto
qed simp

locale attr_view =
  fixes setc :: "attr_id \<Rightarrow> nat \<Rightarrow> string \<Rightarrow> 'r \<Rightarrow> 's \<Rightarrow> 's option"
    and seen :: "'s \<Rightarrow> attr_id \<Rightarrow> nat \<Rightarrow> string \<Rightarrow> bool"
    and inv :: "'s \<Rightarrow> bool"
    and ok :: "attr_id \<Rightarrow> nat \<Rightarrow> string \<Rightarrow> 'r \<Rightarrow> bool"
  assumes setc_some: "\<lbrakk>inv s; ok i c v r\<rbrakk> \<Longrightarrow> \<exists>s'. setc i c v r s = Some s'"
    and setc_inv: "\<lbrakk>inv s; ok i c v r; setc i c v r s = Some s'\<rbrakk> \<Longrightarrow> inv s'"
    and setc_seen: "\<lbrakk>inv s; ok i c v r; setc i c v r s = Some s'\<rbrakk> \<Longrightarrow> seen s' i c v"
    and setc_other: "\<lbrakk>inv s; ok i c v r; setc i c v r s = Some s'; (j, d) \<noteq> (i, c); seen s j d w\<rbrakk>
      \<Longrightarrow> seen s' j d w"
begin

lemma set_cells_seen:
  assumes "inv s" "\<And>i c v r. (i, c, v, r) \<in> set cs \<Longrightarrow> ok i c v r"
  shows "\<exists>s'. set_cells setc cs s = Some s' \<and> inv s'
    \<and> (\<forall>i c v. last_text cs (i, c) = Some v \<longrightarrow> seen s' i c v)
    \<and> (\<forall>i c w. last_text cs (i, c) = None \<longrightarrow> seen s i c w \<longrightarrow> seen s' i c w)"
  using assms
proof (induction cs arbitrary: s)
  case (Cons cell cs)
  obtain i c v r where cell: "cell = (i, c, v, r)" by (cases cell)
  have ok: "ok i c v r" using Cons.prems(2) cell by simp
  obtain s1 where s1: "setc i c v r s = Some s1" using setc_some [OF Cons.prems(1) ok] by blast
  note p = setc_inv [OF Cons.prems(1) ok s1] setc_seen [OF Cons.prems(1) ok s1]
    setc_other [OF Cons.prems(1) ok s1]
  obtain s' where s': "set_cells setc cs s1 = Some s'" "inv s'"
      "\<forall>i c v. last_text cs (i, c) = Some v \<longrightarrow> seen s' i c v"
      "\<forall>i c w. last_text cs (i, c) = None \<longrightarrow> seen s1 i c w \<longrightarrow> seen s' i c w"
    using Cons.IH [OF p(1)] Cons.prems(2) by auto
  show ?case
    using s1 s' p(2,3) by (intro exI [of _ s'])
      (auto simp: cell last_text_Cons split: option.splits if_splits)
qed simp

end

end
