(* ===== verification/WxTable.thy ===== *)
theory WxTable
  imports ClientUI AttrView
begin

text \<open>
  \<open>wxWidgets/SMARTtableListCtrl.cpp\<close> and \<open>wxWidgets/PerDataCarrierPanel.hpp\<close>:
  the table of a drive's attributes, the colours of the ratings, and the panel
  around the table.

  A table is the list of its lines; a line has a text per column and a
  background colour. Of the wxWidgets list control the model uses: a new item
  goes to the position its ID names, at most behind the last line; setting an
  item of a line the control does not have changes nothing.
\<close>

section \<open>Colours\<close>

type_synonym colour = "byte \<times> byte \<times> byte"

text \<open>
  A \<open>float\<close> converted to \<open>unsigned char\<close>: the fraction is dropped, and the
  conversion is undefined (None) if the type cannot hold the rest.
\<close>

definition to_channel :: "rat \<Rightarrow> byte option" where
  "to_channel x = (let t = (if 0 \<le> x then \<lfloor>x\<rfloor> else \<lceil>x\<rceil>) in
     if 0 \<le> t \<and> t \<le> 255 then Some (word_of_int t) else None)"

definition GetClrAccordng1toMns1Rng :: "rat \<Rightarrow> colour option" where
  "GetClrAccordng1toMns1Rng r =
     (if r < 0 then map_option (\<lambda>b. (255, b, b)) (to_channel (f32 (127 - f32 (r * - 127))))
      else if r \<le> 1 then Some (word_of_int (255 - \<lfloor>f32 (255 * r)\<rfloor>), 255, 0)
      else Some (0, 255, 255))"

definition GetClrAccordng1toEnum :: "rslt \<Rightarrow> colour \<Rightarrow> colour" where
  "GetClrAccordng1toEnum r c =
     (case r of OK \<Rightarrow> (0, 255, 0) | AtLeast1Warn \<Rightarrow> (255, 255, 0) | _ \<Rightarrow> c)"

lemma uint_byte: "\<lbrakk>0 \<le> k; k \<le> 255\<rbrakk> \<Longrightarrow> uint (word_of_int k :: byte) = k"
  by (simp add: uint_word_of_int)

lemma colour_negative:
  assumes "- 1 \<le> x" "x < 0"
  shows "\<exists>b. GetClrAccordng1toMns1Rng x = Some (255, b, b) \<and> uint b = \<lfloor>f32 (127 - f32 (x * - 127))\<rfloor>
    \<and> uint b \<le> 127"
proof -
  have "0 \<le> f32 (x * - 127)" "f32 (x * - 127) \<le> 127"
    using f32.nonneg [of "x * - 127"] f32.le_int [of "x * - 127" 127] assms by simp_all
  then have b: "0 \<le> f32 (127 - f32 (x * - 127))" "f32 (127 - f32 (x * - 127)) \<le> 127"
    using f32.nonneg [of "127 - f32 (x * - 127)"] f32.le_int [of "127 - f32 (x * - 127)" 127] by simp_all
  then have "0 \<le> \<lfloor>f32 (127 - f32 (x * - 127))\<rfloor>" "\<lfloor>f32 (127 - f32 (x * - 127))\<rfloor> \<le> 127"
    by linarith+
  then show ?thesis using assms b
    by (simp add: GetClrAccordng1toMns1Rng_def to_channel_def uint_word_of_int)
qed

lemma colour_nonneg:
  assumes "0 \<le> x" "x \<le> 1"
  shows "\<exists>c. GetClrAccordng1toMns1Rng x = Some (c, 255, 0) \<and> uint c = 255 - \<lfloor>f32 (255 * x)\<rfloor>"
proof -
  have "0 \<le> f32 (255 * x)" "f32 (255 * x) \<le> 255"
    using f32.nonneg [of "255 * x"] f32.le_int [of "255 * x" 255] assms by simp_all
  then have "0 \<le> \<lfloor>f32 (255 * x)\<rfloor>" "\<lfloor>f32 (255 * x)\<rfloor> \<le> 255" by linarith+
  then have "uint (word_of_int (255 - \<lfloor>f32 (255 * x)\<rfloor>) :: byte) = 255 - \<lfloor>f32 (255 * x)\<rfloor>"
    by (intro uint_byte) simp_all
  then show ?thesis using assms by (simp del: of_int_diff add: GetClrAccordng1toMns1Rng_def)
qed

text \<open>
  The colour of a rating between worst and best is defined. An error
  (below 0) is red with equal parts of green and blue that are at most 127 and
  the smaller the worse the rating; the worst rating is pure red, the best pure
  green, a rating from 0 on has full green and no blue, and the better the
  rating the less red. Everything above the best rating is cyan.
\<close>

theorem rating_colours:
  assumes "- 1 \<le> r" "r \<le> s" "s \<le> 1"
  shows "\<exists>cr cs. GetClrAccordng1toMns1Rng r = Some cr \<and> GetClrAccordng1toMns1Rng s = Some cs
    \<and> (s < 0 \<longrightarrow> fst cr = 255 \<and> fst (snd cr) = snd (snd cr) \<and> snd (snd cr) \<le> snd (snd cs) \<and> snd (snd cs) \<le> 127)
    \<and> (0 \<le> r \<longrightarrow> fst (snd cr) = 255 \<and> snd (snd cr) = 0 \<and> fst cs \<le> fst cr)
    \<and> (r = - 1 \<longrightarrow> cr = (255, 0, 0)) \<and> (s = 1 \<longrightarrow> cs = (0, 255, 0))
    \<and> (\<forall>x > 1. GetClrAccordng1toMns1Rng x = Some (0, 255, 255))"
proof -
  have some: "\<exists>c. GetClrAccordng1toMns1Rng x = Some c" if "- 1 \<le> x" "x \<le> 1" for x
    using colour_negative [of x] colour_nonneg [of x] that by (cases "x < 0") auto
  have mn: "\<lfloor>f32 (127 - f32 (r * - 127))\<rfloor> \<le> \<lfloor>f32 (127 - f32 (s * - 127))\<rfloor>"
    by (intro floor_mono f32_mono) (use f32_mono [of "s * - 127" "r * - 127"] assms(2) in simp)
  have mp: "\<lfloor>f32 (255 * r)\<rfloor> \<le> \<lfloor>f32 (255 * s)\<rfloor>"
    by (intro floor_mono f32_mono) (use assms(2) in simp)
  obtain cr cs where c: "GetClrAccordng1toMns1Rng r = Some cr" "GetClrAccordng1toMns1Rng s = Some cs"
    using some [of r] some [of s] assms by auto
  show ?thesis
  proof (intro exI conjI impI allI)
    show "GetClrAccordng1toMns1Rng r = Some cr" "GetClrAccordng1toMns1Rng s = Some cs" by (rule c)+
  next
    assume "s < 0"
    then show "fst cr = 255" "fst (snd cr) = snd (snd cr)" "snd (snd cr) \<le> snd (snd cs)" "snd (snd cs) \<le> 127"
      using colour_negative [of r] colour_negative [of s] assms c mn by (auto simp: word_le_def)
  next
    assume "0 \<le> r"
    then show "fst (snd cr) = 255" "snd (snd cr) = 0" "fst cs \<le> fst cr"
      using colour_nonneg [of r] colour_nonneg [of s] assms c mp by (auto simp: word_le_def)
  next
    assume "r = - 1" then show "cr = (255, 0, 0)"
      using c(1) by (simp add: GetClrAccordng1toMns1Rng_def to_channel_def)
  next
    assume "s = 1" then show "cs = (0, 255, 0)"
      using c(2) by (simp add: GetClrAccordng1toMns1Rng_def)
  qed (simp add: GetClrAccordng1toMns1Rng_def)
qed

theorem rating_colours_witness:
  "\<exists>cr cs. GetClrAccordng1toMns1Rng (- 1) = Some cr \<and> GetClrAccordng1toMns1Rng (- 1 / 2) = Some cs
    \<and> snd (snd cr) \<le> snd (snd cs) \<and> cr = (255, 0, 0)"
  using rating_colours [of "- 1" "- 1 / 2"] by auto

text \<open>A rating clearly below the worst has no defined colour.\<close>

lemma colour_below_worst_undefined: "GetClrAccordng1toMns1Rng (- 2) = None"
  using f32_odd [of 127] by (simp add: GetClrAccordng1toMns1Rng_def to_channel_def)

section \<open>The table\<close>

record line =
  ln_text :: "nat \<Rightarrow> string"
  ln_back :: "colour option"

record table =
  tb_lines :: "line list"
  tb_lineOf :: "attr_id \<rightharpoonup> nat"

definition blank_line :: line where
  "blank_line = \<lparr>ln_text = (\<lambda>_. []), ln_back = None\<rparr>"

text \<open>\<open>InsertItem\<close> of an item whose ID is the attribute's.\<close>

definition insert_line :: "nat \<Rightarrow> line list \<Rightarrow> line list" where
  "insert_line n ls = take n ls @ blank_line # drop n ls"

definition create_line :: "nat \<times> attr_id \<Rightarrow> table \<Rightarrow> table" where
  "create_line = (\<lambda>(n, i) tb.
     tb\<lparr>tb_lineOf := (tb_lineOf tb)(i \<mapsto> n), tb_lines := insert_line i (tb_lines tb)\<rparr>)"

definition CreateLines :: "hw_sizes \<Rightarrow> SMARTuniqueID \<Rightarrow> table \<Rightarrow> table option" where
  "CreateLines h u tb = map_option (\<lambda>ids. fold create_line (enumerate 0 ids) tb) (IDsToRead_from h u 0)"

definition set_line :: "nat \<Rightarrow> (line \<Rightarrow> line) \<Rightarrow> line list \<Rightarrow> line list" where
  "set_line n f ls = (if n < length ls then ls[n := f (ls ! n)] else ls)"

definition rawValColID :: "bus \<Rightarrow> nat" where
  "rawValColID b = (if b = NVMe then NVMe_col_idx NVMe_RawVal else ATA_col_idx ATA_RawVal)"

text \<open>
  The line comes from the map's \<open>operator []\<close>, which enters line 0 for an
  attribute the map does not have. The colour is computed for every column and
  used for that of the raw value.
\<close>

definition SetSMARTattribValue :: "bus \<Rightarrow> attr_id \<Rightarrow> nat \<Rightarrow> string \<Rightarrow> rat \<Rightarrow> table \<Rightarrow> table option" where
  "SetSMARTattribValue b i col s r tb =
     (let n = opt_default 0 (tb_lineOf tb i);
          ls = set_line n (\<lambda>l. l\<lparr>ln_text := (ln_text l)(col := s)\<rparr>) (tb_lines tb);
          tb1 = tb\<lparr>tb_lineOf := (tb_lineOf tb)(i \<mapsto> n), tb_lines := ls\<rparr>
      in map_option (\<lambda>c. if col = rawValColID b
             then tb1\<lparr>tb_lines := set_line n (\<lambda>l. l\<lparr>ln_back := Some c\<rparr>) ls\<rparr> else tb1)
           (GetClrAccordng1toMns1Rng r))"

section \<open>The panel of a drive\<close>

text \<open>
  The table keeps a reference to the identification it was made for; it is the
  bus type read through it that decides on the colour's column. The bus type of
  the panel is set by \<open>SetSMARTdriveID\<close>, None before.
\<close>

record panel =
  pn_windowID :: nat
  pn_label :: string
  pn_bus :: "bus option"
  pn_dataCarrier :: SMARTuniqueID
  pn_list :: table

definition PerDataCarrierPanel :: "nat \<Rightarrow> SMARTuniqueID \<Rightarrow> panel" where
  "PerDataCarrierPanel w u = \<lparr>pn_windowID = w, pn_label = [], pn_bus = None, pn_dataCarrier = u,
     pn_list = \<lparr>tb_lines = [], tb_lineOf = Map.empty\<rparr>\<rparr>"

definition ReCreate :: "hw_sizes \<Rightarrow> SMARTuniqueID \<Rightarrow> panel \<Rightarrow> panel option" where
  "ReCreate h u p =
     map_option (\<lambda>tb. p\<lparr>pn_list := tb\<rparr>) (CreateLines h u ((pn_list p)\<lparr>tb_lines := []\<rparr>))"

definition panel_cell :: "attr_id \<Rightarrow> nat \<Rightarrow> string \<Rightarrow> rat \<Rightarrow> panel \<Rightarrow> panel option" where
  "panel_cell i col s r p = map_option (\<lambda>tb. p\<lparr>pn_list := tb\<rparr>)
     (SetSMARTattribValue (busType (pn_dataCarrier p)) i col s r (pn_list p))"

definition panel_setIDandLabel :: "SMARTattrDefAccss \<Rightarrow> attr_id \<Rightarrow> panel \<Rightarrow> panel option" where
  "panel_setIDandLabel s i p =
     (let arr = (if pn_bus p = Some NVMe then NVMeSMARTattrDefs s else SMARTattrDefs s)
      in do { p1 \<leftarrow> panel_cell i (ATA_col_idx ATA_ID) (dec i) (rslt_val NoCriticalVal) p;
              panel_cell i (ATA_col_idx ATA_Name) (cstr (attributeName (arr i))) (rslt_val NoCriticalVal) p1 })"

fun panel_labels :: "SMARTattrDefAccss \<Rightarrow> attr_id list \<Rightarrow> panel \<Rightarrow> panel option" where
  "panel_labels s [] p = Some p"
| "panel_labels s (i # ids) p = Option.bind (panel_setIDandLabel s i p) (panel_labels s ids)"

definition panel_SetSMARTattribIDandNameLabel :: "hw_sizes \<Rightarrow> SMARTattrDefAccss \<Rightarrow> SMARTuniqueID \<Rightarrow> panel
    \<Rightarrow> panel option" where
  "panel_SetSMARTattribIDandNameLabel h s u p =
     Option.bind (IDsToRead_from h u 0) (\<lambda>ids. panel_labels s ids p)"

definition SetSMARTdriveID :: "hw_sizes \<Rightarrow> SMARTuniqueID \<Rightarrow> panel \<Rightarrow> panel" where
  "SetSMARTdriveID h u p = p\<lparr>pn_bus := Some (busType u),
     pn_label := ''model:'' @ take (numModelBytes h) (modelName u)
       @ '' firmware:'' @ take (numFWbytes h) (firmWareName u)
       @ '' serial:'' @ take (numSNbytes h) (serialNumber u)\<rparr>"

text \<open>What \<open>SMARTdialog::ReBuildUserInterface\<close> does with a panel.\<close>

definition fill_panel :: "hw_sizes \<Rightarrow> SMARTattrDefAccss \<Rightarrow> SMARTuniqueID \<Rightarrow> panel \<Rightarrow> panel option" where
  "fill_panel h s u p = do {
     p1 \<leftarrow> ReCreate h u p;
     panel_SetSMARTattribIDandNameLabel h s u (SetSMARTdriveID h u p1) }"

section \<open>Properties\<close>

lemma length_set_line [simp]: "length (set_line n f ls) = length ls"
  by (simp add: set_line_def)

lemma nth_set_line: "k < length ls \<Longrightarrow> set_line n f ls ! k = (if k = n then f (ls ! k) else ls ! k)"
  by (simp add: set_line_def nth_list_update_if)

lemma length_insert_line [simp]: "length (insert_line n ls) = Suc (length ls)"
  by (simp add: insert_line_def)

lemma insert_line_replicate [simp]:
  "insert_line n (replicate m blank_line) = replicate (Suc m) blank_line"
proof -
  have "insert_line n (replicate m blank_line)
      = replicate (min n m) blank_line @ replicate 1 blank_line @ replicate (m - n) blank_line"
    by (simp add: insert_line_def)
  also have "\<dots> = replicate (Suc m) blank_line"
    by (simp only: flip: replicate_add) (simp add: min_def)
  finally show ?thesis .
qed

lemma create_lines_fold:
  "fold create_line (enumerate n ids) \<lparr>tb_lines = replicate n blank_line, tb_lineOf = m\<rparr>
    = \<lparr>tb_lines = replicate (n + length ids) blank_line, tb_lineOf = m(ids [\<mapsto>] [n..<n + length ids])\<rparr>"
proof (induction ids arbitrary: n m)
  case (Cons i ids)
  have "fold create_line (enumerate n (i # ids)) \<lparr>tb_lines = replicate n blank_line, tb_lineOf = m\<rparr>
      = fold create_line (enumerate (Suc n) ids)
          \<lparr>tb_lines = replicate (Suc n) blank_line, tb_lineOf = m(i \<mapsto> n)\<rparr>"
    by (simp add: create_line_def del: replicate.simps)
  also have "\<dots> = \<lparr>tb_lines = replicate (Suc n + length ids) blank_line,
      tb_lineOf = (m(i \<mapsto> n))(ids [\<mapsto>] [Suc n..<Suc n + length ids])\<rparr>"
    by (rule Cons.IH)
  finally show ?case by (simp add: upt_conv_Cons del: upt_Suc replicate.simps)
qed simp

text \<open>
  A table for a list of IDs: as many lines, and each ID knows its own; what it
  says besides does not matter.
\<close>

definition table_for :: "attr_id list \<Rightarrow> table \<Rightarrow> bool" where
  "table_for ids tb \<longleftrightarrow> length (tb_lines tb) = length ids
     \<and> (\<forall>k<length ids. tb_lineOf tb (ids ! k) = Some k)"

lemma CreateLines_table:
  assumes "IDsToRead_from h u 0 = Some ids" "distinct ids"
  shows "\<exists>tb'. CreateLines h u (tb\<lparr>tb_lines := []\<rparr>) = Some tb' \<and> table_for ids tb'"
proof -
  have tb: "tb\<lparr>tb_lines := []\<rparr> = \<lparr>tb_lines = replicate 0 blank_line, tb_lineOf = tb_lineOf tb\<rparr>" by simp
  show ?thesis
    using assms unfolding tb CreateLines_def create_lines_fold
    by (simp add: table_for_def map_upds_nth create_lines_fold [where n = 0, simplified])
qed

lemma cell_table:
  assumes "table_for ids tb" "k < length ids" "GetClrAccordng1toMns1Rng r = Some c"
  shows "\<exists>tb'. SetSMARTattribValue b (ids ! k) col s r tb = Some tb' \<and> table_for ids tb'
    \<and> (\<forall>j<length ids. \<forall>q. ln_text (tb_lines tb' ! j) q =
         (if j = k \<and> q = col then s else ln_text (tb_lines tb ! j) q))
    \<and> (\<forall>j<length ids. ln_back (tb_lines tb' ! j) =
         (if j = k \<and> col = rawValColID b then Some c else ln_back (tb_lines tb ! j)))"
proof -
  have "ids ! j = ids ! k \<longleftrightarrow> j = k" if "j < length ids" for j
    using assms that unfolding table_for_def by (metis option.inject)
  then show ?thesis
    using assms by (simp add: SetSMARTattribValue_def table_for_def nth_set_line Let_def)
qed

text \<open>The table is a view of the attributes it has a line for.\<close>

definition table_seen :: "attr_id list \<Rightarrow> table \<Rightarrow> attr_id \<Rightarrow> nat \<Rightarrow> string \<Rightarrow> bool" where
  "table_seen ids tb i c v \<longleftrightarrow> (\<exists>k<length ids. ids ! k = i \<and> ln_text (tb_lines tb ! k) c = v)"

interpretation wx_table: attr_view "SetSMARTattribValue b" "table_seen ids" "table_for ids"
    "\<lambda>i c v r. i \<in> set ids \<and> GetClrAccordng1toMns1Rng r \<noteq> None" for b ids
proof
  fix tb i col v r
  assume "table_for ids tb" and ok: "i \<in> set ids \<and> GetClrAccordng1toMns1Rng r \<noteq> None"
  then obtain k cl where k: "k < length ids" "ids ! k = i" and
      cl: "GetClrAccordng1toMns1Rng r = Some cl" by (auto simp: in_set_conv_nth)
  note cell = cell_table [OF \<open>table_for ids tb\<close> k(1) cl, of b col v, unfolded k(2)]
  then show "\<exists>tb'. SetSMARTattribValue b i col v r tb = Some tb'" by blast
  fix tb' assume tb': "SetSMARTattribValue b i col v r tb = Some tb'"
  then show "table_for ids tb'" using cell by auto
  show "table_seen ids tb' i col v" using cell tb' k by (auto simp: table_seen_def)
  fix j d w assume "(j, d) \<noteq> (i, col)" "table_seen ids tb j d w"
  then show "table_seen ids tb' j d w" using cell tb' k by (auto simp: table_seen_def)
qed

lemma label_colour: "GetClrAccordng1toMns1Rng (rslt_val NoCriticalVal) = Some (0, 255, 255)"
  by (simp add: GetClrAccordng1toMns1Rng_def)

definition label_name :: "SMARTattrDefAccss \<Rightarrow> bus option \<Rightarrow> attr_id \<Rightarrow> string" where
  "label_name s b i =
     cstr (attributeName (if b = Some NVMe then NVMeSMARTattrDefs s i else SMARTattrDefs s i))"

lemma panel_cell_table:
  assumes "table_for ids (pn_list p)" "k < length ids" "GetClrAccordng1toMns1Rng r = Some c"
  shows "\<exists>tb'. panel_cell (ids ! k) col s r p = Some (p\<lparr>pn_list := tb'\<rparr>) \<and> table_for ids tb'
    \<and> (\<forall>j<length ids. \<forall>q. ln_text (tb_lines tb' ! j) q =
         (if j = k \<and> q = col then s else ln_text (tb_lines (pn_list p) ! j) q))
    \<and> (\<forall>j<length ids. ln_back (tb_lines tb' ! j) =
         (if j = k \<and> col = rawValColID (busType (pn_dataCarrier p)) then Some c
          else ln_back (tb_lines (pn_list p) ! j)))"
  using cell_table [OF assms, of "busType (pn_dataCarrier p)" col s] by (auto simp: panel_cell_def)

lemma panel_setIDandLabel_table:
  assumes "table_for ids (pn_list p)" "k < length ids"
  shows "\<exists>tb'. panel_setIDandLabel s (ids ! k) p = Some (p\<lparr>pn_list := tb'\<rparr>) \<and> table_for ids tb'
    \<and> (\<forall>j<length ids. \<forall>q. ln_text (tb_lines tb' ! j) q =
         (if j = k \<and> q = 0 then dec (ids ! k) else if j = k \<and> q = 1 then label_name s (pn_bus p) (ids ! k)
          else ln_text (tb_lines (pn_list p) ! j) q))"
proof -
  obtain tb1 where t1: "panel_cell (ids ! k) 0 (dec (ids ! k)) (rslt_val NoCriticalVal) p = Some (p\<lparr>pn_list := tb1\<rparr>)"
      "table_for ids tb1"
      "\<forall>j<length ids. \<forall>q. ln_text (tb_lines tb1 ! j) q =
         (if j = k \<and> q = 0 then dec (ids ! k) else ln_text (tb_lines (pn_list p) ! j) q)"
    using panel_cell_table [OF assms label_colour, of 0] by blast
  have "table_for ids (pn_list (p\<lparr>pn_list := tb1\<rparr>))" using t1(2) by simp
  then obtain tb2 where t2: "panel_cell (ids ! k) 1 (label_name s (pn_bus p) (ids ! k)) (rslt_val NoCriticalVal)
        (p\<lparr>pn_list := tb1\<rparr>) = Some (p\<lparr>pn_list := tb2\<rparr>)"
      "table_for ids tb2"
      "\<forall>j<length ids. \<forall>q. ln_text (tb_lines tb2 ! j) q =
         (if j = k \<and> q = 1 then label_name s (pn_bus p) (ids ! k) else ln_text (tb_lines tb1 ! j) q)"
    using panel_cell_table [OF _ assms(2) label_colour, of "p\<lparr>pn_list := tb1\<rparr>" 1] by fastforce
  have "panel_setIDandLabel s (ids ! k) p = Some (p\<lparr>pn_list := tb2\<rparr>)"
    using t1(1) t2(1) by (auto simp: panel_setIDandLabel_def label_name_def)
  then show ?thesis using t1 t2 by auto
qed

lemma panel_labels_table:
  assumes "table_for ids (pn_list p)" "set js \<subseteq> set ids"
  shows "\<exists>tb'. panel_labels s js p = Some (p\<lparr>pn_list := tb'\<rparr>) \<and> table_for ids tb'
    \<and> (\<forall>j<length ids. \<forall>q. ln_text (tb_lines tb' ! j) q =
         (if ids ! j \<in> set js \<and> q = 0 then dec (ids ! j)
          else if ids ! j \<in> set js \<and> q = 1 then label_name s (pn_bus p) (ids ! j)
          else ln_text (tb_lines (pn_list p) ! j) q))"
  using assms
proof (induction js arbitrary: p)
  case Nil
  then show ?case by (intro exI [of _ "pn_list p"]) simp
next
  case (Cons i js)
  obtain k where k: "k < length ids" "i = ids ! k" using Cons.prems by (auto simp: in_set_conv_nth)
  have inj: "ids ! j = ids ! k \<longleftrightarrow> j = k" if "j < length ids" for j
    using Cons.prems(1) that k unfolding table_for_def by (metis option.inject)
  obtain tb1 where t1: "panel_setIDandLabel s i p = Some (p\<lparr>pn_list := tb1\<rparr>)" "table_for ids tb1"
      "\<forall>j<length ids. \<forall>q. ln_text (tb_lines tb1 ! j) q =
         (if j = k \<and> q = 0 then dec (ids ! k) else if j = k \<and> q = 1 then label_name s (pn_bus p) (ids ! k)
          else ln_text (tb_lines (pn_list p) ! j) q)"
    using panel_setIDandLabel_table [OF Cons.prems(1) k(1)] k(2) by blast
  obtain tb2 where t2: "panel_labels s js (p\<lparr>pn_list := tb1\<rparr>) = Some (p\<lparr>pn_list := tb2\<rparr>)" "table_for ids tb2"
      "\<forall>j<length ids. \<forall>q. ln_text (tb_lines tb2 ! j) q =
         (if ids ! j \<in> set js \<and> q = 0 then dec (ids ! j)
          else if ids ! j \<in> set js \<and> q = 1 then label_name s (pn_bus p) (ids ! j)
          else ln_text (tb_lines tb1 ! j) q)"
    using Cons.IH [of "p\<lparr>pn_list := tb1\<rparr>"] Cons.prems(2) t1(2) by auto
  show ?case
    using t1 t2 inj k by (intro exI [of _ tb2]) auto
qed

text \<open>A drive whose attributes to read are a terminated array without duplicates.\<close>

definition wf_drive :: "hw_sizes \<Rightarrow> SMARTuniqueID \<Rightarrow> bool" where
  "wf_drive h u \<longleftrightarrow> 0 \<in> set (SMART_IDsToRd u) \<and> length (SMART_IDsToRd u) \<le> numSATA h
     \<and> distinct (id_list (SMART_IDsToRd u))"

lemma fill_panel_table:
  assumes "wf_drive h u"
  shows "\<exists>p1. fill_panel h s u p = Some p1 \<and> table_for (id_list (SMART_IDsToRd u)) (pn_list p1)
    \<and> pn_label p1 = pn_label (SetSMARTdriveID h u p) \<and> pn_bus p1 = Some (busType u)
    \<and> (\<forall>j<length (id_list (SMART_IDsToRd u)).
         ln_text (tb_lines (pn_list p1) ! j) 0 = dec (id_list (SMART_IDsToRd u) ! j)
         \<and> ln_text (tb_lines (pn_list p1) ! j) 1
           = label_name s (Some (busType u)) (id_list (SMART_IDsToRd u) ! j))"
proof -
  let ?ids = "id_list (SMART_IDsToRd u)" and ?p = "\<lambda>tb. SetSMARTdriveID h u (p\<lparr>pn_list := tb\<rparr>)"
  have ids: "IDsToRead_from h u 0 = Some ?ids"
    using assms by (intro IDsToRead_id_list) (simp_all add: wf_drive_def)
  obtain tb where tb: "CreateLines h u ((pn_list p)\<lparr>tb_lines := []\<rparr>) = Some tb" "table_for ?ids tb"
    using CreateLines_table [OF ids] assms unfolding wf_drive_def by blast
  have "table_for ?ids (pn_list (?p tb))" using tb(2) by (simp add: SetSMARTdriveID_def)
  then obtain tb1 where t1: "panel_labels s ?ids (?p tb) = Some ((?p tb)\<lparr>pn_list := tb1\<rparr>)" "table_for ?ids tb1"
      "\<forall>j<length ?ids. ln_text (tb_lines tb1 ! j) 0 = dec (?ids ! j)
         \<and> ln_text (tb_lines tb1 ! j) 1 = label_name s (pn_bus (?p tb)) (?ids ! j)"
    using panel_labels_table [of ?ids "?p tb" ?ids s] by auto
  have "fill_panel h s u p = Some ((?p tb)\<lparr>pn_list := tb1\<rparr>)"
    using tb(1) t1(1) by (simp add: fill_panel_def ReCreate_def panel_SetSMARTattribIDandNameLabel_def ids)
  then show ?thesis
    using t1 by (intro exI [of _ "(?p tb)\<lparr>pn_list := tb1\<rparr>"]) (simp add: SetSMARTdriveID_def)
qed

text \<open>
  C33: A panel that is filled for a drive, whatever it showed before, has one
  line per attribute to read, with the ID and the name in it, and is labelled
  with the drive. A text then set for one of these attributes changes this
  column of this line only.
\<close>

theorem panel_shows_attributes:
  assumes "wf_drive h u" "i \<in> set (id_list (SMART_IDsToRd u))" "GetClrAccordng1toMns1Rng r = Some c"
  shows "\<exists>p1 p2 k. fill_panel h s u p = Some p1 \<and> panel_cell i col v r p1 = Some p2
    \<and> pn_label p1 = pn_label (SetSMARTdriveID h u p) \<and> pn_bus p1 = Some (busType u)
    \<and> length (tb_lines (pn_list p1)) = length (id_list (SMART_IDsToRd u))
    \<and> (\<forall>j<length (id_list (SMART_IDsToRd u)).
         ln_text (tb_lines (pn_list p1) ! j) 0 = dec (id_list (SMART_IDsToRd u) ! j)
         \<and> ln_text (tb_lines (pn_list p1) ! j) 1
           = label_name s (Some (busType u)) (id_list (SMART_IDsToRd u) ! j)
         \<and> (\<forall>q. ln_text (tb_lines (pn_list p2) ! j) q =
              (if j = k \<and> q = col then v else ln_text (tb_lines (pn_list p1) ! j) q)))
    \<and> k < length (id_list (SMART_IDsToRd u)) \<and> id_list (SMART_IDsToRd u) ! k = i"
proof -
  obtain k where k: "k < length (id_list (SMART_IDsToRd u))" "id_list (SMART_IDsToRd u) ! k = i"
    using assms(2) by (auto simp: in_set_conv_nth)
  obtain p1 where p1: "fill_panel h s u p = Some p1" "table_for (id_list (SMART_IDsToRd u)) (pn_list p1)"
      "pn_label p1 = pn_label (SetSMARTdriveID h u p)" "pn_bus p1 = Some (busType u)"
      "\<forall>j<length (id_list (SMART_IDsToRd u)).
         ln_text (tb_lines (pn_list p1) ! j) 0 = dec (id_list (SMART_IDsToRd u) ! j)
         \<and> ln_text (tb_lines (pn_list p1) ! j) 1
           = label_name s (Some (busType u)) (id_list (SMART_IDsToRd u) ! j)"
    using fill_panel_table [OF assms(1), of s p] by blast
  obtain tb where tb: "panel_cell i col v r p1 = Some (p1\<lparr>pn_list := tb\<rparr>)"
      "\<forall>j<length (id_list (SMART_IDsToRd u)). \<forall>q. ln_text (tb_lines tb ! j) q =
         (if j = k \<and> q = col then v else ln_text (tb_lines (pn_list p1) ! j) q)"
    using panel_cell_table [OF p1(2) k(1) assms(3), of col v] k(2) by auto
  show ?thesis
    by (intro exI [of _ p1] exI [of _ "p1\<lparr>pn_list := tb\<rparr>"] exI [of _ k])
      (use p1 tb k in \<open>simp add: table_for_def\<close>)
qed

definition uid_194 :: SMARTuniqueID where
  "uid_194 = blank_uid\<lparr>SMART_IDsToRd := [5, 194, 0]\<rparr>"

theorem panel_shows_attributes_witness:
  "\<exists>p1 p2 :: panel. fill_panel std_sizes defs_example uid_194 (PerDataCarrierPanel 2 uid_194) = Some p1
    \<and> panel_cell 194 4 ''30'' 1 p1 = Some p2
    \<and> ln_text (tb_lines (pn_list p1) ! 0) 0 = dec 5
    \<and> ln_text (tb_lines (pn_list p2) ! 1) 4 = ''30''"
proof -
  have ids: "id_list (SMART_IDsToRd uid_194) = [5, 194]"
    by (simp add: uid_194_def id_list_def)
  have c: "GetClrAccordng1toMns1Rng 1 = Some (0, 255, 0)" by (simp add: GetClrAccordng1toMns1Rng_def)
  have a: "wf_drive std_sizes uid_194" "194 \<in> set (id_list (SMART_IDsToRd uid_194))"
    unfolding wf_drive_def ids by (simp_all add: uid_194_def std_sizes_def)
  obtain p1 p2 k where p: "fill_panel std_sizes defs_example uid_194 (PerDataCarrierPanel 2 uid_194) = Some p1"
      "panel_cell 194 4 ''30'' 1 p1 = Some p2"
      "\<forall>j<length [5 :: nat, 194]. ln_text (tb_lines (pn_list p1) ! j) 0 = dec ([5, 194] ! j)
         \<and> (\<forall>q. ln_text (tb_lines (pn_list p2) ! j) q =
              (if j = k \<and> q = 4 then ''30'' else ln_text (tb_lines (pn_list p1) ! j) q))"
      "k < length [5 :: nat, 194]" "[5 :: nat, 194] ! k = 194"
    using panel_shows_attributes [OF a c, of defs_example "PerDataCarrierPanel 2 uid_194" 4 "''30''"]
    unfolding ids by blast
  moreover have "k = 1" using p(4,5) by (cases k) auto
  ultimately show ?thesis by auto
qed

end
