(* ===== verification/WxDialog.thy ===== *)
theory WxDialog
  imports WxTable
begin

text \<open>
  \<open>wxWidgets/wxSMARTmonitorDialog.cpp\<close> and \<open>wxWidgets/wxSMARTmonitorApp.cpp\<close>: the
  main window: the panels of the drives, how they are rebuilt and how a cell
  finds its panel.

  A panel is addressed by its number in the order of creation, its pointer. The
  map from drives to panels is a list of pairs ordered by the comparison of
  drives.
\<close>

section \<open>The state of the window\<close>

datatype icon = SMARTokIcon | SMARTstatusUnknownIcon | SMARTwarningIcon

record dialog =
  dl_panels :: "(SMARTuniqueID \<times> nat) list"
  dl_store :: "panel list"
  dl_shown :: "nat list"
  dl_evtID :: "nat \<rightharpoonup> SMARTuniqueID"
  dl_title :: string
  dl_msg :: string
  dl_msgColour :: colour
  dl_icon :: "icon option"
  dl_connectLabel :: string
  dl_connectEnabled :: bool
  dl_directLabel :: string
  dl_suppEnabled :: "nat set"

text \<open>\<open>enum IDs\<close>: the first ID of the buttons of the panels.\<close>

definition showSupportedSMART_IDs :: nat where "showSupportedSMART_IDs = 2"

section \<open>The panels\<close>

definition panel_less :: "hw_sizes \<Rightarrow> SMARTuniqueID \<times> nat \<Rightarrow> SMARTuniqueID \<times> nat \<Rightarrow> bool" where
  "panel_less h l r = uid_less h (fst l) (fst r)"

interpretation panels: strict_weak_order "panel_less h" for h
  by (rule strict_weak_order_key [of _ "\<lambda>x. uid_key h (fst x)"]) (simp add: panel_less_def uid_less_key)

definition find_panel :: "hw_sizes \<Rightarrow> SMARTuniqueID \<Rightarrow> dialog \<Rightarrow> nat option" where
  "find_panel h u D = map_option snd (set_find (panel_less h) (u, 0) (dl_panels D))"

text \<open>
  One drive of the loop of \<open>ReBuildUserInterface\<close>: the panel is the next one
  of the map as long as there are any, a new one after that. The map keeps the
  identifications it has, and does not take a new panel for an identification
  it has.
\<close>

definition new_panel :: "hw_sizes \<Rightarrow> nat \<Rightarrow> SMARTuniqueID \<Rightarrow> dialog \<Rightarrow> nat \<times> dialog" where
  "new_panel h w u D =
     (let p = length (dl_store D)
      in (p, D\<lparr>dl_store := dl_store D @ [PerDataCarrierPanel w u], dl_shown := p # dl_shown D,
            dl_panels := set_insert (panel_less h) (u, p) (dl_panels D)\<rparr>))"

definition fill_drive :: "hw_sizes \<Rightarrow> SMARTattrDefAccss \<Rightarrow> nat \<Rightarrow> SMARTuniqueID \<Rightarrow> nat \<Rightarrow> dialog
    \<Rightarrow> dialog option" where
  "fill_drive h s w u p D =
     map_option (\<lambda>pn. D\<lparr>dl_store := (dl_store D)[p := pn], dl_evtID := (dl_evtID D)(w \<mapsto> u)\<rparr>)
       (fill_panel h s u (dl_store D ! p))"

fun rebuild_loop :: "hw_sizes \<Rightarrow> SMARTattrDefAccss \<Rightarrow> SMARTuniqueID list \<Rightarrow> nat list \<Rightarrow> nat
    \<Rightarrow> dialog \<Rightarrow> dialog option" where
  "rebuild_loop h s [] ps w D = Some D"
| "rebuild_loop h s (u # us) (p # ps) w D =
     Option.bind (fill_drive h s w u p D) (rebuild_loop h s us ps (Suc w))"
| "rebuild_loop h s (u # us) [] w D =
     (case new_panel h w u D of (p, D1) \<Rightarrow>
        Option.bind (fill_drive h s w u p D1) (rebuild_loop h s us [] (Suc w)))"

definition ReBuildUserInterface :: "hw_sizes \<Rightarrow> SMARTattrDefAccss \<Rightarrow> SMARTuniqueID list \<Rightarrow> dialog
    \<Rightarrow> dialog option" where
  "ReBuildUserInterface h s drives D =
     rebuild_loop h s drives (map snd (dl_panels D)) showSupportedSMART_IDs (D\<lparr>dl_evtID := Map.empty\<rparr>)"

text \<open>The panels a window is built with; all of them have the same window ID.\<close>

definition CreatePerDiskUIctrls :: "hw_sizes \<Rightarrow> SMARTuniqueID list \<Rightarrow> dialog \<Rightarrow> dialog" where
  "CreatePerDiskUIctrls h drives D =
     fold (\<lambda>u D. let D1 = snd (new_panel h showSupportedSMART_IDs u D) in
         D1\<lparr>dl_shown := dl_shown D @ [length (dl_store D)],
            dl_evtID := (case dl_evtID D1 showSupportedSMART_IDs of
              None \<Rightarrow> (dl_evtID D1)(showSupportedSMART_IDs \<mapsto> u) | Some _ \<Rightarrow> dl_evtID D1)\<rparr>)
       drives (D\<lparr>dl_evtID := Map.empty\<rparr>)"

definition RemovePerDataCarrierPanels :: "dialog \<Rightarrow> dialog" where
  "RemovePerDataCarrierPanels D = D\<lparr>dl_panels := [],
     dl_shown := filter (\<lambda>p. p \<notin> snd ` set (dl_panels D)) (dl_shown D)\<rparr>"

definition EnableShowSupportedSMART_IDs :: "dialog \<Rightarrow> dialog" where
  "EnableShowSupportedSMART_IDs D = D\<lparr>dl_suppEnabled := dl_suppEnabled D \<union> snd ` set (dl_panels D)\<rparr>"

text \<open>
  A cell set in the thread of the user interface. None is the access to the
  panel of a drive the map has no panel for: a NULL pointer.
\<close>

definition SetAttribute_UI :: "hw_sizes \<Rightarrow> SMARTuniqueID \<Rightarrow> attr_id \<Rightarrow> nat \<Rightarrow> string \<Rightarrow> rat \<Rightarrow> dialog
    \<Rightarrow> dialog option" where
  "SetAttribute_UI h u i col v r D = do {
     p \<leftarrow> find_panel h u D;
     pn \<leftarrow> panel_cell i col v r (dl_store D ! p);
     Some (D\<lparr>dl_store := (dl_store D)[p := pn]\<rparr>) }"

section \<open>Properties of the panels\<close>

definition wf_dialog :: "hw_sizes \<Rightarrow> dialog \<Rightarrow> bool" where
  "wf_dialog h D \<longleftrightarrow> sorted_wrt (panel_less h) (dl_panels D)
     \<and> (\<forall>x\<in>set (dl_panels D). snd x < length (dl_store D)) \<and> distinct (map snd (dl_panels D))"

lemma fill_drive_frame:
  "fill_drive h s w u p D = Some D' \<Longrightarrow> dl_panels D' = dl_panels D \<and> length (dl_store D') = length (dl_store D)"
  by (auto simp: fill_drive_def)

lemma find_panel_cong: "dl_panels D' = dl_panels D \<Longrightarrow> find_panel h u D' = find_panel h u D"
  by (simp add: find_panel_def)

text \<open>As long as there are panels, the map stays what it is.\<close>

lemma rebuild_loop_reuse:
  "\<lbrakk>rebuild_loop h s us ps w D = Some D'; length us \<le> length ps\<rbrakk> \<Longrightarrow> dl_panels D' = dl_panels D"
proof (induction h s us ps w D rule: rebuild_loop.induct)
  case (2 h s u us p ps w D)
  then show ?case by (auto split: Option.bind_splits dest: fill_drive_frame)
qed simp_all

text \<open>
  C24: A window that already has as many panels as there are drives, or more,
  keeps the identifications of the drives it showed before when it is built anew:
  for a drive that was not among them no panel is found afterwards, and a cell set
  for it is an access through a NULL pointer, the crash a comment beside the code
  tells of.
\<close>

theorem rebuilt_window_misses_drive:
  assumes "ReBuildUserInterface h s drives D = Some D'" "length drives \<le> length (dl_panels D)"
    and "wf_dialog h D" "\<forall>x\<in>set (dl_panels D). uid_key h (fst x) \<noteq> uid_key h u"
  shows "find_panel h u D' = None \<and> SetAttribute_UI h u i col v r D' = None"
proof -
  have "dl_panels D' = dl_panels D"
    using rebuild_loop_reuse [of h s drives "map snd (dl_panels D)"] assms(1,2)
    by (fastforce simp: ReBuildUserInterface_def)
  moreover have "set_find (panel_less h) (u, 0) (dl_panels D) = None"
  proof (rule ccontr)
    assume "set_find (panel_less h) (u, 0) (dl_panels D) \<noteq> None"
    then obtain x where "set_find (panel_less h) (u, 0) (dl_panels D) = Some x" by auto
    then have "x \<in> set (dl_panels D)" "\<not> panel_less h x (u, 0)" "\<not> panel_less h (u, 0) x"
      using panels.set_find_iff assms(3) by (auto simp: wf_dialog_def)
    then show False using assms(4) by (auto simp: panel_less_def uid_less_key)
  qed
  ultimately show ?thesis by (simp add: SetAttribute_UI_def find_panel_def)
qed

lemma find_new_panel:
  assumes "wf_dialog h D" "\<forall>x\<in>set (dl_panels D). uid_key h (fst x) \<noteq> uid_key h u"
    and "new_panel h w u D = (p, D1)"
  shows "wf_dialog h D1" "find_panel h u D1 = Some p"
    and "uid_key h v \<noteq> uid_key h u \<Longrightarrow> find_panel h v D1 = find_panel h v D"
    and "uid_key h ` fst ` set (dl_panels D1) \<subseteq> insert (uid_key h u) (uid_key h ` fst ` set (dl_panels D))"
proof -
  let ?lt = "panel_less h" and ?P = "dl_panels D"
  have p: "p = length (dl_store D)" "dl_panels D1 = set_insert ?lt (u, p) ?P"
    "dl_store D1 = dl_store D @ [PerDataCarrierPanel w u]"
    using assms(3) by (auto simp: new_panel_def Let_def)
  have srt: "sorted_wrt ?lt ?P" and lt: "\<forall>x\<in>set ?P. snd x < length (dl_store D)"
    using assms(1) by (auto simp: wf_dialog_def)
  have sub: "set (dl_panels D1) \<subseteq> insert (u, p) (set ?P)"
    using panels.set_insert_set p(2) by simp
  then show "uid_key h ` fst ` set (dl_panels D1) \<subseteq> insert (uid_key h u) (uid_key h ` fst ` set ?P)" by force
  have dist: "distinct (map snd (set_insert ?lt (x, q) xs))"
    if "distinct (map snd xs)" "\<forall>y\<in>set xs. snd y \<noteq> q" for x q xs
    using that
  proof (induction xs)
    case (Cons y ys)
    then show ?case using panels.set_insert_set [of h "(x, q)" ys] by auto
  qed simp
  show "wf_dialog h D1"
    using panels.set_insert_sorted [OF srt] sub lt dist [of ?P p u] assms(1)
    by (fastforce simp: wf_dialog_def p)
  obtain y where y: "set_find ?lt (u, p) (dl_panels D1) = Some y" "\<not> ?lt (u, p) y" "\<not> ?lt y (u, p)"
    using panels.set_find_insert [OF srt] p(2) by metis
  have c: "set_find ?lt (u, 0) xs = set_find ?lt (u, p) xs" for xs
    by (induction xs) (auto simp: panel_less_def)
  have "sorted_wrt ?lt (dl_panels D1)" using panels.set_insert_sorted [OF srt] p(2) by simp
  then have "y \<in> set (dl_panels D1)" using y(1) panels.set_find_iff by blast
  then have "y \<in> insert (u, p) (set ?P)" using sub by blast
  moreover have "uid_key h (fst y) = uid_key h u" using y(2,3) by (auto simp: panel_less_def uid_less_key)
  ultimately have "y = (u, p)" using assms(2) by auto
  then show "find_panel h u D1 = Some p" using y(1) c by (simp add: find_panel_def)
  show "find_panel h v D1 = find_panel h v D" if "uid_key h v \<noteq> uid_key h u"
  proof -
    have "?lt (u, p) (v, 0) \<or> ?lt (v, 0) (u, p)"
      using that by (auto simp: panel_less_def uid_less_key neq_iff)
    then show ?thesis
      using panels.set_find_insert_other [OF srt, of "(u, p)" "(v, 0)"] p(2) by (simp add: find_panel_def)
  qed
qed

lemma fill_drive_wf:
  assumes "wf_drive h u" "p < length (dl_store D)"
  shows "\<exists>D'. fill_drive h s w u p D = Some D' \<and> fill_panel h s u (dl_store D ! p) = Some (dl_store D' ! p)
    \<and> (\<forall>q. q \<noteq> p \<longrightarrow> dl_store D' ! q = dl_store D ! q) \<and> length (dl_store D') = length (dl_store D)
    \<and> dl_panels D' = dl_panels D \<and> dl_evtID D' = (dl_evtID D)(w \<mapsto> u)"
  using fill_panel_table [OF assms(1), of s "dl_store D ! p"] assms(2) by (auto simp: fill_drive_def)

lemma wf_dialog_cong:
  "\<lbrakk>wf_dialog h D; dl_panels D' = dl_panels D; length (dl_store D') = length (dl_store D)\<rbrakk> \<Longrightarrow> wf_dialog h D'"
  by (simp add: wf_dialog_def)

text \<open>Without panels left, every further drive gets a panel of its own.\<close>

lemma rebuild_loop_new:
  assumes "wf_dialog h D" "sorted_wrt (uid_less h) us" "\<forall>u\<in>set us. wf_drive h u"
    and "\<forall>u\<in>set us. \<forall>x\<in>set (dl_panels D). uid_key h (fst x) \<noteq> uid_key h u"
  shows "\<exists>D'. rebuild_loop h s us [] w D = Some D' \<and> wf_dialog h D'
    \<and> (\<forall>v. uid_key h v \<notin> uid_key h ` set us \<longrightarrow> find_panel h v D' = find_panel h v D)
    \<and> (\<forall>k<length us. find_panel h (us ! k) D' = Some (length (dl_store D) + k)
         \<and> (\<exists>p. fill_panel h s (us ! k) p = Some (dl_store D' ! (length (dl_store D) + k)))
         \<and> dl_evtID D' (w + k) = Some (us ! k))
    \<and> length (dl_store D') = length (dl_store D) + length us
    \<and> (\<forall>q<length (dl_store D). dl_store D' ! q = dl_store D ! q) \<and> (\<forall>w'<w. dl_evtID D' w' = dl_evtID D w')"
  using assms
proof (induction us arbitrary: w D)
  case (Cons u us)
  let ?n = "length (dl_store D)"
  obtain D1 where D1: "new_panel h w u D = (?n, D1)" by (auto simp: new_panel_def Let_def)
  have s1: "dl_store D1 = dl_store D @ [PerDataCarrierPanel w u]" "dl_evtID D1 = dl_evtID D"
    using D1 by (auto simp: new_panel_def Let_def)
  have f1: "wf_dialog h D1" "find_panel h u D1 = Some ?n"
    "\<And>v. uid_key h v \<noteq> uid_key h u \<Longrightarrow> find_panel h v D1 = find_panel h v D"
    "uid_key h ` fst ` set (dl_panels D1) \<subseteq> insert (uid_key h u) (uid_key h ` fst ` set (dl_panels D))"
    using find_new_panel [OF Cons.prems(1) _ D1] Cons.prems(4) by simp_all
  obtain D2 where D2: "fill_drive h s w u ?n D1 = Some D2" "fill_panel h s u (dl_store D1 ! ?n) = Some (dl_store D2 ! ?n)"
      "\<forall>q. q \<noteq> ?n \<longrightarrow> dl_store D2 ! q = dl_store D1 ! q" "length (dl_store D2) = Suc ?n"
      "dl_panels D2 = dl_panels D1" "dl_evtID D2 = (dl_evtID D)(w \<mapsto> u)"
    using fill_drive_wf [of h u ?n D1 s w] Cons.prems(3) s1 by auto
  have w2: "wf_dialog h D2" by (rule wf_dialog_cong [OF f1(1) D2(5)]) (simp add: D2(4) s1)
  have k: "uid_key h v \<noteq> uid_key h u" if "v \<in> set us" for v
    using Cons.prems(2) that by (auto simp: uid_less_key)
  have "\<forall>v\<in>set us. \<forall>x\<in>set (dl_panels D2). uid_key h (fst x) \<noteq> uid_key h v"
    using f1(4) k Cons.prems(4) D2(5) by fastforce
  then obtain D' where D': "rebuild_loop h s us [] (Suc w) D2 = Some D'" "wf_dialog h D'"
      "\<forall>v. uid_key h v \<notin> uid_key h ` set us \<longrightarrow> find_panel h v D' = find_panel h v D2"
      "\<forall>k<length us. find_panel h (us ! k) D' = Some (Suc ?n + k)
         \<and> (\<exists>p. fill_panel h s (us ! k) p = Some (dl_store D' ! (Suc ?n + k)))
         \<and> dl_evtID D' (Suc w + k) = Some (us ! k)"
      "length (dl_store D') = Suc ?n + length us"
      "\<forall>q<Suc ?n. dl_store D' ! q = dl_store D2 ! q" "\<forall>w'<Suc w. dl_evtID D' w' = dl_evtID D2 w'"
    using Cons.IH [of D2 "Suc w"] Cons.prems(2,3) w2 D2(4) by auto
  have ku: "uid_key h u \<notin> uid_key h ` set us" using k by (metis imageE)
  have fp: "find_panel h v D2 = find_panel h v D1" for v by (rule find_panel_cong [OF D2(5)])
  show ?case
  proof (intro exI [of _ D'] conjI allI impI)
    show "rebuild_loop h s (u # us) [] w D = Some D'" using D1 D2(1) D'(1) by simp
    show "find_panel h v D' = find_panel h v D" if "uid_key h v \<notin> uid_key h ` set (u # us)" for v
      using that D'(3) fp f1(3) by simp
    fix j assume j: "j < length (u # us)"
    show "find_panel h ((u # us) ! j) D' = Some (?n + j)"
      using j D'(3,4) fp f1(2) ku by (cases j) auto
    show "\<exists>p. fill_panel h s ((u # us) ! j) p = Some (dl_store D' ! (?n + j))"
      using j D'(4,6) D2(2) by (cases j) auto
    show "dl_evtID D' (w + j) = Some ((u # us) ! j)"
      using j D'(4,7) D2(6) by (cases j) auto
  qed (use D' D2 s1 in \<open>auto simp: nth_append\<close>)
qed simp

text \<open>
  C11: A window without panels that is rebuilt for the drives of a container
  has a panel for each of them, labelled with the drive and reached by its
  button's window ID, and a cell that is set for an attribute the drive reads
  changes this panel and no other.
\<close>

theorem rebuilt_window_shows_drives:
  assumes "dl_panels D = []" "sorted_wrt (uid_less h) drives" "\<forall>u\<in>set drives. wf_drive h u"
    and "k < length drives" "i \<in> set (id_list (SMART_IDsToRd (drives ! k)))"
    and "GetClrAccordng1toMns1Rng r = Some c"
  shows "\<exists>D' D'' p. ReBuildUserInterface h s drives D = Some D' \<and> find_panel h (drives ! k) D' = Some p
    \<and> (\<exists>q. pn_label (dl_store D' ! p) = pn_label (SetSMARTdriveID h (drives ! k) q))
    \<and> dl_evtID D' (showSupportedSMART_IDs + k) = Some (drives ! k)
    \<and> SetAttribute_UI h (drives ! k) i col v r D' = Some D''
    \<and> (\<forall>q. q \<noteq> p \<longrightarrow> dl_store D'' ! q = dl_store D' ! q)
    \<and> (\<exists>l<length (tb_lines (pn_list (dl_store D'' ! p))).
         ln_text (tb_lines (pn_list (dl_store D'' ! p)) ! l) col = v)"
proof -
  let ?E = "D\<lparr>dl_evtID := Map.empty\<rparr>" and ?u = "drives ! k"
  have "wf_dialog h ?E" using assms(1) by (simp add: wf_dialog_def)
  then obtain D' p0 where D': "ReBuildUserInterface h s drives D = Some D'"
      "find_panel h ?u D' = Some (length (dl_store D) + k)"
      "fill_panel h s ?u p0 = Some (dl_store D' ! (length (dl_store D) + k))"
      "dl_evtID D' (showSupportedSMART_IDs + k) = Some ?u"
      "length (dl_store D') = length (dl_store D) + length drives"
    using rebuild_loop_new [of h ?E drives s showSupportedSMART_IDs] assms(1-4)
    by (auto simp: ReBuildUserInterface_def)
  let ?p = "length (dl_store D) + k"
  have tf: "table_for (id_list (SMART_IDsToRd ?u)) (pn_list (dl_store D' ! ?p))"
    "pn_label (dl_store D' ! ?p) = pn_label (SetSMARTdriveID h ?u p0)"
    using fill_panel_table [of h ?u s p0] assms(3,4) D'(3) by auto
  obtain l where l: "l < length (id_list (SMART_IDsToRd ?u))" "id_list (SMART_IDsToRd ?u) ! l = i"
    using assms(5) by (auto simp: in_set_conv_nth)
  obtain tb where tb: "panel_cell i col v r (dl_store D' ! ?p) = Some ((dl_store D' ! ?p)\<lparr>pn_list := tb\<rparr>)"
      "table_for (id_list (SMART_IDsToRd ?u)) tb" "ln_text (tb_lines tb ! l) col = v"
    using panel_cell_table [OF tf(1) l(1) assms(6), of col v] l by auto
  then show ?thesis
    using D' tf(2) l assms(4)
    by (intro exI [of _ D'] exI [of _ "D'\<lparr>dl_store := (dl_store D')[?p := (dl_store D' ! ?p)\<lparr>pn_list := tb\<rparr>]\<rparr>"]
        exI [of _ ?p]) (auto simp: SetAttribute_UI_def table_for_def)
qed

text \<open>Windows for the witnesses: without panels, and with one for another drive.\<close>

definition dialog_example :: dialog where
  "dialog_example = \<lparr>dl_panels = [], dl_store = [], dl_shown = [], dl_evtID = Map.empty,
     dl_title = [], dl_msg = [], dl_msgColour = (255, 255, 255), dl_icon = None,
     dl_connectLabel = ''connect'', dl_connectEnabled = True, dl_directLabel = ''direct'', dl_suppEnabled = {}\<rparr>"

definition uid_other :: SMARTuniqueID where
  "uid_other = uid_194\<lparr>modelName := ''X'' @ replicate 40 NUL\<rparr>"

lemma wf_uid_194: "wf_drive std_sizes uid_194"
  by (simp add: wf_drive_def uid_194_def std_sizes_def id_list_def)

lemma uid_other_key: "uid_key std_sizes uid_other \<noteq> uid_key std_sizes uid_194"
proof -
  have n: "numModelBytes std_sizes = Suc 39" by (simp add: std_sizes_def)
  have "modelName uid_194 = replicate (Suc 40) NUL"
    by (simp add: uid_194_def blank_uid_def initAttrVals_def)
  then have "str_key (Suc 39) (modelName uid_194) = []" by (simp only: replicate_Suc str_key_simps refl if_True)
  moreover have "modelName uid_other = CHR ''X'' # replicate 40 NUL" by (simp add: uid_other_def)
  then have "str_key (Suc 39) (modelName uid_other) \<noteq> []"
    by (simp only: str_key_simps) (simp add: NUL_def)
  ultimately show ?thesis unfolding uid_key_def n by (metis Pair_inject)
qed

theorem rebuilt_window_shows_drives_witness:
  "\<exists>D' D'' p. ReBuildUserInterface std_sizes defs_example [uid_194] dialog_example = Some D'
    \<and> find_panel std_sizes uid_194 D' = Some p
    \<and> SetAttribute_UI std_sizes uid_194 194 4 ''30'' 1 D' = Some D''"
proof -
  have a: "dl_panels dialog_example = []" "sorted_wrt (uid_less std_sizes) [uid_194]"
    "\<forall>u\<in>set [uid_194]. wf_drive std_sizes u" "0 < length [uid_194]"
    "194 \<in> set (id_list (SMART_IDsToRd ([uid_194] ! 0)))"
    "GetClrAccordng1toMns1Rng 1 = Some (0, 255, 0)"
    by (simp_all add: dialog_example_def wf_uid_194 GetClrAccordng1toMns1Rng_def)
      (simp add: uid_194_def id_list_def)
  show ?thesis
    using rebuilt_window_shows_drives [OF a, of defs_example 4 "''30''"] by auto
qed

theorem rebuilt_window_misses_drive_witness:
  "\<exists>D D'. length (dl_panels D) = 1 \<and> ReBuildUserInterface std_sizes defs_example [uid_194] D = Some D'
    \<and> find_panel std_sizes uid_194 D' = None \<and> SetAttribute_UI std_sizes uid_194 194 4 ''30'' 1 D' = None"
proof -
  let ?D = "snd (new_panel std_sizes 2 uid_other dialog_example)"
  have D: "dl_panels ?D = [(uid_other, 0)]" "length (dl_store ?D) = 1"
    by (simp_all add: new_panel_def dialog_example_def Let_def)
  let ?E = "?D\<lparr>dl_evtID := Map.empty\<rparr>"
  have "0 < length (dl_store ?E)" using D(2) by simp
  from fill_drive_wf [OF wf_uid_194 this] obtain D' where
      "fill_drive std_sizes defs_example showSupportedSMART_IDs uid_194 0 ?E = Some D'" by blast
  then have D': "ReBuildUserInterface std_sizes defs_example [uid_194] ?D = Some D'"
    unfolding ReBuildUserInterface_def D(1) by simp
  have "wf_dialog std_sizes ?D" using D by (simp add: wf_dialog_def)
  moreover have "\<forall>x\<in>set (dl_panels ?D). uid_key std_sizes (fst x) \<noteq> uid_key std_sizes uid_194"
    using D(1) uid_other_key by simp
  ultimately show ?thesis
    using rebuilt_window_misses_drive [OF D', of uid_194 194 4 "''30''" 1] D D'
    by (intro exI [of _ ?D] exI [of _ D']) simp
qed

end
