(* ===== verification/BaseState.thy ===== *)
theory BaseState
  imports MonitorBase
begin

text \<open>
  \<open>SMARTmonitorBase.cpp\<close> and \<open>.hpp\<close>: the state every program of the repository
  begins with, the text that explains its options, its messages, its log file,
  the wait between two reads, and the reading of the drives into the arrays of
  the base class.

  The names of the log levels, the logger and the drives are arguments. A
  pointer that is null where the code follows it, and an index behind an array,
  give None.
\<close>

section \<open>Options\<close>

record CommandLineOption =
  optionName :: string
  possibleOptionValue :: "string option"

datatype programOptionNames = logFileFolder | serviceConnectionConfigFile | logLvlIdx

primrec option_idx :: "programOptionNames \<Rightarrow> nat" where
  "option_idx logFileFolder = 0" | "option_idx serviceConnectionConfigFile = 1" | "option_idx logLvlIdx = 2"

definition beyondLastProgramOptionName :: nat where "beyondLastProgramOptionName = 3"

definition s_commandLineOptions :: "CommandLineOption list" where
  "s_commandLineOptions =
     [\<lparr>optionName = ''logfilefolder'', possibleOptionValue =
        Some ''<absolute or relative log file FOLDER>, e.g. \"/run/\" for writing log files to tmpfs/RAM drive''\<rparr>,
      \<lparr>optionName = ''svcConnConfFile'', possibleOptionValue =
        Some ''<absolute or relative service config file FOLDER>, e.g. \"server.xml\"''\<rparr>,
      \<lparr>optionName = ''loglevel'', possibleOptionValue = None\<rparr>,
      \<lparr>optionName = [], possibleOptionValue = None\<rparr>]"

definition s_programOptionValues :: "string list" where
  "s_programOptionValues = [''.'', [], []]"

text \<open>The index is a number, and only one that is in the range sets the pointer that is followed.\<close>

definition GetProgramOptionValue :: "string list \<Rightarrow> nat \<Rightarrow> string option" where
  "GetProgramOptionValue vals i = (if i < beyondLastProgramOptionName then Some (vals ! i) else None)"

definition usage_head :: string where
  "usage_head = ''Usage (options) either:'' @ [CHR 0x0A]
     @ ''-pass 2 command line arguments for each option in this order:'' @ [CHR 0x0A]
     @ ''<command line option NAME> <command line option VALUE>'' @ [CHR 0x0A]
     @ ''-or as 1 command line argument:<command line option NAME>=<command line option VALUE>''
     @ [CHR 0x0A, CHR 0x0A] @ ''available options:'' @ [CHR 0x0A]"

definition usage_line :: "string \<Rightarrow> string \<Rightarrow> string" where
  "usage_line n v = ''-'' @ n @ '' '' @ v @ [CHR 0x0A]"

fun usage_options :: "CommandLineOption list \<Rightarrow> string option" where
  "usage_options [] = None"
| "usage_options (opt # opts) =
     (if optionName opt = [] then Some []
      else case possibleOptionValue opt of
             None \<Rightarrow> None
           | Some v \<Rightarrow> map_option (\<lambda>t. usage_line (optionName opt) v @ t) (usage_options opts))"

definition GetUsage :: "CommandLineOption list \<Rightarrow> string option" where
  "GetUsage opts = map_option (\<lambda>t. usage_head @ t) (usage_options opts)"

section \<open>Messages\<close>

datatype messageTypes = msg_success | msg_error | msg_warning | msg_info

primrec msg_int :: "messageTypes \<Rightarrow> int" where
  "msg_int msg_success = 0" | "msg_int msg_error = 1" | "msg_int msg_warning = 2" | "msg_int msg_info = 3"

datatype console = Stdout string | Stderr string

definition base_ShowMessage :: "string \<Rightarrow> console list \<Rightarrow> console list" where
  "base_ShowMessage msg out = out @ [Stdout (msg @ [CHR 0x0A])]"

definition base_ShowMessage_typed :: "string \<Rightarrow> messageTypes \<Rightarrow> console list \<Rightarrow> console list" where
  "base_ShowMessage_typed msg t out =
     (case t of
        msg_error \<Rightarrow> out @ [Stderr msg]
      | msg_warning \<Rightarrow> out @ [Stdout msg]
      | msg_info \<Rightarrow> out @ [Stdout msg]
      | msg_success \<Rightarrow> out @ [Stdout msg])"

definition OutputUsage :: "CommandLineOption list \<Rightarrow> console list \<Rightarrow> console list option" where
  "OutputUsage opts out = map_option (\<lambda>u. base_ShowMessage_typed u msg_info out) (GetUsage opts)"

section \<open>Construction\<close>

text \<open>
  The static members, which outlive the object, and the members of the object;
  \<open>getAllLogLevels\<close> changes the text it is given. The arrays of the arguments are
  None while their pointers are null; \<open>leaked\<close> counts the arrays nothing points
  to any more.
\<close>

record base_static =
  st_options :: "CommandLineOption list"
  st_optionValues :: "string list"
  st_allLogLevels :: string
  st_attrDefs :: SMARTattrDefAccss

record 'f base_obj =
  m_socketPortNumber :: nat
  m_cnnctTimeOutInSec :: nat
  m_asynCnnct :: bool
  m_getSMARTvaluesFn :: "'f option"
  m_cmdLineArgStrings :: "string list option"
  leaked :: nat

definition SMARTmonitorBase_new :: "(string \<Rightarrow> string) \<Rightarrow> bool \<Rightarrow> base_static \<Rightarrow> base_static \<times> 'f base_obj" where
  "SMARTmonitorBase_new getAllLogLevels crit st =
     (let levels = '', option value:1 of ['' @ getAllLogLevels (st_allLogLevels st) @ '']'';
          k = option_idx logLvlIdx
      in (st\<lparr>st_attrDefs := setDfltSMARTattrDef crit (st_attrDefs st),
            st_allLogLevels := levels,
            st_options := (st_options st)[k := (st_options st ! k)\<lparr>possibleOptionValue := Some levels\<rparr>]\<rparr>,
          \<lparr>m_socketPortNumber = 2000, m_cnnctTimeOutInSec = 30, m_asynCnnct = True,
           m_getSMARTvaluesFn = None, m_cmdLineArgStrings = None, leaked = 0\<rparr>))"

definition SetCommandLineArgs :: "string list \<Rightarrow> 'f base_obj \<Rightarrow> 'f base_obj" where
  "SetCommandLineArgs argv b =
     b\<lparr>m_cmdLineArgStrings := Some argv,
       leaked := leaked b + (if m_cmdLineArgStrings b = None then 0 else 2)\<rparr>"

text \<open>The arrays that are left when the object is destroyed.\<close>

definition SMARTmonitorBase_end :: "'f base_obj \<Rightarrow> nat" where
  "SMARTmonitorBase_end b = leaked b"

lemma arguments_freed:
  "SMARTmonitorBase_end (SetCommandLineArgs argv (snd (SMARTmonitorBase_new lv c st))) = 0"
  "SMARTmonitorBase_end (SetCommandLineArgs argv2 (SetCommandLineArgs argv
     (snd (SMARTmonitorBase_new lv c st)))) = 2"
  by (simp_all add: SMARTmonitorBase_end_def SetCommandLineArgs_def SMARTmonitorBase_new_def Let_def)

text \<open>
  The usage text of a program: one line for each option its command line
  accepts, in the order of the table, with the log levels filled in. Before the
  object is made the last line has no text to write.
\<close>

lemma usage_before_construction: "GetUsage s_commandLineOptions = None"
  by (simp add: GetUsage_def s_commandLineOptions_def)

lemma usage_text:
  assumes "st_options st = s_commandLineOptions" "(st', b) = SMARTmonitorBase_new lv c st"
  shows "\<exists>vals. length vals = length commandLineOptions
    \<and> GetUsage (st_options st') = Some (usage_head @ concat (map2 usage_line commandLineOptions vals))
    \<and> vals ! option_idx logLvlIdx = '', option value:1 of ['' @ lv (st_allLogLevels st) @ '']''"
proof -
  let ?lv = "'', option value:1 of ['' @ lv (st_allLogLevels st) @ '']''"
  let ?v = "map (\<lambda>k. the (possibleOptionValue (s_commandLineOptions ! k))) [0, 1] @ [?lv]"
  have "st_options st' = s_commandLineOptions[2 := (s_commandLineOptions ! 2)\<lparr>possibleOptionValue := Some ?lv\<rparr>]"
    using assms by (simp add: SMARTmonitorBase_new_def Let_def)
  then have "GetUsage (st_options st') = Some (usage_head @ concat (map2 usage_line commandLineOptions ?v))"
    by (simp add: GetUsage_def s_commandLineOptions_def commandLineOptions_def)
  then show ?thesis by (intro exI [of _ ?v]) (simp add: commandLineOptions_def)
qed

section \<open>The log file\<close>

record log_env =
  isDebugBuild :: bool
  openLogFile :: "string \<Rightarrow> string + bool"

record logger =
  lg_path :: string
  lg_level :: "string option"
  lg_console :: "console list"

text \<open>
  \<open>InitializeLogger\<close>: the path the command line left, empty when it named no
  folder. \<open>openLogFile\<close> answers the message of an exception or success; the
  message is shown twice.
\<close>

definition InitializeLogger :: "log_env \<Rightarrow> string \<Rightarrow> logger \<Rightarrow> bool \<times> logger" where
  "InitializeLogger le progPath g =
     (let path = (if lg_path g = [] then GetExeFileName progPath @ ''_log.txt''
                  else lg_path g @ ''_log.txt'');
          g1 = g\<lparr>lg_path := path, lg_level := (case lg_level g of
                   None \<Rightarrow> Some (if isDebugBuild le then ''debug'' else ''warning'') | Some l \<Rightarrow> Some l)\<rparr>
      in case openLogFile le path of
           Inr ok \<Rightarrow> (ok, g1)
         | Inl msg \<Rightarrow> (False, g1\<lparr>lg_console :=
             base_ShowMessage msg (base_ShowMessage msg (lg_console g1))\<rparr>))"

text \<open>The value of the last option for the folder of the log file that is not empty.\<close>

definition log_folder :: "(bool \<times> string \<times> string) list \<Rightarrow> string option" where
  "log_folder opts = fold (\<lambda>(one, n, v) r. if n = ''logfilefolder'' \<and> v \<noteq> [] then Some v else r) opts None"

lemma log_folder_not_empty: "log_folder opts \<noteq> Some []"
proof -
  have "r \<noteq> Some [] \<Longrightarrow>
      fold (\<lambda>(one, n, v) r. if n = ''logfilefolder'' \<and> v \<noteq> [] then Some v else r) opts r \<noteq> Some []" for r
  proof (induction opts arbitrary: r)
    case (Cons opt opts)
    show ?case unfolding fold_Cons o_apply by (rule Cons.IH) (use Cons.prems in \<open>auto split: prod.split\<close>)
  qed simp
  then show ?thesis by (simp add: log_folder_def)
qed

definition with_slash :: "string \<Rightarrow> string" where
  "with_slash v = (if last v = CHR ''/'' then v else v @ ''/'')"

lemma cmd_option_logFilePath:
  assumes "n \<in> set commandLineOptions"
  shows "logFilePath (cmd_option ce exe n v s) =
    (if n = ''logfilefolder'' \<and> v \<noteq> [] then with_slash v @ GetExeFileName exe else logFilePath s)"
  using assms
  by (auto simp: cmd_option_def HandleLogFileFolderProgramOption_def with_slash_def commandLineOptions_def)

lemma options_logFilePath:
  assumes "\<forall>(one, n, v)\<in>set opts. n \<in> set commandLineOptions"
    and "logFilePath s = (case r of None \<Rightarrow> [] | Some v \<Rightarrow> with_slash v @ GetExeFileName exe)"
  shows "logFilePath (fold (\<lambda>(one, n, v). cmd_option ce exe n v) opts s) =
    (case fold (\<lambda>(one, n, v) r. if n = ''logfilefolder'' \<and> v \<noteq> [] then Some v else r) opts r of
       None \<Rightarrow> [] | Some v \<Rightarrow> with_slash v @ GetExeFileName exe)"
  using assms
proof (induction opts arbitrary: s r)
  case (Cons opt opts)
  obtain one n v where o: "opt = (one, n, v)" by (cases opt) auto
  have n: "n \<in> set commandLineOptions" using Cons.prems(1) by (simp add: o)
  let ?r = "if n = ''logfilefolder'' \<and> v \<noteq> [] then Some v else r"
  have "logFilePath (cmd_option ce exe n v s)
      = (case ?r of None \<Rightarrow> [] | Some v \<Rightarrow> with_slash v @ GetExeFileName exe)"
    unfolding cmd_option_logFilePath [OF n] using Cons.prems(2) by simp
  then show ?case using Cons.IH [of "cmd_option ce exe n v s" ?r] Cons.prems(1) by (simp add: o)
qed simp

text \<open>
  C26: The command line decides the log file: after a command line of known
  options, written in any mixture of the two forms, the logger opens the file
  named after the program with \<open>_log.txt\<close>, in the folder of the last option
  that names one, whether it is written with a slash at its end or without, and
  else in the working directory. The log level is the one that was set before,
  otherwise that of the kind of build.
\<close>

theorem log_file_of_command_line:
  assumes "\<forall>(one, n, v)\<in>set opts. n \<in> set commandLineOptions" "opts \<noteq> []" "logFilePath s = []"
    and "lg_path g = logFilePath (ProcessCommandLineArgs ce (exe # concat (map render_option opts)) s)"
    and "openLogFile le = (\<lambda>p. Inr (writable p))"
  shows "let path = (case log_folder opts of None \<Rightarrow> [] | Some v \<Rightarrow> with_slash v)
              @ GetExeFileName exe @ ''_log.txt''
    in InitializeLogger le exe g = (writable path, g\<lparr>lg_path := path, lg_level := (case lg_level g of
         None \<Rightarrow> Some (if isDebugBuild le then ''debug'' else ''warning'') | Some l \<Rightarrow> Some l)\<rparr>)"
proof -
  let ?s0 = "s\<lparr>cmd_showUsage := False, cmd_ret := sccssfllyParsedAllCmdLneArgs\<rparr>"
  have "concat (map render_option opts) \<noteq> []"
    using assms(2) by (cases opts) (auto simp: render_option_def split: prod.splits if_splits)
  then have "ProcessCommandLineArgs ce (exe # concat (map render_option opts)) s
      = fold (\<lambda>(one, n, v). cmd_option ce exe n v) opts ?s0"
    using cmd_loop_options [OF assms(1), of "[exe]" ce] by (simp add: ProcessCommandLineArgs_def)
  then have p: "lg_path g = (case log_folder opts of None \<Rightarrow> [] | Some v \<Rightarrow> with_slash v @ GetExeFileName exe)"
    using options_logFilePath [OF assms(1), where s = ?s0 and r = None and exe = exe and ce = ce] assms(3,4) by (simp add: log_folder_def)
  note log_folder_not_empty [of opts]
  then show ?thesis
    using p assms(5) by (cases "log_folder opts") (auto simp: InitializeLogger_def Let_def with_slash_def)
qed

theorem log_file_of_command_line_witness:
  "InitializeLogger \<lparr>isDebugBuild = False, openLogFile = (\<lambda>p. Inr (p = ''/run/smart_log.txt''))\<rparr> ''/bin/smart''
     \<lparr>lg_path = logFilePath (ProcessCommandLineArgs \<lparr>argOut = [], validLogLevel = (\<lambda>_. True)\<rparr>
        [''/bin/smart'', ''logfilefolder'', ''/tmp'', ''logfilefolder=/run'']
        (cmd_example\<lparr>cmd_ret := calledHelp\<rparr>)), lg_level = None, lg_console = []\<rparr>
   = (True, \<lparr>lg_path = ''/run/smart_log.txt'', lg_level = Some ''warning'', lg_console = []\<rparr>)"
proof -
  let ?le = "\<lparr>isDebugBuild = False, openLogFile = (\<lambda>p. Inr (p = ''/run/smart_log.txt''))\<rparr>"
  let ?opts = "[(False, ''logfilefolder'', ''/tmp''), (True, ''logfilefolder'', ''/run'')]"
  have e: "GetExeFileName ''/bin/smart'' = ''smart''" by (simp add: GetExeFileName_def)
  show ?thesis
    using log_file_of_command_line [of ?opts "cmd_example\<lparr>cmd_ret := calledHelp\<rparr>" _
        "\<lparr>argOut = [], validLogLevel = (\<lambda>_. True)\<rparr>" "''/bin/smart''" ?le "\<lambda>p. p = ''/run/smart_log.txt''"]
    by (simp add: commandLineOptions_def render_option_def log_folder_def with_slash_def e cmd_example_def Let_def)
qed

section \<open>Waiting\<close>

text \<open>
  \<open>WaitForTimeout\<close>: whole seconds as long as the flag is set, which is read
  before each of them (the list), then the rest of the interval.
\<close>

fun wait_seconds :: "nat \<Rightarrow> bool list \<Rightarrow> nat" where
  "wait_seconds 0 flags = 0"
| "wait_seconds (Suc n) (f # fs) = (if f then 1 + wait_seconds n fs else 0)"
| "wait_seconds (Suc n) [] = 0"

definition wait_ms :: "nat \<Rightarrow> bool list \<Rightarrow> nat" where
  "wait_ms interval flags = 1000 * wait_seconds (interval div 1000) flags + interval mod 1000"

lemma wait_seconds_le: "wait_seconds n flags \<le> n"
  by (induction n flags rule: wait_seconds.induct) auto

lemma wait_ms_le: "wait_ms interval flags \<le> interval"
proof -
  have "1000 * (interval div 1000) + interval mod 1000 = interval" by simp
  then show ?thesis using wait_seconds_le [of "interval div 1000" flags] unfolding wait_ms_def by linarith
qed

lemma wait_ends_soon: "\<not> f \<Longrightarrow> wait_ms interval (replicate k True @ f # fs) \<le> 1000 * k + interval mod 1000"
proof -
  assume "\<not> f"
  have "wait_seconds n (replicate k True @ f # fs) \<le> k" for n
    using \<open>\<not> f\<close> by (induction k arbitrary: n; case_tac n) auto
  then show ?thesis by (simp add: wait_ms_def)
qed

section \<open>Reading the drives directly\<close>

text \<open>
  \<open>Upd8SMARTvalsDrctlyThreadSafe\<close>: the arrays of the raw values and of the times
  of the last read have 255 elements; the raw value is written where the check
  of its consistency leaves it. Every drive begins with line 0 again.
\<close>

record upd8_arrays =
  ar_raw :: "64 word list"
  ar_tick :: "nat list"

definition numLines :: nat where "numLines = 255"

fun upd8_lines :: "'u::len itself \<Rightarrow> nat \<Rightarrow> (attr_id \<Rightarrow> 'l::len word SMARTattr) \<Rightarrow> attr_id list \<Rightarrow> nat
    \<Rightarrow> upd8_arrays \<Rightarrow> upd8_arrays option" where
  "upd8_lines T now as [] line A = Some A"
| "upd8_lines T now as (i # is) line A =
     (if line < numLines then
        (case IsConsistent T (as i) of (consistent, raw) \<Rightarrow>
           let A1 = A\<lparr>ar_raw := (ar_raw A)[line := raw]\<rparr>
           in if consistent
              then upd8_lines T now as is (line + 1) (A1\<lparr>ar_tick := (ar_tick A1)[line := now]\<rparr>)
              else upd8_lines T now as is line A1)
      else None)"

fun upd8_drives_direct :: "'u::len itself \<Rightarrow> nat \<Rightarrow> 'l::len word SMARTuniqueIDandValues list \<Rightarrow> attr_id list
    \<Rightarrow> upd8_arrays \<Rightarrow> upd8_arrays option" where
  "upd8_drives_direct T now [] ids A = Some A"
| "upd8_drives_direct T now (d # ds) ids A =
     (case upd8_lines T now (m_SMARTattrs d) ids 0 A of
        None \<Rightarrow> None
      | Some A1 \<Rightarrow> upd8_drives_direct T now ds ids A1)"

text \<open>
  The result of the read, 0 for success, and the drives it left; the time of
  the last update is set when the read succeeded.
\<close>

definition Upd8SMARTvalsDrctlyThreadSafe :: "'u::len itself \<Rightarrow> nat \<times> nat
    \<Rightarrow> int \<times> 'l::len word SMARTuniqueIDandValues list \<Rightarrow> attr_id set \<Rightarrow> nat option \<times> upd8_arrays
    \<Rightarrow> (int \<times> nat option \<times> upd8_arrays) option" where
  "Upd8SMARTvalsDrctlyThreadSafe T clock rd ids st =
     (if fst rd = 0 then
        (case upd8_drives_direct T (fst clock) (snd rd) (sorted_list_of_set ids) (snd st) of
           None \<Rightarrow> None
         | Some A \<Rightarrow> Some (fst rd, Some (snd clock), A))
      else Some (fst rd, st))"

lemma upd8_lines_bounded:
  "line + length is \<le> numLines \<Longrightarrow> \<exists>A'. upd8_lines T now as is line A = Some A'"
  by (induction "is" arbitrary: line A) (auto split: prod.split simp: Let_def)

lemma upd8_drives_bounded:
  "length ids \<le> numLines \<Longrightarrow> \<exists>A'. upd8_drives_direct T now ds ids A = Some A'"
proof (induction ds arbitrary: A)
  case (Cons d ds)
  then obtain A1 where "upd8_lines T now (m_SMARTattrs d) ids 0 A = Some A1"
    using upd8_lines_bounded [of 0 ids T now "m_SMARTattrs d" A] by auto
  then show ?case using Cons by simp
qed simp

lemma direct_update_in_bounds:
  assumes "finite ids" "card ids \<le> 255"
  shows "\<exists>A'. Upd8SMARTvalsDrctlyThreadSafe T clock (0, ds) ids (t, A) = Some (0, Some (snd clock), A')"
  using upd8_drives_bounded [of "sorted_list_of_set ids" T "fst clock" ds A] assms
  by (auto simp: Upd8SMARTvalsDrctlyThreadSafe_def numLines_def)

text \<open>With all 256 numbers observed and consistent the last one is behind the arrays.\<close>

lemma upd8_lines_overrun:
  "\<lbrakk>\<forall>i\<in>set is. fst (IsConsistent T (as i)); line \<le> numLines; numLines < line + length is\<rbrakk>
    \<Longrightarrow> upd8_lines T now as is line A = None"
  by (induction "is" arbitrary: line A) (auto split: prod.split simp: Let_def numLines_def)

lemma direct_update_overrun:
  assumes "\<forall>i<256. fst (IsConsistent T (m_SMARTattrs d i))"
  shows "Upd8SMARTvalsDrctlyThreadSafe T clock (0, d # ds) {..<256} st = None"
proof -
  have s: "set (sorted_list_of_set {..<256::nat}) = {..<256}" "length (sorted_list_of_set {..<256::nat}) = 256"
    by simp_all
  have "upd8_lines T (fst clock) (m_SMARTattrs d) (sorted_list_of_set {..<256}) 0 (snd st) = None"
    by (rule upd8_lines_overrun) (use assms s in \<open>simp_all add: numLines_def\<close>)
  then show ?thesis by (simp add: Upd8SMARTvalsDrctlyThreadSafe_def)
qed

end
