(* ===== verification/WxApp.thy ===== *)
theory WxApp
  imports WxDialog BaseState
begin

text \<open>
  \<open>wxWidgets/wxSMARTmonitorApp.cpp\<close> and the texts and titles of
  \<open>wxSMARTmonitorDialog.cpp\<close>: messages, actions, icons and the state of the
  connection, and the events by which other threads ask the thread of the user
  interface for them.

  The queue of posted events is a list; the event loop takes the first. The
  clock, the name of the application and the handler \<open>OnChangeState\<close>, which is
  declared but not part of the repository, are parameters.
\<close>

section \<open>Messages\<close>

definition ShowText :: "string \<Rightarrow> string \<Rightarrow> dialog \<Rightarrow> dialog" where
  "ShowText now text D = D\<lparr>dl_msg := now @ '' '' @ text\<rparr>"

definition dlg_ShowMessage :: "string \<Rightarrow> string \<Rightarrow> int \<Rightarrow> dialog \<Rightarrow> dialog" where
  "dlg_ShowMessage now text msgType D =
     D\<lparr>dl_msgColour := (if msgType = msg_int msg_error then (255, 0, 0)
         else if msgType = msg_int msg_warning then (255, 255, 0)
         else if msgType = msg_int msg_success then (0, 255, 0)
         else (255, 255, 255)),
       dl_msg := now @ '' '' @ text\<rparr>"

fun action_text :: "CurrentAction \<Rightarrow> string" where
  "action_text cnnctToSrv = ''blocking connecting to server''"
| "action_text nonBlckCnnctToSrv = ''NON-blocking connecting to server''"
| "action_text readNumBytesForSuppSMART_IDs = ''reading number of bytes for supported S.M.A.R.T. IDs''"
| "action_text readNumBytesForSMARTdata = ''reading number of bytes for S.M.A.R.T. data''"
| "action_text readSuppSMART_IDsXMLdata = ''reading supported S.M.A.R.T. IDs data''"
| "action_text readSMARTvaluesXMLdata = ''reading S.M.A.R.T. data''"
| "action_text hasReadSMARTvaluesXMLdata = ''finished reading S.M.A.R.T. data''"
| "action_text WaitForSMARTupd8ThreadTerm = ''waiting for S.M.A.R.T. data update thread termination''"
| "action_text AfterWaitForSMARTupd8ThreadTerm =
     ''finished waiting for S.M.A.R.T. data update thread termination''"

definition ShowCurrentAction :: "string \<Rightarrow> CurrentAction \<Rightarrow> dialog \<Rightarrow> dialog" where
  "ShowCurrentAction now a = dlg_ShowMessage now (action_text a) (msg_int msg_info)"

text \<open>An action travels through an event as the number of its enumerator.\<close>

definition CurrentActions :: "CurrentAction list" where
  "CurrentActions = [cnnctToSrv, nonBlckCnnctToSrv, readNumBytesForSuppSMART_IDs,
     readSuppSMART_IDsXMLdata, readNumBytesForSMARTdata, readSMARTvaluesXMLdata,
     hasReadSMARTvaluesXMLdata, WaitForSMARTupd8ThreadTerm, AfterWaitForSMARTupd8ThreadTerm]"

definition action_int :: "CurrentAction \<Rightarrow> int" where
  "action_int a = int (length (takeWhile (\<lambda>b. b \<noteq> a) CurrentActions))"

definition action_of_int :: "int \<Rightarrow> CurrentAction" where
  "action_of_int i = CurrentActions ! nat i"

lemma action_of_int_int [simp]: "action_of_int (action_int a) = a"
  by (cases a) (simp_all add: action_of_int_def action_int_def CurrentActions_def)

section \<open>The application\<close>

datatype wx_event =
    ShowMessageEvent string int
  | ShowCurrentActionEvent int
  | ChangeStateEvent serverConnectionState
  | SetSMARTattrEvent SMARTuniqueID attr_id nat string rat
  | ReBuildUIevent
  | UpdateSMARTvaluesEvent

record 'lw app =
  ap_dialog :: dialog
  ap_queue :: "wx_event list"
  ap_state :: serverConnectionState
  ap_client :: "'lw client"
  ap_hasTray :: bool
  ap_tray :: "(icon \<times> string) option"
  ap_boxes :: "string list"
  ap_getValsThreadID :: nat

record wx_env =
  en_h :: hw_sizes
  en_defs :: SMARTattrDefAccss
  en_now :: string
  en_appName :: string
  en_direct :: bool
  en_host :: string
  en_port :: nat
  en_interval :: nat
  en_lastUpdate :: string
  en_setIcon :: bool
  en_client :: client_env
  en_model0 :: ModelAndFirmware

definition upd_dialog :: "(dialog \<Rightarrow> dialog) \<Rightarrow> 'lw app \<Rightarrow> 'lw app" where
  "upd_dialog f A = A\<lparr>ap_dialog := f (ap_dialog A)\<rparr>"

definition wxPostEvent :: "wx_event \<Rightarrow> 'lw app \<Rightarrow> 'lw app" where
  "wxPostEvent e A = A\<lparr>ap_queue := ap_queue A @ [e]\<rparr>"

text \<open>
  The two functions that show a message, and the one for the current action;
  \<open>ui\<close> says whether the caller is the thread of the user interface.
\<close>

definition ShowMessage :: "bool \<Rightarrow> wx_env \<Rightarrow> string \<Rightarrow> messageTypes \<Rightarrow> 'lw app \<Rightarrow> 'lw app" where
  "ShowMessage ui E text t =
     (if ui then upd_dialog (dlg_ShowMessage (en_now E) text (msg_int t))
      else wxPostEvent (ShowMessageEvent text (msg_int t)))"

definition ShowMessage_untyped :: "bool \<Rightarrow> wx_env \<Rightarrow> string \<Rightarrow> 'lw app \<Rightarrow> 'lw app" where
  "ShowMessage_untyped ui E text =
     (if ui then upd_dialog (ShowText (en_now E) text) else wxPostEvent (ShowMessageEvent text (- 1)))"

definition wx_SetCurrentAction :: "bool \<Rightarrow> wx_env \<Rightarrow> CurrentAction \<Rightarrow> 'lw app \<Rightarrow> 'lw app" where
  "wx_SetCurrentAction ui E a =
     (if ui then upd_dialog (ShowCurrentAction (en_now E) a)
      else wxPostEvent (ShowCurrentActionEvent (action_int a)))"

definition OnShowMessage :: "wx_env \<Rightarrow> string \<Rightarrow> int \<Rightarrow> 'lw app \<Rightarrow> 'lw app" where
  "OnShowMessage E text i = upd_dialog (dlg_ShowMessage (en_now E) text i)"

definition OnShowCurrentAction :: "wx_env \<Rightarrow> int \<Rightarrow> 'lw app \<Rightarrow> 'lw app" where
  "OnShowCurrentAction E i = upd_dialog (ShowCurrentAction (en_now E) (action_of_int i))"

section \<open>Icons and states\<close>

definition ShowIcon :: "wx_env \<Rightarrow> icon \<Rightarrow> string \<Rightarrow> 'lw app \<Rightarrow> 'lw app" where
  "ShowIcon E i message A =
     (let tooltip = (if en_direct E then ''data via direct (local) SMART access:'' @ [CHR 0x0A] @ message
            else ''for '' @ en_host E @ '', port '' @ dec (en_port E) @ '':'' @ [CHR 0x0A] @ message);
          A1 = (if ap_hasTray A then
                  (if en_setIcon E then A\<lparr>ap_tray := Some (i, tooltip)\<rparr>
                   else A\<lparr>ap_boxes := ap_boxes A @ [''Could not set new taskbar icon.'']\<rparr>)
                else A)
      in upd_dialog (\<lambda>D. D\<lparr>dl_icon := Some i\<rparr>) A1)"

definition ShowSMARTokIcon :: "wx_env \<Rightarrow> 'lw app \<Rightarrow> 'lw app" where
  "ShowSMARTokIcon E = ShowIcon E SMARTokIcon
     ''values for (all) processed (critical) S.M.A.R.T. parameters are in a safe range''"

definition ShowSMARTstatusUnknownIcon :: "wx_env \<Rightarrow> 'lw app \<Rightarrow> 'lw app" where
  "ShowSMARTstatusUnknownIcon E = ShowIcon E SMARTstatusUnknownIcon ''unknown (current) S.M.A.R.T. status''"

definition ShowSMARTwarningIcon :: "wx_env \<Rightarrow> 'lw app \<Rightarrow> 'lw app" where
  "ShowSMARTwarningIcon E = ShowIcon E SMARTwarningIcon
     ''value for at least 1 processed (critical) S.M.A.R.T. parameter is not in a safe range''"

definition wx_ShowState :: "wx_env \<Rightarrow> rslt \<Rightarrow> 'lw app \<Rightarrow> 'lw app" where
  "wx_ShowState E r A =
     (case r of AtLeast1Warn \<Rightarrow> ShowSMARTwarningIcon E A | OK \<Rightarrow> ShowSMARTokIcon E A | _ \<Rightarrow> A)"

definition GetTitleInclDataSrc :: "wx_env \<Rightarrow> string" where
  "GetTitleInclDataSrc E =
     (if en_direct E then ''wxSMARTmonitor--direct S.M.A.R.T. data''
      else ''wxSMARTmonitor--data from '' @ en_host E @ '':'' @ dec (en_port E))
     @ '' in ca. '' @ dec (en_interval E) @ '' ms interval''"

definition SetState :: "wx_env \<Rightarrow> serverConnectionState \<Rightarrow> 'lw app \<Rightarrow> 'lw app" where
  "SetState E n A =
     (let title = (\<lambda>t. upd_dialog (\<lambda>D. D\<lparr>dl_title := t\<rparr>)); last = en_appName E @ ''--last update at '' @ en_lastUpdate E;
          unknown = (\<lambda>t A. ShowSMARTstatusUnknownIcon E
            (let A1 = title t (A\<lparr>ap_getValsThreadID := 0\<rparr>) in
             A1\<lparr>ap_client := (ap_client A1)\<lparr>entireSMARTstatus := Unknown\<rparr>\<rparr>))
      in case n of
           valUpd8 \<Rightarrow> title (GetTitleInclDataSrc E @ ''--last update:'' @ en_now E) A
         | cnnctdToSrv \<Rightarrow> title (GetTitleInclDataSrc E) A
         | uncnnctdToSrv \<Rightarrow>
             unknown (last @ '' from '' @ en_host E @ '':'' @ dec (en_port E) @ ''--unconnected'') A
         | endedDrctSMART \<Rightarrow> unknown (last @ '' via direct S.M.A.R.T.(ended)'') A
         | _ \<Rightarrow> A)"

definition wx_ChangeConnectionState :: "bool \<Rightarrow> wx_env \<Rightarrow> serverConnectionState \<Rightarrow> 'lw app \<Rightarrow> 'lw app" where
  "wx_ChangeConnectionState ui E n A =
     (if ui then (SetState E n A)\<lparr>ap_state := n\<rparr> else wxPostEvent (ChangeStateEvent n) A)"

definition wx_SetAttribute :: "bool \<Rightarrow> wx_env \<Rightarrow> SMARTuniqueID \<Rightarrow> attr_id \<Rightarrow> nat \<Rightarrow> string \<Rightarrow> rat
    \<Rightarrow> 'lw app \<Rightarrow> 'lw app option" where
  "wx_SetAttribute ui E u i col v r A =
     (if ui then map_option (\<lambda>D. A\<lparr>ap_dialog := D\<rparr>) (SetAttribute_UI (en_h E) u i col v r (ap_dialog A))
      else Some (wxPostEvent (SetSMARTattrEvent u i col v r) A))"

definition BeforeWait_wx :: "'lw app \<Rightarrow> 'lw app" where
  "BeforeWait_wx = wxPostEvent UpdateSMARTvaluesEvent"

text \<open>
  The calls the client makes while it shows the values, in the thread of the
  user interface. A cell whose column was never assigned has no defined effect.
\<close>

definition app_call :: "wx_env \<Rightarrow> ui_call \<Rightarrow> 'lw app \<Rightarrow> 'lw app option" where
  "app_call E c A =
     (case c of
        SetAttribute u i col v r \<Rightarrow> Option.bind col (\<lambda>q. wx_SetAttribute True E u i q v r A)
      | ChangeConnectionState n \<Rightarrow> Some (wx_ChangeConnectionState True E n A)
      | ShowStateAccordingToSMARTvalues r \<Rightarrow> Some (wx_ShowState E r A)
      | SetCurrentAction a \<Rightarrow> Some (wx_SetCurrentAction True E a A))"

fun app_calls :: "wx_env \<Rightarrow> ui_call list \<Rightarrow> 'lw app \<Rightarrow> 'lw app option" where
  "app_calls E [] A = Some A"
| "app_calls E (c # cs) A = Option.bind (app_call E c A) (app_calls E cs)"

definition wx_UpdateSMARTvaluesUI :: "'u::len itself \<Rightarrow> wx_env \<Rightarrow> 'l::len word app \<Rightarrow> 'l word app option" where
  "wx_UpdateSMARTvaluesUI T E A = do {
     (c', calls) \<leftarrow> UpdateSMARTvaluesUI T (en_client E) (en_model0 E) (ap_client A);
     app_calls E calls (A\<lparr>ap_client := c'\<rparr>) }"

definition wx_ReBuildUserInterface :: "bool \<Rightarrow> wx_env \<Rightarrow> 'lw app \<Rightarrow> 'lw app option" where
  "wx_ReBuildUserInterface ui E A =
     (if ui then map_option (\<lambda>D. A\<lparr>ap_dialog := D\<rparr>)
        (ReBuildUserInterface (en_h E) (en_defs E)
           (map m_SMARTuniqueID (SMARTuniqueIDsAndValues (ap_client A))) (ap_dialog A))
      else Some (wxPostEvent ReBuildUIevent A))"

section \<open>The event loop\<close>

text \<open>
  The event tables: a \<open>SetSMARTattrEvent\<close> is made without an event type and no
  entry of the tables is for it, so it is dropped.
\<close>

definition dispatch :: "'u::len itself \<Rightarrow> wx_env \<Rightarrow> (serverConnectionState \<Rightarrow> 'l word app \<Rightarrow> 'l::len word app)
    \<Rightarrow> wx_event \<Rightarrow> 'l word app \<Rightarrow> 'l word app option" where
  "dispatch T E onChangeState e A =
     (case e of
        ShowMessageEvent text i \<Rightarrow> Some (OnShowMessage E text i A)
      | ShowCurrentActionEvent i \<Rightarrow> Some (OnShowCurrentAction E i A)
      | ChangeStateEvent n \<Rightarrow> Some (onChangeState n A)
      | SetSMARTattrEvent u i col v r \<Rightarrow> Some A
      | ReBuildUIevent \<Rightarrow> wx_ReBuildUserInterface True E A
      | UpdateSMARTvaluesEvent \<Rightarrow> wx_UpdateSMARTvaluesUI T E A)"

text \<open>
  The clock goes on while the events are handled: \<open>now k\<close> is the text \<open>wxNow\<close>
  gives while event \<open>k\<close> is handled. An event is handled at one moment.
\<close>

fun dispatch_all :: "'u::len itself \<Rightarrow> wx_env \<Rightarrow> (nat \<Rightarrow> string) \<Rightarrow> nat
    \<Rightarrow> (serverConnectionState \<Rightarrow> 'l word app \<Rightarrow> 'l::len word app)
    \<Rightarrow> wx_event list \<Rightarrow> 'l word app \<Rightarrow> 'l word app option" where
  "dispatch_all T E now k oc [] A = Some A"
| "dispatch_all T E now k oc (e # es) A =
     Option.bind (dispatch T (E\<lparr>en_now := now k\<rparr>) oc e A) (dispatch_all T E now (Suc k) oc es)"

text \<open>The loop takes the events that are in the queue when it is run.\<close>

definition event_loop :: "'u::len itself \<Rightarrow> wx_env \<Rightarrow> (nat \<Rightarrow> string)
    \<Rightarrow> (serverConnectionState \<Rightarrow> 'l word app \<Rightarrow> 'l::len word app)
    \<Rightarrow> 'l word app \<Rightarrow> 'l word app option" where
  "event_loop T E now oc A = dispatch_all T E now 0 oc (ap_queue A) (A\<lparr>ap_queue := []\<rparr>)"

section \<open>Controls\<close>

definition dlg_setUI :: "serverConnectionState \<Rightarrow> dialog \<Rightarrow> dialog" where
  "dlg_setUI n D =
     (if n = cnnctdToSrv then EnableShowSupportedSMART_IDs
        (D\<lparr>dl_connectLabel := ''Disconnect'', dl_connectEnabled := True\<rparr>) else D)"

text \<open>
  The controls for a state. The dialog to connect exists or not; its button is
  \<open>btn\<close>. \<open>UnCnnctdToSrvUIctrls\<close> is declared but not part of the repository.
\<close>

definition setUI :: "(dialog \<Rightarrow> dialog) \<Rightarrow> serverConnectionState \<Rightarrow> bool option \<times> dialog \<Rightarrow> bool option \<times> dialog" where
  "setUI UnCnnctdToSrvUIctrls n = (\<lambda>(btn, D).
     case n of
       cnnctdToSrv \<Rightarrow> (btn, dlg_setUI n D)
     | connectToSrv \<Rightarrow> (btn, D\<lparr>dl_connectEnabled := False\<rparr>)
     | uncnnctdToSrv \<Rightarrow> (case btn of Some _ \<Rightarrow> (Some True, D) | None \<Rightarrow> (None, UnCnnctdToSrvUIctrls D))
     | drctSMARTaccss \<Rightarrow> (btn, D\<lparr>dl_directLabel := ''End Direct S.M.A.R.T.''\<rparr>)
     | endedDrctSMART \<Rightarrow> (btn, D\<lparr>dl_directLabel := ''Direct S.M.A.R.T.''\<rparr>)
     | _ \<Rightarrow> (btn, D))"

text \<open>The button for a drive's supported attributes, by the window ID of the event.\<close>

definition OnShowSupportedSMART_IDs :: "nat \<Rightarrow> dialog \<Rightarrow> SMARTuniqueID option \<times> string list" where
  "OnShowSupportedSMART_IDs windowID D =
     (case dl_evtID D windowID of
        Some u \<Rightarrow> (Some u, [])
      | None \<Rightarrow> (None, [''no data available (maybe not connected to server yet) '']))"

datatype direct_call =
    EndUpdateUIthread
  | EnsureSMARTattrToObsExist_call
  | ReBuildUserInterface_call
  | StartAsyncUpdateThread_call
  | SetGetDirectSMARTvals_call
  | MessageBox_call string
  | NoDrctSMARTaccessUIctrls_call

definition StartAsyncDrctUpd8Thread :: "nat \<Rightarrow> direct_call list" where
  "StartAsyncDrctUpd8Thread numAttrs =
     (if 0 < numAttrs then [StartAsyncUpdateThread_call, SetGetDirectSMARTvals_call]
      else [MessageBox_call ''no S.M.A.R.T. attributes to observe defined''])"

definition OnDrctSMARTaccss :: "bool \<Rightarrow> nat \<Rightarrow> direct_call list" where
  "OnDrctSMARTaccss running numAttrs =
     (if running then [EndUpdateUIthread, NoDrctSMARTaccessUIctrls_call]
      else [EnsureSMARTattrToObsExist_call, ReBuildUserInterface_call] @ StartAsyncDrctUpd8Thread numAttrs)"

definition SetGetDirectSMARTvals :: "wx_env \<Rightarrow> 'lw app \<Rightarrow> 'lw app" where
  "SetGetDirectSMARTvals E = upd_dialog (\<lambda>D. snd (setUI id drctSMARTaccss
     (None, D\<lparr>dl_title := en_appName E @ ''-direct S.M.A.R.T. values in '' @ dec (en_interval E)
        @ '' ms interval''\<rparr>)))"

section \<open>Icon files\<close>

text \<open>The path of an icon below a directory; \<open>sep\<close> separates directories.\<close>

definition createIconFilePath :: "char \<Rightarrow> string \<Rightarrow> string \<Rightarrow> string" where
  "createIconFilePath sep dir name =
     (if dir \<noteq> [] \<and> last dir \<noteq> sep then dir @ [sep] else dir) @ ''icons'' @ [sep] @ name"

text \<open>
  Whether an icon was loaded, the files tried, the message box and whether the
  built-in icon is used. The directory of the program is its path up to the last
  separator.
\<close>

definition exe_dir :: "char \<Rightarrow> string \<Rightarrow> string" where
  "exe_dir sep path = rev (dropWhile (\<lambda>c. c \<noteq> sep) (rev path))"

definition GetIcon :: "char \<Rightarrow> (string \<Rightarrow> bool) \<Rightarrow> string \<Rightarrow> string \<Rightarrow> string
    \<Rightarrow> bool \<times> string list \<times> string list" where
  "GetIcon sep loads resDir progPath name =
     (let file = name @ ''xpm''; p1 = createIconFilePath sep resDir file in
      if loads p1 then (True, [p1], [])
      else (let p2 = createIconFilePath sep (exe_dir sep progPath) file in
        if loads p2 then (True, [p1, p2], [])
        else (False, [p1, p2], [''Loading icon file(s)'' @ [CHR 0x0A] @ ''-\"'' @ p1 @ ''\"'' @ [CHR 0x0A]
               @ ''-\"'' @ p2 @ ''\"'' @ [CHR 0x0A] @ '' failed''])))"

section \<open>Start\<close>

text \<open>
  \<open>OnInit\<close>: what it returns and the steps it takes after the window is shown
  and the icons are loaded. The results of the steps that belong to other
  components are arguments: the command line, the logger, the initialisation
  (None is an exception for a file), the path of the configuration of the
  service, the error of reading it.
\<close>

datatype init_step =
    InitMessage string
  | InitUnknownIcon
  | PostConnectEvent
  | InitDirect "direct_call list"
  | DisableDirect string
  | InitFileBox

record init_results =
  ir_cmdLine :: cmdLineRtrn
  ir_logger :: bool
  ir_init :: "InitSMARTretCode option"
  ir_servicePath :: string
  ir_readError :: string
  ir_directBuilt :: bool
  ir_numAttrs :: nat

definition OnInit :: "init_results \<Rightarrow> bool \<times> init_step list" where
  "OnInit R =
     (if ir_cmdLine R = calledHelp then (False, [])
      else if \<not> ir_logger R then (False, [])
      else (case ir_init R of
          None \<Rightarrow> (False, [InitFileBox])
        | Some rc \<Rightarrow>
            if rc = readingConfigFileFailed then (True, [])
            else
              (let direct = (ir_servicePath R = [] \<and> ir_directBuilt R \<and> rc = init_success)
               in (True,
                 (if ir_readError R \<noteq> [] then [InitMessage (ir_readError R)] else [])
                 @ [InitUnknownIcon]
                 @ (if ir_servicePath R \<noteq> [] then [PostConnectEvent]
                    else if direct then [InitDirect ([EnsureSMARTattrToObsExist_call, ReBuildUserInterface_call]
                           @ StartAsyncDrctUpd8Thread (ir_numAttrs R))]
                    else [])
                 @ (if direct then []
                    else if rc = accessToSMARTdenied then
                      [DisableDirect (''direct (without client/server)'' @ [CHR 0x0A]
                        @ ''access to S.M.A.R.T. denied'' @ [CHR 0x0A]
                        @ ''(maybe due to insufficient rights'' @ [CHR 0x0A]
                        @ ''--start as administrator to enable)'')]
                    else [DisableDirect ''no built-in direct SMART access''])))))"

section \<open>Properties\<close>

datatype request = ReqMessage string messageTypes | ReqAction CurrentAction

primrec req_do :: "bool \<Rightarrow> wx_env \<Rightarrow> request \<Rightarrow> 'lw app \<Rightarrow> 'lw app" where
  "req_do ui E (ReqMessage text t) = ShowMessage ui E text t"
| "req_do ui E (ReqAction a) = wx_SetCurrentAction ui E a"

text \<open>The requests of a list one after the other, request \<open>k\<close> of all at the time \<open>now k\<close>.\<close>

fun reqs_do :: "bool \<Rightarrow> wx_env \<Rightarrow> (nat \<Rightarrow> string) \<Rightarrow> nat \<Rightarrow> request list \<Rightarrow> 'lw app \<Rightarrow> 'lw app" where
  "reqs_do ui E now k [] A = A"
| "reqs_do ui E now k (r # rs) A = reqs_do ui E now (Suc k) rs (req_do ui (E\<lparr>en_now := now k\<rparr>) r A)"

fun req_event :: "request \<Rightarrow> wx_event" where
  "req_event (ReqMessage text t) = ShowMessageEvent text (msg_int t)"
| "req_event (ReqAction a) = ShowCurrentActionEvent (action_int a)"

lemma req_posted: "req_do False E r A = wxPostEvent (req_event r) A"
  by (cases r) (simp_all add: ShowMessage_def wx_SetCurrentAction_def)

lemma req_dispatched: "dispatch T E oc (req_event r) A = Some (req_do True E r A)"
  by (cases r) (simp_all add: ShowMessage_def wx_SetCurrentAction_def dispatch_def OnShowMessage_def
      OnShowCurrentAction_def)

lemma requests_posted: "reqs_do False E now k rs A = A\<lparr>ap_queue := ap_queue A @ map req_event rs\<rparr>"
  by (induction rs arbitrary: k A) (simp_all add: req_posted wxPostEvent_def)

lemma requests_dispatched:
  "dispatch_all T E now k oc (map req_event rs) A = Some (reqs_do True E now k rs A)"
  by (induction rs arbitrary: k A) (simp_all add: req_dispatched)

text \<open>
  C30: Messages with a type and actions that other threads report, at whatever
  times, are shown exactly as if the thread of the user interface had reported
  them in the same order, each at the moment its event is handled: the same
  texts, which begin with the time of that moment and not of the report, the same
  colours and, at last, the same window.
\<close>

theorem deferred_as_direct:
  assumes "ap_queue A = []"
  shows "event_loop T E now oc (reqs_do False E reported 0 rs A) = Some (reqs_do True E now 0 rs A)"
proof -
  have "event_loop T E now oc (reqs_do False E reported 0 rs A) = Some (reqs_do True E now 0 rs (A\<lparr>ap_queue := []\<rparr>))"
    using assms by (simp add: event_loop_def requests_posted requests_dispatched)
  moreover have "A\<lparr>ap_queue := []\<rparr> = A" using assms by (cases A) simp
  ultimately show ?thesis by metis
qed

text \<open>
  Cells that another thread sets are never shown, and a message without a type
  shown through an event loses the colour the direct call keeps.
\<close>

lemma deferred_cell_lost:
  "wx_SetAttribute False E u i col v r A = Some A' \<Longrightarrow> ap_queue A = [] \<Longrightarrow>
    event_loop T E now oc A' = Some A"
  by (cases A) (auto simp: wx_SetAttribute_def wxPostEvent_def event_loop_def dispatch_def)

lemma untyped_message_colour:
  "dl_msgColour (ap_dialog (ShowMessage_untyped True E text A)) = dl_msgColour (ap_dialog A)"
  "dispatch T E oc (ShowMessageEvent text (- 1)) A = Some A' \<Longrightarrow> dl_msgColour (ap_dialog A') = (255, 255, 255)"
  by (auto simp: ShowMessage_untyped_def upd_dialog_def ShowText_def dispatch_def OnShowMessage_def
      dlg_ShowMessage_def)

lemma SetAttribute_UI_icon: "SetAttribute_UI h u i col v r D = Some D' \<Longrightarrow> dl_icon D' = dl_icon D"
  by (auto simp: SetAttribute_UI_def split: Option.bind_splits)

lemma app_calls_cells:
  "\<lbrakk>app_calls E cs A = Some A'; \<forall>c\<in>set cs. is_SetAttribute c\<rbrakk>
    \<Longrightarrow> dl_icon (ap_dialog A') = dl_icon (ap_dialog A)"
proof (induction cs arbitrary: A)
  case (Cons c cs)
  obtain A1 where A1: "app_call E c A = Some A1" "app_calls E cs A1 = Some A'"
    using Cons.prems(1) by (auto split: Option.bind_splits)
  have "dl_icon (ap_dialog A1) = dl_icon (ap_dialog A)"
    using A1(1) Cons.prems(2)
    by (cases c) (auto simp: app_call_def wx_SetAttribute_def split: Option.bind_splits dest: SetAttribute_UI_icon)
  then show ?case using Cons.IH [OF A1(2)] Cons.prems(2) by simp
qed simp

lemma app_calls_append:
  "app_calls E (cs @ cs') A = Option.bind (app_calls E cs A) (app_calls E cs')"
proof (induction cs arbitrary: A)
  case (Cons c cs)
  then show ?case by (cases "app_call E c A") simp_all
qed simp

text \<open>
  C31: Showing the values changes the icon in one case: it becomes the warning
  icon when some attribute of a drive is rated below the threshold and the state
  shown before was not a warning. In particular an icon that is not the one of
  ``all values are in a safe range'' never becomes it, and a warning icon stays.
\<close>

theorem values_set_warning_icon_only:
  assumes "wx_UpdateSMARTvaluesUI T E A = Some A'"
  shows "dl_icon (ap_dialog A') =
     (if (\<exists>d\<in>set (SMARTuniqueIDsAndValues (ap_client A)).
            drive_rated_below T (en_client E) (en_model0 E) (modelAndFirmwareTuples (ap_client A)) d)
         \<and> entireSMARTstatus (ap_client A) \<noteq> AtLeast1Warn
      then Some SMARTwarningIcon else dl_icon (ap_dialog A))"
proof -
  let ?c = "ap_client A"
  obtain r cs where *: "upd8_drives T (en_client E) (en_model0 E) (modelAndFirmwareTuples ?c)
      (SMARTuniqueIDsAndValues ?c) Unknown = Some (r, cs)"
    and A': "app_calls E (cs @ (if upd8ThreadRunning ?c then [ChangeConnectionState valUpd8] else [])
        @ (if entireSMARTstatus ?c \<noteq> r then [ShowStateAccordingToSMARTvalues r] else []))
      (A\<lparr>ap_client := ?c\<lparr>entireSMARTstatus := r\<rparr>\<rparr>) = Some A'"
    using assms by (auto simp: wx_UpdateSMARTvaluesUI_def UpdateSMARTvaluesUI_def split: Option.bind_splits)
  obtain A1 where A1: "app_calls E cs (A\<lparr>ap_client := ?c\<lparr>entireSMARTstatus := r\<rparr>\<rparr>) = Some A1"
    and A2: "app_calls E ((if upd8ThreadRunning ?c then [ChangeConnectionState valUpd8] else [])
        @ (if entireSMARTstatus ?c \<noteq> r then [ShowStateAccordingToSMARTvalues r] else [])) A1 = Some A'"
    using A' unfolding app_calls_append [of _ cs] by (auto split: Option.bind_splits)
  have "dl_icon (ap_dialog A1) = dl_icon (ap_dialog A)"
    using app_calls_cells [OF A1] upd8_drives_result [OF *] by simp
  moreover have "r = (if \<exists>d\<in>set (SMARTuniqueIDsAndValues ?c).
      drive_rated_below T (en_client E) (en_model0 E) (modelAndFirmwareTuples ?c) d then AtLeast1Warn else Unknown)"
    using upd8_drives_result [OF *] by simp
  ultimately show ?thesis
    using A2 by (auto simp: app_call_def wx_ChangeConnectionState_def SetState_def wx_ShowState_def
        ShowSMARTwarningIcon_def ShowIcon_def upd_dialog_def split: if_splits)
qed

definition env_wx_example :: wx_env where
  "env_wx_example = \<lparr>en_h = std_sizes, en_defs = defs_example, en_now = ''12:00'',
     en_appName = ''wxSMARTmonitor'', en_direct = False, en_host = ''localhost'', en_port = 2000,
     en_interval = 1000, en_lastUpdate = ''11:59'', en_setIcon = True, en_client = env_example,
     en_model0 = mf_example\<rparr>"

definition app_example :: "64 word client \<Rightarrow> 64 word app" where
  "app_example c = \<lparr>ap_dialog = dialog_example, ap_queue = [], ap_state = uncnnctdToSrv, ap_client = c,
     ap_hasTray = True, ap_tray = None, ap_boxes = [], ap_getValsThreadID = 0\<rparr>"

theorem deferred_as_direct_witness:
  "let now = (\<lambda>k. if k = 0 then ''12:00:01'' else ''12:00:02''); rs = [ReqAction cnnctToSrv, ReqMessage ''failed'' msg_error];
     A = app_example client_example
   in event_loop TYPE(64) env_wx_example now (\<lambda>n A. A) (reqs_do False env_wx_example (\<lambda>k. ''11:59:59'') 0 rs A)
      = Some (reqs_do True env_wx_example now 0 rs A)
    \<and> dl_msg (ap_dialog (reqs_do True env_wx_example now 0 rs A)) = ''12:00:02 failed''"
  unfolding Let_def
  by (intro conjI deferred_as_direct)
    (simp_all add: app_example_def ShowMessage_def wx_SetCurrentAction_def upd_dialog_def dlg_ShowMessage_def)

theorem values_set_warning_icon_only_witness:
  "\<exists>A'. wx_UpdateSMARTvaluesUI TYPE(64) env_wx_example
      (app_example (client_example\<lparr>SMARTuniqueIDsAndValues := []\<rparr>)) = Some A'
    \<and> dl_icon (ap_dialog A') = None"
proof -
  let ?A = "app_example (client_example\<lparr>SMARTuniqueIDsAndValues := []\<rparr>)"
  obtain A' where "wx_UpdateSMARTvaluesUI TYPE(64) env_wx_example ?A = Some A'"
    by (simp add: wx_UpdateSMARTvaluesUI_def UpdateSMARTvaluesUI_def app_example_def client_example_def
        app_call_def)
  then show ?thesis
    using values_set_warning_icon_only [of "TYPE(64)" env_wx_example ?A A']
    by (simp add: app_example_def client_example_def dialog_example_def)
qed

end
