(* ===== verification/WxColumns.thy ===== *)
theory WxColumns
  imports WxTable
begin

text \<open>
  \<open>wxWidgets/SMARTtableListCtrl.cpp\<close> and \<open>.hpp\<close>, with the texts of
  \<open>UserInterface/SMARTparamTblHdrWStr.c\<close>, \<open>.h\<close> and \<open>enLiterals.h\<close>: the columns
  of the table, their headings and widths, and the size of its font.

  The width of a text in pixels and the width of a border are parameters. Of
  the wxWidgets list control the model uses: a new column goes to the position
  given, at most behind the last. \<open>NVMeSMARTattrColIdx::Unit\<close>, which the
  enumeration does not have, is read as \<open>RawValUnit\<close>.
\<close>

section \<open>Texts\<close>

definition EnATA_SMARTattrTblColHdrWstrs :: "string list" where
  "EnATA_SMARTattrTblColHdrWstrs = [''ID'', ''parameter name'', ''current value(normalized)'',
     ''threshold value(normalized)'', ''raw value'', ''human readable raw value'', ''raw value unit'',
     ''raw value ~unit range'', ''last update[uptime]'']"

definition EnNVMeSMARTattrTblColHdrWchrStrs :: "string list" where
  "EnNVMeSMARTattrTblColHdrWchrStrs = [''ID'', ''parameter name'', ''raw value'',
     ''human readable raw value'', ''raw value unit'', ''raw value ~unit range'', ''last update[uptime]'']"

definition WidestATA_SMARTattrTblColWchrStrs :: "string list" where
  "WidestATA_SMARTattrTblColWchrStrs = [''000'', [], ''200'', ''200'', ''AABBCCDDEEFFh'',
     ''>=~9999d3h59min59s999ms'', ''>=~1h59min59s999ms'', ''~1h09min59s999ms-~1h59min59s999ms'',
     ''99d23h59min59s999ms'']"

definition WidestNVMeSMARTattrTblColWchrStrs :: "string list" where
  "WidestNVMeSMARTattrTblColWchrStrs = [''000'', [], ''AABBCCDDEEFFAABBCCDDEEFFAABBCCDDh'',
     ''124123T123G123M123k123 MB'', ''>=~1h59min59s999ms'', ''~1h09min59s999ms-~1h59min59s999ms'',
     ''99d23h59min59s999ms'']"

lemmas text_arrays = EnATA_SMARTattrTblColHdrWstrs_def EnNVMeSMARTattrTblColHdrWchrStrs_def
  WidestATA_SMARTattrTblColWchrStrs_def WidestNVMeSMARTattrTblColWchrStrs_def

definition getLabel :: "bus \<Rightarrow> nat \<Rightarrow> string option" where
  "getLabel b col =
     (if b = NVMe
      then (if col < NVMe_col_idx NVMe_ByndLast then Some (EnNVMeSMARTattrTblColHdrWchrStrs ! col) else None)
      else (if col < ATA_col_idx ATA_ByndLast then Some (EnATA_SMARTattrTblColHdrWstrs ! col) else None))"

section \<open>Widths\<close>

text \<open>
  The two arrays of widths are shared by all tables and start with 0.
  \<open>dragX\<close> is the answer of the system, -1 if it has none.
\<close>

record px_env =
  px_width :: "string \<Rightarrow> nat"
  dragX :: int
  setColWdthAccHdrStrWdth :: bool

record column =
  co_id :: nat
  co_text :: string
  co_width :: int

record list_ctrl =
  lc_bus :: bus
  m_maxSMARTattrNmStrWdthInPx :: nat
  MaxATAwidths :: "nat list"
  MaxNVMeWidths :: "nat list"
  lc_cols :: "column list"
  fontPointSize :: int

fun set_widths :: "(string \<Rightarrow> nat) \<Rightarrow> string list \<Rightarrow> nat list \<Rightarrow> nat list \<Rightarrow> nat list" where
  "set_widths px strs [] ws = ws"
| "set_widths px strs (col # cols) ws = set_widths px strs cols (ws[col := px (strs ! col)])"

text \<open>For NVMe, too, the widths of ID and name go to the array for ATA.\<close>

definition getMaxNVMeSMARTattrTblColValChrStrWdthInPx :: "px_env \<Rightarrow> list_ctrl \<Rightarrow> list_ctrl" where
  "getMaxNVMeSMARTattrTblColValChrStrWdthInPx P lc =
     lc\<lparr>MaxATAwidths := (MaxATAwidths lc)
          [ATA_col_idx ATA_ID := px_width P (WidestATA_SMARTattrTblColWchrStrs ! ATA_col_idx ATA_ID),
           ATA_col_idx ATA_Name := m_maxSMARTattrNmStrWdthInPx lc],
        MaxNVMeWidths := set_widths (px_width P) WidestNVMeSMARTattrTblColWchrStrs
          [NVMe_col_idx NVMe_RawVal..<NVMe_col_idx NVMe_ByndLast] (MaxNVMeWidths lc)\<rparr>"

definition getMaxATA_SMARTattrTblValChrStrWdthInPx :: "px_env \<Rightarrow> list_ctrl \<Rightarrow> list_ctrl" where
  "getMaxATA_SMARTattrTblValChrStrWdthInPx P lc =
     lc\<lparr>MaxATAwidths := set_widths (px_width P) WidestATA_SMARTattrTblColWchrStrs
          [ATA_col_idx ATA_NrmlzdCurrVal..<ATA_col_idx ATA_ByndLast]
          ((MaxATAwidths lc)
            [ATA_col_idx ATA_ID := px_width P (WidestATA_SMARTattrTblColWchrStrs ! ATA_col_idx ATA_ID),
             ATA_col_idx ATA_Name := m_maxSMARTattrNmStrWdthInPx lc])\<rparr>"

definition setMaxSMARTattrNmStrWdthInPx :: "px_env \<Rightarrow> string \<Rightarrow> list_ctrl \<Rightarrow> list_ctrl" where
  "setMaxSMARTattrNmStrWdthInPx P s lc =
     (if px_width P s > m_maxSMARTattrNmStrWdthInPx lc
      then lc\<lparr>m_maxSMARTattrNmStrWdthInPx := px_width P s\<rparr> else lc)"

section \<open>Columns\<close>

definition InsertColumn :: "nat \<Rightarrow> column \<Rightarrow> list_ctrl \<Rightarrow> list_ctrl" where
  "InsertColumn n c lc = lc\<lparr>lc_cols := take n (lc_cols lc) @ c # drop n (lc_cols lc)\<rparr>"

definition col_width :: "px_env \<Rightarrow> list_ctrl \<Rightarrow> nat \<Rightarrow> string \<Rightarrow> int" where
  "col_width P lc col lbl =
     (if dragX P = - 1 then 10 else dragX P)
     + (if setColWdthAccHdrStrWdth P then int (px_width P lbl)
        else int ((if lc_bus lc = NVMe then MaxNVMeWidths lc else MaxATAwidths lc) ! col))"

definition setColHdrAndInsCol :: "px_env \<Rightarrow> nat \<Rightarrow> list_ctrl \<Rightarrow> list_ctrl" where
  "setColHdrAndInsCol P col lc =
     (case getLabel (lc_bus lc) col of
        None \<Rightarrow> lc
      | Some lbl \<Rightarrow> InsertColumn col \<lparr>co_id = col, co_text = lbl, co_width = col_width P lc col lbl\<rparr> lc)"

definition insert_name_col :: "nat \<Rightarrow> list_ctrl \<Rightarrow> list_ctrl" where
  "insert_name_col n = InsertColumn n \<lparr>co_id = n, co_text = ''parameter name'', co_width = 200\<rparr>"

definition createATAcols :: "px_env \<Rightarrow> list_ctrl \<Rightarrow> list_ctrl" where
  "createATAcols P lc =
     fold (\<lambda>c. setColHdrAndInsCol P (ATA_col_idx c))
       [ATA_RawVal, ATA_HumanReadableRawVal, ATA_Unit, ATA_UnitRange, ATA_LastUpdate]
       (insert_name_col (ATA_col_idx ATA_Name)
         (fold (\<lambda>c. setColHdrAndInsCol P (ATA_col_idx c)) [ATA_ID, ATA_NrmlzdCurrVal, ATA_NrmlzdThresh] lc))"

definition createNVMeCols :: "px_env \<Rightarrow> list_ctrl \<Rightarrow> list_ctrl" where
  "createNVMeCols P lc =
     fold (\<lambda>c. setColHdrAndInsCol P (NVMe_col_idx c))
       [NVMe_RawVal, NVMe_HumanReadableRawVal, NVMe_RawValUnit, NVMe_UnitRange, NVMe_LastUpdate]
       (insert_name_col (NVMe_col_idx NVMe_Name) (setColHdrAndInsCol P (NVMe_col_idx NVMe_ID) lc))"

definition createCols :: "px_env \<Rightarrow> list_ctrl \<Rightarrow> list_ctrl" where
  "createCols P lc = (if lc_bus lc = NVMe then createNVMeCols P lc else createATAcols P lc)"

text \<open>The constructor, for a drive with bus \<open>b\<close>; the arrays are those of the program.\<close>

definition SMARTtableListCtrl_new :: "px_env \<Rightarrow> bus \<Rightarrow> nat list \<Rightarrow> nat list \<Rightarrow> int \<Rightarrow> list_ctrl" where
  "SMARTtableListCtrl_new P b wATA wNVMe font =
     (let lc = \<lparr>lc_bus = b, m_maxSMARTattrNmStrWdthInPx = 0, MaxATAwidths = wATA, MaxNVMeWidths = wNVMe,
                lc_cols = [], fontPointSize = font\<rparr>
      in createCols P (if b = NVMe then getMaxNVMeSMARTattrTblColValChrStrWdthInPx P lc
                       else getMaxATA_SMARTattrTblValChrStrWdthInPx P lc))"

section \<open>Font size\<close>

datatype font_item = decreaseFontSize | increaseFontSize

definition GetMinFntSizInPt :: int where "GetMinFntSizInPt = 6"

definition OnRightMouseButtonDown :: "list_ctrl \<Rightarrow> font_item list" where
  "OnRightMouseButtonDown lc =
     (if fontPointSize lc > GetMinFntSizInPt then [decreaseFontSize] else []) @ [increaseFontSize]"

definition OnPopupClick :: "font_item \<Rightarrow> list_ctrl \<Rightarrow> list_ctrl" where
  "OnPopupClick it lc =
     (case it of
        increaseFontSize \<Rightarrow> lc\<lparr>fontPointSize := fontPointSize lc + 1\<rparr>
      | decreaseFontSize \<Rightarrow> if fontPointSize lc > GetMinFntSizInPt
          then lc\<lparr>fontPointSize := fontPointSize lc - 1\<rparr> else lc)"

section \<open>Properties\<close>

lemma upt_cols: "[0..<9] = [0, 1, 2, 3, 4, 5, 6, 7, 8 :: nat]" "[0..<7] = [0, 1, 2, 3, 4, 5, 6 :: nat]"
  "[2..<9] = [2, 3, 4, 5, 6, 7, 8 :: nat]" "[2..<7] = [2, 3, 4, 5, 6 :: nat]"
  by code_simp+

lemma ATA_cols:
  assumes "lc_bus lc \<noteq> NVMe" "lc_cols lc = []"
  shows "lc_cols (createATAcols P lc) = map (\<lambda>col.
     if col = 1 then \<lparr>co_id = 1, co_text = ''parameter name'', co_width = 200\<rparr>
     else \<lparr>co_id = col, co_text = EnATA_SMARTattrTblColHdrWstrs ! col,
       co_width = col_width P lc col (EnATA_SMARTattrTblColHdrWstrs ! col)\<rparr>) [0..<9]"
  using assms
  by (simp add: createATAcols_def setColHdrAndInsCol_def getLabel_def insert_name_col_def
      InsertColumn_def col_width_def upt_cols)

lemma NVMe_cols:
  assumes "lc_bus lc = NVMe" "lc_cols lc = []"
  shows "lc_cols (createNVMeCols P lc) = map (\<lambda>col.
     if col = 1 then \<lparr>co_id = 1, co_text = ''parameter name'', co_width = 200\<rparr>
     else \<lparr>co_id = col, co_text = EnNVMeSMARTattrTblColHdrWchrStrs ! col,
       co_width = col_width P lc col (EnNVMeSMARTattrTblColHdrWchrStrs ! col)\<rparr>) [0..<7]"
  using assms
  by (simp add: createNVMeCols_def setColHdrAndInsCol_def getLabel_def insert_name_col_def
      InsertColumn_def col_width_def upt_cols)

fun ATA_heading :: "ATA_col \<Rightarrow> string" where
  "ATA_heading ATA_ID = ''ID''" | "ATA_heading ATA_Name = ''parameter name''"
| "ATA_heading ATA_NrmlzdCurrVal = ''current value(normalized)''"
| "ATA_heading ATA_NrmlzdThresh = ''threshold value(normalized)''"
| "ATA_heading ATA_RawVal = ''raw value''"
| "ATA_heading ATA_HumanReadableRawVal = ''human readable raw value''"
| "ATA_heading ATA_Unit = ''raw value unit''" | "ATA_heading ATA_UnitRange = ''raw value ~unit range''"
| "ATA_heading ATA_LastUpdate = ''last update[uptime]''" | "ATA_heading ATA_ByndLast = []"

lemma set_widths_nth:
  "\<lbrakk>k < length ws\<rbrakk> \<Longrightarrow> set_widths px strs cols ws ! k = (if k \<in> set cols then px (strs ! k) else ws ! k)"
  by (induction cols arbitrary: ws) auto

lemma length_set_widths [simp]: "length (set_widths px strs cols ws) = length ws"
  by (induction cols arbitrary: ws) auto

lemma drag_ge: "- 1 \<le> d \<Longrightarrow> 0 \<le> (if d = - 1 then 10 else d :: int)"
  by simp

text \<open>
  The table of an ATA drive has a column for every kind of text, at the
  position the texts are set at and with the heading that names them, although
  they are not made in this order; unless the widths follow the headings, each
  but the name's is wide enough for the widest text it may show.
\<close>

theorem ATA_columns:
  assumes "b \<noteq> NVMe" "length wATA = 9" "- 1 \<le> dragX P" "c \<noteq> ATA_ByndLast"
  shows "length (lc_cols (SMARTtableListCtrl_new P b wATA wNVMe font)) = 9
    \<and> co_text (lc_cols (SMARTtableListCtrl_new P b wATA wNVMe font) ! ATA_col_idx c) = ATA_heading c
    \<and> (c \<noteq> ATA_Name \<and> \<not> setColWdthAccHdrStrWdth P \<longrightarrow>
         int (px_width P (WidestATA_SMARTattrTblColWchrStrs ! ATA_col_idx c))
           \<le> co_width (lc_cols (SMARTtableListCtrl_new P b wATA wNVMe font) ! ATA_col_idx c))"
proof -
  define lc where "lc = getMaxATA_SMARTattrTblValChrStrWdthInPx P
    \<lparr>lc_bus = b, m_maxSMARTattrNmStrWdthInPx = 0, MaxATAwidths = wATA, MaxNVMeWidths = wNVMe,
      lc_cols = [], fontPointSize = font\<rparr>"
  have lc: "lc_bus lc \<noteq> NVMe" "lc_cols lc = []"
    using assms(1) by (simp_all add: lc_def getMaxATA_SMARTattrTblValChrStrWdthInPx_def)
  have new: "SMARTtableListCtrl_new P b wATA wNVMe font = createATAcols P lc"
    using assms(1) lc(1) by (simp add: SMARTtableListCtrl_new_def createCols_def lc_def)
  have w: "MaxATAwidths lc ! k = px_width P (WidestATA_SMARTattrTblColWchrStrs ! k)" if "k < 9" "k \<noteq> 1" for k
  proof -
    have "k = 0 \<or> 2 \<le> k" using that(2) by arith
    then show ?thesis
      using that assms(2) by (auto simp: lc_def getMaxATA_SMARTattrTblValChrStrWdthInPx_def set_widths_nth
          simp del: upt_rec_numeral)
  qed
  have i: "ATA_col_idx c < 9" using assms(4) by (cases c) simp_all
  have "int (px_width P (WidestATA_SMARTattrTblColWchrStrs ! ATA_col_idx c))
      \<le> col_width P lc (ATA_col_idx c) s" if "c \<noteq> ATA_Name" "\<not> setColWdthAccHdrStrWdth P" for s
  proof -
    have "ATA_col_idx c \<noteq> 1" using that(1) by (cases c) simp_all
    then show ?thesis using w [OF i] drag_ge [OF assms(3)] that(2) lc(1) by (simp add: col_width_def)
  qed
  moreover have "EnATA_SMARTattrTblColHdrWstrs ! ATA_col_idx c = ATA_heading c" if "c \<noteq> ATA_Name"
    using that assms(4) by (cases c) (simp_all add: EnATA_SMARTattrTblColHdrWstrs_def)
  moreover have "c \<noteq> ATA_Name \<Longrightarrow> ATA_col_idx c \<noteq> 1" by (cases c) simp_all
  ultimately show ?thesis
    unfolding new ATA_cols [OF lc] using i by (cases "c = ATA_Name") simp_all
qed

definition px_example :: px_env where
  "px_example = \<lparr>px_width = (\<lambda>s. 8 * length s), dragX = - 1, setColWdthAccHdrStrWdth = False\<rparr>"

theorem ATA_columns_witness:
  "co_text (lc_cols (SMARTtableListCtrl_new px_example SATA (replicate 9 0) (replicate 7 0) 10) ! 5)
     = ''human readable raw value''
   \<and> 8 * length ''>=~9999d3h59min59s999ms''
     \<le> co_width (lc_cols (SMARTtableListCtrl_new px_example SATA (replicate 9 0) (replicate 7 0) 10) ! 5)"
  using ATA_columns [of SATA "replicate 9 0" px_example ATA_HumanReadableRawVal "replicate 7 0" 10]
  by (simp add: px_example_def WidestATA_SMARTattrTblColWchrStrs_def)

text \<open>
  In the table of an NVMe drive the headings of two columns are exchanged:
  the readable value stands under the heading of the unit, the unit under that
  of the readable value, and their widths are exchanged too. And the column of
  the ID is no wider than the border, if its width in the array is still 0.
\<close>

theorem NVMe_headings_exchanged:
  assumes "\<not> setColWdthAccHdrStrWdth P" "length wNVMe = 7"
    and "cs = lc_cols (SMARTtableListCtrl_new P NVMe wATA wNVMe font)"
  shows "co_text (cs ! NVMe_col_idx NVMe_HumanReadableRawVal) = ATA_heading ATA_Unit
    \<and> co_text (cs ! NVMe_col_idx NVMe_RawValUnit) = ATA_heading ATA_HumanReadableRawVal
    \<and> co_width (cs ! NVMe_col_idx NVMe_HumanReadableRawVal)
        = (if dragX P = - 1 then 10 else dragX P) + int (px_width P ''>=~1h59min59s999ms'')
    \<and> co_width (cs ! NVMe_col_idx NVMe_RawValUnit)
        = (if dragX P = - 1 then 10 else dragX P) + int (px_width P ''124123T123G123M123k123 MB'')
    \<and> co_width (cs ! NVMe_col_idx NVMe_ID) = (if dragX P = - 1 then 10 else dragX P) + int (wNVMe ! 0)"
proof -
  define lc where "lc = getMaxNVMeSMARTattrTblColValChrStrWdthInPx P
    \<lparr>lc_bus = NVMe, m_maxSMARTattrNmStrWdthInPx = 0, MaxATAwidths = wATA, MaxNVMeWidths = wNVMe,
      lc_cols = [], fontPointSize = font\<rparr>"
  have lc: "lc_bus lc = NVMe" "lc_cols lc = []"
    by (simp_all add: lc_def getMaxNVMeSMARTattrTblColValChrStrWdthInPx_def)
  have new: "SMARTtableListCtrl_new P NVMe wATA wNVMe font = createNVMeCols P lc"
    using lc(1) by (simp add: SMARTtableListCtrl_new_def createCols_def lc_def)
  have w: "MaxNVMeWidths lc = set_widths (px_width P) WidestNVMeSMARTattrTblColWchrStrs [2..<7] wNVMe"
    by (simp add: lc_def getMaxNVMeSMARTattrTblColValChrStrWdthInPx_def)
  show ?thesis
    unfolding assms(3) new NVMe_cols [OF lc]
    using assms(1,2) by (simp add: col_width_def lc(1) w set_widths_nth del: upt_rec_numeral)
      (simp add: EnNVMeSMARTattrTblColHdrWchrStrs_def WidestNVMeSMARTattrTblColWchrStrs_def)
qed

theorem NVMe_headings_exchanged_witness:
  "co_text (lc_cols (SMARTtableListCtrl_new px_example NVMe (replicate 9 0) (replicate 7 0) 10) ! 4) = ''raw value unit''
   \<and> co_width (lc_cols (SMARTtableListCtrl_new px_example NVMe (replicate 9 0) (replicate 7 0) 10) ! 0) = 10"
  using NVMe_headings_exchanged [OF _ _ refl, of px_example "replicate 7 0" "replicate 9 0" 10]
  by (simp add: px_example_def)

text \<open>
  The menu offers to make the font smaller exactly if choosing it changes the
  font, and no choice makes the font smaller than the least size.
\<close>

lemma decrease_offered:
  "decreaseFontSize \<in> set (OnRightMouseButtonDown lc) \<longleftrightarrow> OnPopupClick decreaseFontSize lc \<noteq> lc"
proof -
  have "fontPointSize (lc\<lparr>fontPointSize := n\<rparr>) \<noteq> fontPointSize lc" if "n \<noteq> fontPointSize lc" for n
    using that by simp
  then have "lc\<lparr>fontPointSize := fontPointSize lc - 1\<rparr> \<noteq> lc" by (metis diff_eq_eq add_cancel_left_right zero_neq_one)
  then show ?thesis by (simp add: OnRightMouseButtonDown_def OnPopupClick_def)
qed

lemma font_not_below_least:
  "GetMinFntSizInPt \<le> fontPointSize lc \<Longrightarrow> GetMinFntSizInPt \<le> fontPointSize (fold OnPopupClick its lc)"
  by (induction its arbitrary: lc) (auto simp: OnPopupClick_def split: font_item.split)

lemma name_width_is_maximum:
  "m_maxSMARTattrNmStrWdthInPx (fold (setMaxSMARTattrNmStrWdthInPx P) ss lc)
    = fold max (map (px_width P) ss) (m_maxSMARTattrNmStrWdthInPx lc)"
  by (induction ss arbitrary: lc) (auto simp: setMaxSMARTattrNmStrWdthInPx_def max_def)

end
