(* ===== verification/WxWindow.thy ===== *)
theory WxWindow
  imports WxApp WxColumns
begin

text \<open>
  \<open>wxWidgets/wxSMARTmonitorDialog.cpp\<close>, \<open>wxSMARTmonitorApp.cpp\<close>,
  \<open>wxSMARTmonitorTaskBarIcon.cpp\<close> and \<open>SupportedSMARTIDsDialog.cpp\<close>: how the main
  window is built, what its buttons and the icon in the task bar do, and how the
  windows are closed when the program ends.

  A button is found by its ID: a handler connected at run time is looked up
  before the entries of the event table, as the documentation of wxWidgets says.
  The IDs the library reserves for standard buttons are values of their own.
  Windows that are destroyed, threads that are ended and dialogs that are shown
  are recorded as the list of the calls made.
\<close>

section \<open>IDs and handlers\<close>

datatype button_id = wxID_ABOUT | wxID_OK | wxID_EXIT | OwnID nat

definition TIMER_ID :: nat where "TIMER_ID = 0"
definition options_ID :: nat where "options_ID = 1"
definition CONNECT_ID :: nat where "CONNECT_ID = 3"
definition directSMARTdata_ID :: nat where "directSMARTdata_ID = 4"

datatype handler = OnAbout | OnOptions | OnDirect | OnOK | OnExit | OnShowSupported | OnConnectOrDisconnect

text \<open>The \<open>EVT_BUTTON\<close> entries of the event table.\<close>

fun event_table :: "button_id \<Rightarrow> handler option" where
  "event_table wxID_ABOUT = Some OnAbout"
| "event_table wxID_OK = Some OnOK"
| "event_table wxID_EXIT = Some OnExit"
| "event_table (OwnID n) =
     (if n = options_ID then Some OnOptions else if n = directSMARTdata_ID then Some OnDirect
      else if n = showSupportedSMART_IDs then Some OnShowSupported
      else if n = CONNECT_ID then Some OnConnectOrDisconnect else None)"

lemmas id_defs = TIMER_ID_def options_ID_def CONNECT_ID_def directSMARTdata_ID_def showSupportedSMART_IDs_def

text \<open>\<open>bound\<close> are the IDs connected to \<open>OnShowSupportedSMART_IDs\<close> at run time.\<close>

definition find_handler :: "nat set \<Rightarrow> button_id \<Rightarrow> handler option" where
  "find_handler bound b =
     (if b \<in> OwnID ` bound then Some OnShowSupported else event_table b)"

text \<open>The buttons below the panels, with their labels; \<open>tray\<close>: there is a task bar.\<close>

definition window_buttons :: "bool \<Rightarrow> string \<Rightarrow> (button_id \<times> string) list" where
  "window_buttons tray connectLabel =
     [(wxID_ABOUT, ''&About''), (OwnID options_ID, ''&Options''),
      (OwnID directSMARTdata_ID, ''&direct S.M.A.R.T.''), (OwnID CONNECT_ID, connectLabel)]
     @ (if tray then [(wxID_OK, ''&Hide'')] else []) @ [(wxID_EXIT, ''E&xit'')]"

section \<open>The main window\<close>

datatype win_call =
    W_EndUpdateUIthread
  | W_DestroyTop nat
  | W_DestroyMain
  | W_ShowTop nat
  | W_MessageBox string
  | W_ShowModal string string
  | W_CnnctToSrvOrDiscnnct

record 'lw window =
  wi_app :: "'lw app"
  wi_bound :: "nat set"
  wi_open :: "(nat \<times> SMARTuniqueID) list"
  wi_next :: nat
  wi_shown :: bool
  wi_threadRuns :: bool
  wi_mutexLocked :: bool
  wi_calls :: "win_call list"

text \<open>Texts and results of other components: the usage, the \<open>About\<close> text, the attributes to observe.\<close>

record win_env =
  we_wx :: wx_env
  we_usage :: string
  we_about :: string
  we_numAttrs :: nat
  we_connectLabel :: string

definition win_calls :: "win_call list \<Rightarrow> 'lw window \<Rightarrow> 'lw window" where
  "win_calls cs W = W\<lparr>wi_calls := wi_calls W @ cs\<rparr>"

definition upd_app :: "('lw app \<Rightarrow> 'lw app) \<Rightarrow> 'lw window \<Rightarrow> 'lw window" where
  "upd_app f W = W\<lparr>wi_app := f (wi_app W)\<rparr>"

definition win_drives :: "'lw window \<Rightarrow> SMARTuniqueID list" where
  "win_drives W = map m_SMARTuniqueID (SMARTuniqueIDsAndValues (ap_client (wi_app W)))"

text \<open>
  The constructor: the mutex of the close condition is locked, and the window is
  built; the buttons of all panels made here have the same ID.
\<close>

definition SMARTdialog_new :: "win_env \<Rightarrow> 'lw app \<Rightarrow> 'lw window" where
  "SMARTdialog_new E A =
     (let us = map m_SMARTuniqueID (SMARTuniqueIDsAndValues (ap_client A));
          D = CreatePerDiskUIctrls (en_h (we_wx E)) us
                ((ap_dialog A)\<lparr>dl_panels := [], dl_store := [], dl_shown := [], dl_msg := [],
                   dl_connectLabel := we_connectLabel E, dl_connectEnabled := True,
                   dl_directLabel := ''&direct S.M.A.R.T.''\<rparr>)
      in \<lparr>wi_app = A\<lparr>ap_dialog := D\<rparr>, wi_bound = (if us = [] then {} else {showSupportedSMART_IDs}),
          wi_open = [], wi_next = 0, wi_shown = False, wi_threadRuns = False, wi_mutexLocked = True,
          wi_calls = []\<rparr>)"

text \<open>The window IDs \<open>ReBuildUserInterface\<close> connects: one per drive, counted up.\<close>

definition window_ReBuild :: "win_env \<Rightarrow> 'lw window \<Rightarrow> 'lw window option" where
  "window_ReBuild E W =
     map_option (\<lambda>A. W\<lparr>wi_app := A, wi_bound := wi_bound W
         \<union> {showSupportedSMART_IDs..<showSupportedSMART_IDs + length (win_drives W)}\<rparr>)
       (wx_ReBuildUserInterface True (we_wx E) (wi_app W))"

definition SetStatus :: "wx_env \<Rightarrow> string \<Rightarrow> dialog \<Rightarrow> dialog" where
  "SetStatus E status D = D\<lparr>dl_title := en_appName E @ ''-'' @ status\<rparr>"

definition DrctSMARTaccssUIctrls :: "dialog \<Rightarrow> dialog" where
  "DrctSMARTaccssUIctrls D = D\<lparr>dl_directLabel := ''End Direct S.M.A.R.T.''\<rparr>"

definition NoDrctSMARTaccessUIctrls :: "dialog \<Rightarrow> dialog" where
  "NoDrctSMARTaccessUIctrls D = D\<lparr>dl_directLabel := ''Direct S.M.A.R.T.''\<rparr>"

section \<open>Closing\<close>

definition EndAllThreadsAndCloseAllOtherTopLevelWindows :: "bool \<Rightarrow> 'lw window \<Rightarrow> 'lw window" where
  "EndAllThreadsAndCloseAllOtherTopLevelWindows ui W =
     win_calls (W_EndUpdateUIthread # (if ui then map (\<lambda>x. W_DestroyTop (fst x)) (wi_open W) else []))
       (W\<lparr>wi_threadRuns := False\<rparr>)"

definition OnCloseWindow :: "'lw window \<Rightarrow> 'lw window" where
  "OnCloseWindow W = win_calls [W_DestroyMain] (EndAllThreadsAndCloseAllOtherTopLevelWindows True W)"

text \<open>\<open>Close(true)\<close> sends the close event, whose handler is \<open>OnCloseWindow\<close>.\<close>

definition do_OnExit :: "'lw window \<Rightarrow> 'lw window" where
  "do_OnExit W = OnCloseWindow (EndAllThreadsAndCloseAllOtherTopLevelWindows True W)"

text \<open>\<open>SupportedSMART_IDsDialog::OnCloseWindow\<close>\<close>

definition supported_OnCloseWindow :: "nat \<Rightarrow> 'lw window \<Rightarrow> 'lw window" where
  "supported_OnCloseWindow n W =
     win_calls [W_DestroyTop n] (W\<lparr>wi_open := filter (\<lambda>x. fst x \<noteq> n) (wi_open W)\<rparr>)"

text \<open>
  \<open>InformAboutTerminationOfUpdateThread\<close>, which nothing calls: it locks the
  mutex, which the constructor has locked, so it waits for ever (None).
\<close>

definition InformAboutTerminationOfUpdateThread :: "'lw window \<Rightarrow> 'lw window option" where
  "InformAboutTerminationOfUpdateThread W = (if wi_mutexLocked W then None else Some W)"

section \<open>Buttons\<close>

definition do_OnShowSupported :: "nat \<Rightarrow> 'lw window \<Rightarrow> 'lw window" where
  "do_OnShowSupported windowID W =
     (case OnShowSupportedSMART_IDs windowID (ap_dialog (wi_app W)) of
        (Some u, _) \<Rightarrow> win_calls [W_ShowTop (wi_next W)]
          (W\<lparr>wi_open := wi_open W @ [(wi_next W, u)], wi_next := wi_next W + 1\<rparr>)
      | (None, boxes) \<Rightarrow> win_calls (map W_MessageBox boxes) W)"

text \<open>
  The thread starts if there are attributes to observe. The window's rebuild may
  be an access through a NULL pointer.
\<close>

definition do_StartAsyncDrctUpd8Thread :: "win_env \<Rightarrow> 'lw window \<Rightarrow> 'lw window" where
  "do_StartAsyncDrctUpd8Thread E W =
     (if 0 < we_numAttrs E
      then upd_app (SetGetDirectSMARTvals (we_wx E)) (W\<lparr>wi_threadRuns := True\<rparr>)
      else win_calls [W_MessageBox ''no S.M.A.R.T. attributes to observe defined''] W)"

definition do_OnDrctSMARTaccss :: "win_env \<Rightarrow> 'lw window \<Rightarrow> 'lw window option" where
  "do_OnDrctSMARTaccss E W =
     (if wi_threadRuns W
      then Some (upd_app (upd_dialog NoDrctSMARTaccessUIctrls)
             (win_calls [W_EndUpdateUIthread] (W\<lparr>wi_threadRuns := False\<rparr>)))
      else map_option (do_StartAsyncDrctUpd8Thread E) (window_ReBuild E W))"

definition do_handler :: "win_env \<Rightarrow> nat \<Rightarrow> handler \<Rightarrow> 'lw window \<Rightarrow> 'lw window option" where
  "do_handler E n hdl W =
     (case hdl of
        OnAbout \<Rightarrow> Some (win_calls [W_ShowModal ''About wxS.M.A.R.T.monitor'' (we_about E)] W)
      | OnOptions \<Rightarrow> Some (win_calls [W_ShowModal ''wxS.M.A.R.T.monitor options'' (we_usage E)] W)
      | OnDirect \<Rightarrow> do_OnDrctSMARTaccss E W
      | OnOK \<Rightarrow> Some (W\<lparr>wi_shown := False\<rparr>)
      | OnExit \<Rightarrow> Some (do_OnExit W)
      | OnShowSupported \<Rightarrow> Some (do_OnShowSupported n W)
      | OnConnectOrDisconnect \<Rightarrow> Some (win_calls [W_CnnctToSrvOrDiscnnct] W))"

definition press :: "win_env \<Rightarrow> button_id \<Rightarrow> 'lw window \<Rightarrow> 'lw window option" where
  "press E b W =
     (case find_handler (wi_bound W) b of
        None \<Rightarrow> Some W
      | Some hdl \<Rightarrow> do_handler E (case b of OwnID n \<Rightarrow> n | _ \<Rightarrow> 0) hdl W)"

section \<open>The icon in the task bar\<close>

datatype tray_event = PU_RESTORE | PU_EXIT | PU_NEW_ICON | PU_CHECKMARK | PU_SUB1 | PU_SUB2
  | TrayLeftDown | TraySize

text \<open>The menu; None is a separator.\<close>

definition CreatePopupMenu :: "(tray_event \<times> string) option list" where
  "CreatePopupMenu = [Some (PU_RESTORE, ''&Restore main window''), None, None, Some (PU_EXIT, ''E&xit'')]"

definition tray_event_do :: "tray_event \<Rightarrow> bool \<times> 'lw window \<Rightarrow> bool \<times> 'lw window" where
  "tray_event_do e = (\<lambda>(check, W).
     (case e of
        PU_RESTORE \<Rightarrow> (check, W\<lparr>wi_shown := True\<rparr>)
      | PU_EXIT \<Rightarrow> (check, OnCloseWindow W)
      | PU_CHECKMARK \<Rightarrow> (\<not> check, W)
      | PU_SUB1 \<Rightarrow> (check, win_calls [W_MessageBox ''You clicked on a submenu!''] W)
      | PU_SUB2 \<Rightarrow> (check, win_calls [W_MessageBox ''You clicked on a submenu!''] W)
      | TrayLeftDown \<Rightarrow> (check, W\<lparr>wi_shown := \<not> wi_shown W\<rparr>)
      | _ \<Rightarrow> (check, W)))"

definition CreateTaskBarIcon :: "bool \<Rightarrow> 'lw app \<Rightarrow> 'lw app" where
  "CreateTaskBarIcon available A = (if available then A\<lparr>ap_hasTray := True\<rparr> else A)"

section \<open>Runs\<close>

datatype win_event = Press button_id | Tray tray_event | CloseSupported nat | CloseMain

fun win_step :: "win_env \<Rightarrow> win_event \<Rightarrow> bool \<times> 'lw window \<Rightarrow> (bool \<times> 'lw window) option" where
  "win_step E (Press b) (c, W) = map_option (Pair c) (press E b W)"
| "win_step E (Tray e) (c, W) = Some (tray_event_do e (c, W))"
| "win_step E (CloseSupported n) (c, W) = Some (c, supported_OnCloseWindow n W)"
| "win_step E CloseMain (c, W) = Some (c, OnCloseWindow W)"

fun win_run :: "win_env \<Rightarrow> win_event list \<Rightarrow> bool \<times> 'lw window \<Rightarrow> (bool \<times> 'lw window) option" where
  "win_run E [] s = Some s"
| "win_run E (e # es) s = Option.bind (win_step E e s) (win_run E es)"

text \<open>A window that was shown and is not open any more was destroyed.\<close>

definition shown_tracked :: "'lw window \<Rightarrow> bool" where
  "shown_tracked W \<longleftrightarrow> (\<forall>n. W_ShowTop n \<in> set (wi_calls W) \<longrightarrow>
     W_DestroyTop n \<in> set (wi_calls W) \<or> n \<in> fst ` set (wi_open W))"

named_theorems win_simps \<open>the operations on the calls, the open windows and the thread\<close>

lemma win_call_simps [win_simps]:
  "wi_calls (win_calls cs W) = wi_calls W @ cs" "wi_open (win_calls cs W) = wi_open W"
  "wi_threadRuns (win_calls cs W) = wi_threadRuns W" "wi_bound (win_calls cs W) = wi_bound W"
  by (simp_all add: win_calls_def)

lemma upd_app_simps [win_simps]:
  "wi_calls (upd_app f W) = wi_calls W" "wi_open (upd_app f W) = wi_open W"
  "wi_bound (upd_app f W) = wi_bound W"
  by (simp_all add: upd_app_def)

lemma endAll_simps [win_simps]:
  "wi_calls (EndAllThreadsAndCloseAllOtherTopLevelWindows ui W) = wi_calls W
     @ W_EndUpdateUIthread # (if ui then map (\<lambda>x. W_DestroyTop (fst x)) (wi_open W) else [])"
  "wi_open (EndAllThreadsAndCloseAllOtherTopLevelWindows ui W) = wi_open W"
  "wi_threadRuns (EndAllThreadsAndCloseAllOtherTopLevelWindows ui W) = False"
  "wi_bound (EndAllThreadsAndCloseAllOtherTopLevelWindows ui W) = wi_bound W"
  by (simp_all add: EndAllThreadsAndCloseAllOtherTopLevelWindows_def win_simps)

lemma window_ReBuild_simps:
  "window_ReBuild E W = Some W' \<Longrightarrow> wi_calls W' = wi_calls W \<and> wi_open W' = wi_open W
     \<and> wi_bound W' = wi_bound W \<union> {showSupportedSMART_IDs..<showSupportedSMART_IDs + length (win_drives W)}"
  by (auto simp: window_ReBuild_def)

lemma shown_tracked_handler:
  "\<lbrakk>shown_tracked W; do_handler E n hdl W = Some W'\<rbrakk> \<Longrightarrow> shown_tracked W'"
  by (cases hdl)
    (fastforce simp: do_handler_def do_OnExit_def OnCloseWindow_def shown_tracked_def win_simps
      do_OnDrctSMARTaccss_def do_OnShowSupported_def do_StartAsyncDrctUpd8Thread_def
      split: if_splits prod.splits option.splits dest: window_ReBuild_simps)+

lemma shown_tracked_step:
  assumes "shown_tracked (snd s)" "win_step E e s = Some s'"
  shows "shown_tracked (snd s')"
proof (cases s)
  case s: (Pair c W)
  have T: "shown_tracked W" using assms(1) s by simp
  show ?thesis
  proof (cases e)
    case (Press b)
    then show ?thesis using T assms(2) s
      by (auto simp: press_def split: option.splits dest: shown_tracked_handler)
  next
    case (Tray t)
    then show ?thesis using T assms(2) s
      by (cases t) (auto simp: tray_event_do_def OnCloseWindow_def shown_tracked_def win_simps)
  next
    case (CloseSupported n)
    then show ?thesis using T assms(2) s
      by (force simp: supported_OnCloseWindow_def shown_tracked_def win_simps)
  next
    case CloseMain
    then show ?thesis using T assms(2) s
      by (auto simp: OnCloseWindow_def shown_tracked_def win_simps)
  qed
qed

lemma shown_tracked_run:
  "\<lbrakk>win_run E es s = Some s'; shown_tracked (snd s)\<rbrakk> \<Longrightarrow> shown_tracked (snd s')"
  by (induction es arbitrary: s) (auto split: Option.bind_splits dest: shown_tracked_step)

text \<open>The three ways to end the program.\<close>

definition ends :: "win_event \<Rightarrow> bool" where
  "ends e \<longleftrightarrow> e = Press wxID_EXIT \<or> e = Tray PU_EXIT \<or> e = CloseMain"

lemma ends_step:
  assumes "ends e" "win_step E e (c, W) = Some (c', W')"
  shows "\<exists>pre. wi_calls W' = wi_calls W @ pre @ [W_DestroyMain] \<and> W_DestroyMain \<notin> set pre
    \<and> W_EndUpdateUIthread \<in> set pre \<and> W_DestroyTop ` fst ` set (wi_open W) \<subseteq> set pre
    \<and> (\<forall>n. W_ShowTop n \<notin> set pre) \<and> \<not> wi_threadRuns W'"
proof -
  have "wxID_EXIT \<notin> OwnID ` wi_bound W" by auto
  then have "W' = OnCloseWindow W \<or> W' = do_OnExit W"
    using assms by (auto simp: ends_def press_def find_handler_def do_handler_def tray_event_do_def)
  then show ?thesis
    by (elim disjE) (auto simp: OnCloseWindow_def do_OnExit_def win_simps)
qed

text \<open>
  C14: However the program was used before, with windows opened and closed, the
  thread started and ended and the window hidden: ending it by the button, the
  menu of the task bar or the close box ends the thread and destroys every
  window that was ever shown, and then, last and once, the main window.
\<close>

theorem exit_destroys_all_windows:
  assumes "win_run E es (True, SMARTdialog_new E A) = Some (c, W)" "W_DestroyMain \<notin> set (wi_calls W)"
    and "ends e" "win_step E e (c, W) = Some (c', W')"
  shows "\<not> wi_threadRuns W' \<and> W_EndUpdateUIthread \<in> set (wi_calls W')
    \<and> (\<forall>n. W_ShowTop n \<in> set (wi_calls W') \<longrightarrow> W_DestroyTop n \<in> set (butlast (wi_calls W')))
    \<and> last (wi_calls W') = W_DestroyMain \<and> W_DestroyMain \<notin> set (butlast (wi_calls W'))"
proof -
  have "shown_tracked (SMARTdialog_new E A)" by (simp add: shown_tracked_def SMARTdialog_new_def Let_def)
  then have T: "shown_tracked W" using shown_tracked_run [OF assms(1)] by simp
  obtain pre where pre: "wi_calls W' = wi_calls W @ pre @ [W_DestroyMain]" "W_DestroyMain \<notin> set pre"
      "W_EndUpdateUIthread \<in> set pre" "W_DestroyTop ` fst ` set (wi_open W) \<subseteq> set pre"
      "\<forall>n. W_ShowTop n \<notin> set pre" "\<not> wi_threadRuns W'"
    using ends_step [OF assms(3,4)] by blast
  have b: "butlast (wi_calls W') = wi_calls W @ pre"
    unfolding pre(1) append_assoc [symmetric] by (rule butlast_snoc)
  show ?thesis
    unfolding b using pre T assms(2) by (fastforce simp: shown_tracked_def image_image)
qed

section \<open>Buttons after the window was rebuilt\<close>

text \<open>
  After the window was rebuilt for \<open>n\<close> drives every button below the panels
  runs the handler of the event table, but for two: with two drives or more the
  button to connect, with three or more the one for direct access, too, opens
  the window of a drive's supported attributes instead, since the panels'
  buttons take their IDs.
\<close>

theorem buttons_after_rebuild:
  assumes "window_ReBuild E W = Some W'" "wi_bound W \<subseteq> {showSupportedSMART_IDs}"
    and "(b, l) \<in> set (window_buttons tray lbl)"
  shows "find_handler (wi_bound W') b =
    (if b = OwnID CONNECT_ID \<and> 2 \<le> length (win_drives W)
        \<or> b = OwnID directSMARTdata_ID \<and> 3 \<le> length (win_drives W)
     then Some OnShowSupported else event_table b)"
proof -
  have b: "wi_bound W' = wi_bound W \<union> {2..<2 + length (win_drives W)}"
    using window_ReBuild_simps [OF assms(1)] by (simp add: id_defs)
  show ?thesis
    using assms(2,3) unfolding b
    by (auto simp: window_buttons_def find_handler_def id_defs split: if_splits)
qed

text \<open>
  C35: So, in a window first filled for two drives or more, pressing the button
  to connect does not connect but opens the window of the second drive.
\<close>

theorem connect_button_shows_second_drive:
  assumes "dl_panels (ap_dialog (wi_app W)) = []" "sorted_wrt (uid_less (en_h (we_wx E))) (win_drives W)"
    and "\<forall>u\<in>set (win_drives W). wf_drive (en_h (we_wx E)) u" "2 \<le> length (win_drives W)"
  shows "\<exists>W' W''. window_ReBuild E W = Some W' \<and> press E (OwnID CONNECT_ID) W' = Some W''
    \<and> wi_open W'' = wi_open W @ [(wi_next W, win_drives W ! 1)]
    \<and> wi_calls W'' = wi_calls W @ [W_ShowTop (wi_next W)]"
proof -
  let ?D = "ap_dialog (wi_app W)" and ?h = "en_h (we_wx E)" and ?s = "en_defs (we_wx E)"
  let ?E = "?D\<lparr>dl_evtID := Map.empty\<rparr>"
  have "wf_dialog ?h ?E" using assms(1) by (simp add: wf_dialog_def)
  then obtain D' where D': "rebuild_loop ?h ?s (win_drives W) [] showSupportedSMART_IDs ?E = Some D'"
      "\<forall>k<length (win_drives W). dl_evtID D' (showSupportedSMART_IDs + k) = Some (win_drives W ! k)"
    using rebuild_loop_new [of ?h ?E "win_drives W" ?s showSupportedSMART_IDs] assms(1-3) by auto
  define W' where "W' = W\<lparr>wi_app := (wi_app W)\<lparr>ap_dialog := D'\<rparr>, wi_bound := wi_bound W
      \<union> {showSupportedSMART_IDs..<showSupportedSMART_IDs + length (win_drives W)}\<rparr>"
  have W': "window_ReBuild E W = Some W'"
    using D'(1) assms(1)
    by (simp add: window_ReBuild_def wx_ReBuildUserInterface_def ReBuildUserInterface_def win_drives_def W'_def)
  have e: "dl_evtID (ap_dialog (wi_app W')) CONNECT_ID = Some (win_drives W ! 1)"
    using D'(2) [rule_format, of 1] assms(4) by (simp add: W'_def id_defs)
  have "CONNECT_ID \<in> wi_bound W'" using assms(4) by (simp add: W'_def id_defs)
  then have "press E (OwnID CONNECT_ID) W' = Some (do_OnShowSupported CONNECT_ID W')"
    by (simp add: press_def find_handler_def do_handler_def)
  then show ?thesis
    using W' e by (auto simp: do_OnShowSupported_def OnShowSupportedSMART_IDs_def win_simps W'_def)
qed

section \<open>Windows for the witnesses\<close>

definition win_env_example :: win_env where
  "win_env_example = \<lparr>we_wx = env_wx_example, we_usage = ''usage'', we_about = ''about'', we_numAttrs = 1,
     we_connectLabel = ''connect''\<rparr>"

definition two_drives_example :: "64 word client" where
  "two_drives_example = client_example\<lparr>SMARTuniqueIDsAndValues :=
     [ui_drive_example\<lparr>m_SMARTuniqueID := uid_194\<rparr>, ui_drive_example\<lparr>m_SMARTuniqueID := uid_other\<rparr>]\<rparr>"

definition win_example :: "64 word window" where
  "win_example = (SMARTdialog_new win_env_example (app_example client_example))
     \<lparr>wi_app := app_example two_drives_example\<rparr>"

lemma win_example_drives: "win_drives win_example = [uid_194, uid_other]"
  by (simp add: win_drives_def win_example_def app_example_def two_drives_example_def)

lemma uid_194_less_other: "uid_less std_sizes uid_194 uid_other"
proof -
  have "replicate 41 NUL = NUL # replicate 40 NUL" by (simp flip: replicate_Suc)
  then have m: "modelName uid_194 = NUL # replicate 40 NUL" "modelName uid_other = CHR ''X'' # replicate 40 NUL"
    by (simp_all add: uid_194_def uid_other_def blank_uid_def initAttrVals_def)
  have "strncmp (Suc 39) (modelName uid_194) (modelName uid_other) = - 1"
    unfolding m by (simp only: strncmp.simps) (simp add: NUL_def)
  moreover have "numModelBytes std_sizes = Suc 39" by (simp add: std_sizes_def)
  ultimately show ?thesis unfolding uid_less_def by (simp only: Let_def) simp
qed

lemma wf_uid_other: "wf_drive std_sizes uid_other"
  using wf_uid_194 by (simp add: wf_drive_def uid_other_def)

theorem connect_button_shows_second_drive_witness:
  "\<exists>W' W''. window_ReBuild win_env_example win_example = Some W'
    \<and> press win_env_example (OwnID 3) W' = Some W'' \<and> wi_open W'' = [(0, uid_other)]
    \<and> wi_calls W'' = [W_ShowTop 0]"
  using connect_button_shows_second_drive [of win_example win_env_example]
    win_example_drives uid_194_less_other wf_uid_194 wf_uid_other
  by (simp add: win_env_example_def env_wx_example_def CONNECT_ID_def win_example_def app_example_def
      dialog_example_def SMARTdialog_new_def)

lemma win_example_rebuilt: "\<exists>W'. window_ReBuild win_env_example win_example = Some W'"
proof -
  let ?E = "dialog_example\<lparr>dl_evtID := Map.empty\<rparr>"
  have "wf_dialog std_sizes ?E" by (simp add: wf_dialog_def dialog_example_def)
  then obtain D' where "rebuild_loop std_sizes defs_example [uid_194, uid_other] [] showSupportedSMART_IDs ?E = Some D'"
    using rebuild_loop_new [of std_sizes ?E "[uid_194, uid_other]" defs_example showSupportedSMART_IDs]
      uid_194_less_other wf_uid_194 wf_uid_other by (auto simp: dialog_example_def)
  then show ?thesis
    by (simp add: window_ReBuild_def wx_ReBuildUserInterface_def ReBuildUserInterface_def win_example_def
        win_env_example_def env_wx_example_def app_example_def two_drives_example_def)
      (simp add: dialog_example_def)
qed

theorem buttons_after_rebuild_witness:
  "\<exists>W'. window_ReBuild win_env_example win_example = Some W'
    \<and> find_handler (wi_bound W') (OwnID 3) = Some OnShowSupported
    \<and> find_handler (wi_bound W') (OwnID 4) = Some OnDirect"
proof -
  obtain W' where W': "window_ReBuild win_env_example win_example = Some W'" using win_example_rebuilt by blast
  have b: "wi_bound win_example \<subseteq> {showSupportedSMART_IDs}"
    by (simp add: win_example_def SMARTdialog_new_def Let_def)
  have "(OwnID CONNECT_ID, ''connect'') \<in> set (window_buttons True ''connect'')"
    "(OwnID directSMARTdata_ID, ''&direct S.M.A.R.T.'') \<in> set (window_buttons True ''connect'')"
    by (simp_all add: window_buttons_def)
  from this [THEN buttons_after_rebuild [OF W' b]] show ?thesis
    using W' by (simp add: win_example_drives id_defs)
qed

theorem exit_destroys_all_windows_witness:
  "\<exists>W W'. win_run win_env_example [Press (OwnID 2)] (True, SMARTdialog_new win_env_example (app_example client_example))
      = Some (True, W)
    \<and> win_step win_env_example (Press wxID_EXIT) (True, W) = Some (True, W')
    \<and> W_ShowTop 0 \<in> set (wi_calls W') \<and> W_DestroyTop 0 \<in> set (butlast (wi_calls W'))"
proof -
  let ?W0 = "SMARTdialog_new win_env_example (app_example client_example)"
  define W where "W = do_OnShowSupported 2 ?W0"
  have run: "win_run win_env_example [Press (OwnID 2)] (True, ?W0) = Some (True, W)"
    by (simp add: press_def find_handler_def do_handler_def id_defs W_def)
  have c: "wi_calls W = [W_ShowTop 0]"
    by (simp add: W_def do_OnShowSupported_def OnShowSupportedSMART_IDs_def SMARTdialog_new_def win_calls_def
        app_example_def client_example_def CreatePerDiskUIctrls_def new_panel_def id_defs Let_def)
  have e: "ends (Press wxID_EXIT)" by (simp add: ends_def)
  have "wxID_EXIT \<notin> OwnID ` wi_bound W" by auto
  then have s: "win_step win_env_example (Press wxID_EXIT) (True, W) = Some (True, do_OnExit W)"
    by (simp add: press_def find_handler_def do_handler_def)
  have "W_ShowTop 0 \<in> set (wi_calls (do_OnExit W))"
    by (simp add: do_OnExit_def OnCloseWindow_def win_simps c)
  then show ?thesis
    using exit_destroys_all_windows [OF run _ e s] c run s by auto
qed

section \<open>A thread that is not used\<close>

text \<open>
  \<open>wxUpdateSMARTparameterValuesThreadFunc\<close>: \<open>res n\<close> is the result of the
  \<open>n\<close>-th attempt to get the values, \<open>flag n\<close> whether the thread is to go on
  after it. The result is the number of events posted; None means it never ends.
\<close>

partial_function (option) values_thread :: "(nat \<Rightarrow> int) \<Rightarrow> (nat \<Rightarrow> bool) \<Rightarrow> nat \<Rightarrow> nat option" where
  "values_thread res flag n =
     (if res n \<noteq> 0 then Some n else if flag n then values_thread res flag (Suc n) else Some (Suc n))"

text \<open>
  The event it posts is that of a button without ID: no handler is found, so the
  window does not show the new values.
\<close>

definition posted_button :: button_id where "posted_button = OwnID TIMER_ID"

lemma posted_button_no_handler: "0 \<notin> wi_bound W \<Longrightarrow> press E posted_button W = Some W"
  by (auto simp: press_def find_handler_def posted_button_def id_defs)

section \<open>The text about the program\<close>

record about_env =
  ab_message :: string
  ab_buildID :: string
  ab_currWorkDir :: string
  ab_currWorkDirRslt :: int
  ab_exePath :: string
  ab_exePathSccss :: bool
  ab_tray :: bool

definition about_text :: "about_env \<Rightarrow> string" where
  "about_text A = ab_message A @ [CHR 0x0A] @ ab_buildID A
     @ [CHR 0x0A, CHR 0x0A] @ ''current working directory:'' @ [CHR 0x0A]
     @ (if ab_exePathSccss A then ab_currWorkDir A else ''Getting path failed'')
     @ [CHR 0x0A] @ ''File system path of this executable:'' @ [CHR 0x0A]
     @ (if ab_currWorkDirRslt A = 0 then ab_exePath A else [])
     @ (if ab_tray A then [] else [CHR 0x0A, CHR 0x0A] @ ''There appears to be no task bar/system tray support''
          @ '' in your current environment. So you aren't able to hide the main window''
          @ '' (and re-show it by clicking on the task bar icon) while running this ''
          @ ''application.'')"

text \<open>The two results are exchanged: a failure to get the one path hides the other.\<close>

lemma about_text_exchanged:
  "\<lbrakk>ab_currWorkDirRslt A \<noteq> 0; ab_exePathSccss A; ab_tray A\<rbrakk> \<Longrightarrow>
   about_text A = about_text (A\<lparr>ab_exePath := p\<rparr>)"
  by (simp add: about_text_def)

section \<open>Smaller operations\<close>

definition GetTextFromUser :: "(string \<Rightarrow> string \<Rightarrow> string) \<Rightarrow> string \<Rightarrow> string \<Rightarrow> string" where
  "GetTextFromUser ask label v = ask label v"

definition wx_CreateCommandLineArgsArrays :: "(string \<Rightarrow> string) \<Rightarrow> string list \<Rightarrow> string list" where
  "wx_CreateCommandLineArgsArrays wide argv = map wide argv"

text \<open>
  \<open>ReadSMARTvaluesAndUpdateUI\<close>: \<open>denied\<close> is the result of the read, \<open>iconLoaded\<close>
  that of loading the icon.
\<close>

definition ReadSMARTvaluesAndUpdateUI :: "win_env \<Rightarrow> bool \<Rightarrow> bool \<Rightarrow> 'lw window \<Rightarrow> 'lw window option" where
  "ReadSMARTvaluesAndUpdateUI E denied iconLoaded W =
     window_ReBuild E (upd_app (upd_dialog (\<lambda>D.
       if denied then (if iconLoaded then D\<lparr>dl_icon := Some SMARTwarningIcon\<rparr> else D)
       else D\<lparr>dl_title := ''wxSMARTmonitor''\<rparr>)) W)"

definition GetSMARTokayIcon :: "char \<Rightarrow> (string \<Rightarrow> bool) \<Rightarrow> string \<Rightarrow> string \<Rightarrow> bool \<times> string list \<times> string list" where
  "GetSMARTokayIcon sep loads res prog = GetIcon sep loads res prog ''S.M.A.R.T._OK.''"

definition GetSMARTstatusUnknownIcon :: "char \<Rightarrow> (string \<Rightarrow> bool) \<Rightarrow> string \<Rightarrow> string \<Rightarrow> bool \<times> string list \<times> string list" where
  "GetSMARTstatusUnknownIcon sep loads res prog = GetIcon sep loads res prog ''S.M.A.R.T._unknown.''"

definition GetSMARTwarningIcon :: "char \<Rightarrow> (string \<Rightarrow> bool) \<Rightarrow> string \<Rightarrow> string \<Rightarrow> bool \<times> string list \<times> string list" where
  "GetSMARTwarningIcon sep loads res prog = GetIcon sep loads res prog ''S.M.A.R.T._warning.''"

text \<open>
  \<open>setUI\<close> is written with the two functions for the label of the button.
\<close>

lemma setUI_direct:
  "setUI f drctSMARTaccss (btn, D) = (btn, DrctSMARTaccssUIctrls D)"
  "setUI f endedDrctSMART (btn, D) = (btn, NoDrctSMARTaccessUIctrls D)"
  by (simp_all add: setUI_def DrctSMARTaccssUIctrls_def NoDrctSMARTaccessUIctrls_def)

section \<open>The window of the supported attributes\<close>

text \<open>The text above its table and its table; the columns of the list control it had before.\<close>

definition CreateGUI :: "px_env \<Rightarrow> nat list \<Rightarrow> nat list \<Rightarrow> int \<Rightarrow> SMARTuniqueID \<Rightarrow> string \<times> list_ctrl" where
  "CreateGUI P wATA wNVMe font u =
     (''ALL S.M.A.R.T. attribute IDs supported by'' @ [CHR 0x0A] @ uid_str u,
      SMARTtableListCtrl_new P (busType u) wATA wNVMe font)"

definition create2ColListCtrl :: "list_ctrl \<Rightarrow> list_ctrl" where
  "create2ColListCtrl lc =
     InsertColumn 1 \<lparr>co_id = 1, co_text = ''parameter name'', co_width = 200\<rparr>
       (InsertColumn 0 \<lparr>co_id = 0, co_text = ''ID'', co_width = 40\<rparr> lc)"

section \<open>The library informed about changes\<close>

text \<open>
  \<open>wxWidgets/wxSMARTvalueProcessor.cpp\<close>: the pointer to the function of the
  library is not set by the constructor (the outer None: it has no value), and
  \<open>Init\<close> sets it only if the library was loaded. \<open>lib\<close> are the symbols of the
  library, if it can be loaded.
\<close>

record 'f dynlib_proc =
  dp_function :: "'f option option"
  dp_boxes :: "string list"

definition DynLibSMARTvalProc_new :: "'f dynlib_proc" where
  "DynLibSMARTvalProc_new = \<lparr>dp_function = None, dp_boxes = []\<rparr>"

definition PossiblyAssign :: "(string \<Rightarrow> 'f option) \<Rightarrow> string \<Rightarrow> 'f option" where
  "PossiblyAssign symbols name = symbols name"

definition dynlib_Init :: "(string \<Rightarrow> (string \<Rightarrow> 'f option) option) \<Rightarrow> string \<Rightarrow> string \<Rightarrow> 'f dynlib_proc \<Rightarrow> 'f dynlib_proc" where
  "dynlib_Init load ext cwd p =
     (let file = ''OnChangedCriticalSMARTparameters'' @ ext
      in case load file of
           Some symbols \<Rightarrow> p\<lparr>dp_function := Some (PossiblyAssign symbols ''OnChangedCriticalSMARTparameters'')\<rparr>
         | None \<Rightarrow> p\<lparr>dp_boxes := dp_boxes p @ [''Error: dynamic library '' @ [CHR 0x0A, CHR 0x22] @ file
             @ [CHR 0x22, CHR 0x0A] @ '' that's informed about changes of SMART attribute values couldn't be ''
             @ ''loaded. looked up in this dir:'' @ [CHR 0x0A] @ cwd]\<rparr>)"

text \<open>None: a call through a pointer without value; else the functions called.\<close>

definition OnChangedSMARTparams :: "'f dynlib_proc \<Rightarrow> 'f list option" where
  "OnChangedSMARTparams p = map_option (\<lambda>f. case f of None \<Rightarrow> [] | Some g \<Rightarrow> [g]) (dp_function p)"

lemma change_without_library_undefined:
  "load (''OnChangedCriticalSMARTparameters'' @ ext) = None \<Longrightarrow>
   OnChangedSMARTparams (dynlib_Init load ext cwd DynLibSMARTvalProc_new) = None"
  by (simp add: OnChangedSMARTparams_def dynlib_Init_def DynLibSMARTvalProc_new_def Let_def)

end
