(* ===== verification/WxSupported.thy ===== *)
theory WxSupported
  imports WxTable
begin

text \<open>
  \<open>wxWidgets/SupportedSMARTIDsDialog.cpp\<close>: the window with all attributes a
  drive supports. Its table is filled with the cells the client sets for the
  labels and the values of each attribute.
\<close>

text \<open>The cells of the client's calls; a column that was never assigned has no defined effect.\<close>

fun table_calls :: "bus \<Rightarrow> ui_call list \<Rightarrow> table \<Rightarrow> table option" where
  "table_calls b [] tb = Some tb"
| "table_calls b (SetAttribute u i col v r # cs) tb =
     Option.bind col (\<lambda>q. Option.bind (SetSMARTattribValue b i q v r tb) (table_calls b cs))"
| "table_calls b (_ # cs) tb = table_calls b cs tb"

definition supported_line :: "'u::len itself \<Rightarrow> client_env \<Rightarrow> SMARTattrDefAccss \<Rightarrow> ModelAndFirmware
    \<Rightarrow> ModelAndFirmware list \<Rightarrow> 'l::len word SMARTuniqueIDandValues option \<Rightarrow> SMARTuniqueID \<Rightarrow> bool
    \<Rightarrow> nat \<times> attr_id \<Rightarrow> table \<Rightarrow> table option" where
  "supported_line T E s m0 models vals u create = (\<lambda>(n, i) tb. do {
     tb1 \<leftarrow> (if create
       then table_calls (busType u) (setIDandLabel s u i)
              (tb\<lparr>tb_lines := insert_line n (tb_lines tb), tb_lineOf := (tb_lineOf tb)(i \<mapsto> n)\<rparr>)
       else Some tb);
     case vals of
       None \<Rightarrow> Some tb1
     | Some d \<Rightarrow> do {
         (r, cs) \<leftarrow> upd8rawAndH_andTime T E i d (getDataCarrierAttrDefs m0 models u);
         table_calls (busType u) cs tb1 } })"

fun supported_lines :: "'u::len itself \<Rightarrow> client_env \<Rightarrow> SMARTattrDefAccss \<Rightarrow> ModelAndFirmware
    \<Rightarrow> ModelAndFirmware list \<Rightarrow> 'l::len word SMARTuniqueIDandValues option \<Rightarrow> SMARTuniqueID \<Rightarrow> bool
    \<Rightarrow> (nat \<times> attr_id) list \<Rightarrow> table \<Rightarrow> table option" where
  "supported_lines T E s m0 models vals u create [] tb = Some tb"
| "supported_lines T E s m0 models vals u create (x # xs) tb =
     Option.bind (supported_line T E s m0 models vals u create x tb)
       (supported_lines T E s m0 models vals u create xs)"

text \<open>
  The index is checked before the array is read; \<open>d0\<close> is the object the search
  key is constructed from.
\<close>

definition supported_ids :: "hw_sizes \<Rightarrow> SMARTuniqueID \<Rightarrow> attr_id list" where
  "supported_ids h u = id_list (take (numSATA h) (supportedSMART_IDs u))"

definition FillGUI :: "'u::len itself \<Rightarrow> client_env \<Rightarrow> SMARTattrDefAccss \<Rightarrow> ModelAndFirmware
    \<Rightarrow> 'l::len word client \<Rightarrow> 'l word SMARTuniqueIDandValues \<Rightarrow> SMARTuniqueID \<Rightarrow> bool \<Rightarrow> table
    \<Rightarrow> table option" where
  "FillGUI T E s m0 c d0 u create tb =
     supported_lines T E s m0 (modelAndFirmwareTuples c)
       (set_find (drive_less (env_h E)) (d0\<lparr>m_SMARTuniqueID := u\<rparr>) (SMARTuniqueIDsAndValues c))
       u create (enumerate 0 (supported_ids (env_h E) u)) tb"

definition OnUpd8SupportedSMART_IDs :: "'u::len itself \<Rightarrow> client_env \<Rightarrow> SMARTattrDefAccss \<Rightarrow> ModelAndFirmware
    \<Rightarrow> 'l::len word client \<Rightarrow> 'l word SMARTuniqueIDandValues \<Rightarrow> SMARTuniqueID \<Rightarrow> table \<Rightarrow> table option" where
  "OnUpd8SupportedSMART_IDs T E s m0 c d0 u tb = FillGUI T E s m0 c d0 u False tb"

definition SetTitleFromDataCarrierID :: "SMARTuniqueID \<Rightarrow> string" where
  "SetTitleFromDataCarrierID u =
     cstr (modelName u) @ '' '' @ cstr (firmWareName u) @ ''--all supported S.M.A.R.T. IDs''"

text \<open>
  An attribute that was not read yet has no column: the window of a drive whose
  value of a supported attribute is missing has no defined contents.
\<close>

lemma not_read_no_column:
  assumes "successfullyReadSMARTrawValue (m_SMARTattrs d i) = 0"
  shows "supported_line T E s m0 models (Some d) u False (n, i) tb = None"
  using assms by (simp add: supported_line_def upd8rawAndH_andTime_def Let_def)

end
