(* ===== verification/WxConnect.thy ===== *)
theory WxConnect
  imports ClientUI
begin

text \<open>
  \<open>wxWidgets/ConnectToServerDialog.cpp\<close>: the dialog for the connection to the
  service, with its two timers, the countdown until the connection times out
  and the countdown until the next attempt to connect. Both count in the same
  member.

  The number a text field holds is read by the library's \<open>ToULong\<close>, a
  parameter that is None when the text is not a number. What the dialog causes
  outside of itself is recorded in the order of the calls.
\<close>

section \<open>State\<close>

datatype dlg_call =
    MessageBox string
  | RegCancelSelectSigHandler
  | CloseSocket
  | InterruptSelect
  | CnnctToSrvAndGetSMARTvals
  | SetDialogPointer bool
  | AppShowMessage string
  | SetUIunconnected
  | DestroyDialog

record conn_dialog =
  cd_timeOutInSeconds :: nat
  cd_timeoutTimer :: bool
  cd_attemptTimer :: bool
  cd_label :: string
  cd_title :: string
  cd_srvAddr :: string
  cd_portNo :: string
  cd_timeoutText :: string
  cd_attemptText :: string
  cd_addrRed :: bool
  cd_addrTip :: string
  cd_host :: string
  cd_port :: nat
  cd_cnnctTimeOut :: nat
  cd_srvCnnctnCntDown :: nat
  cd_calls :: "dlg_call list"

record conn_env =
  ToULong :: "string \<Rightarrow> nat option"
  cnnctResult :: nat
  unknownHost :: nat

definition dlg_title :: string where
  "dlg_title = ''connect to S.M.A.R.T. values server/service''"

definition calls :: "dlg_call list \<Rightarrow> conn_dialog \<Rightarrow> conn_dialog" where
  "calls cs c = c\<lparr>cd_calls := cd_calls c @ cs\<rparr>"

text \<open>\<open>%u\<close> prints 32 bits.\<close>

definition fmt_u :: "nat \<Rightarrow> string" where
  "fmt_u n = dec (n mod 2 ^ 32)"

section \<open>Timers\<close>

definition EndCnnctnAttemptTimer :: "conn_dialog \<Rightarrow> conn_dialog" where
  "EndCnnctnAttemptTimer c = c\<lparr>cd_attemptTimer := False, cd_label := [], cd_title := dlg_title\<rparr>"

definition EndCnnctnTimeoutTimer :: "conn_dialog \<Rightarrow> conn_dialog" where
  "EndCnnctnTimeoutTimer c = c\<lparr>cd_timeoutTimer := False, cd_label := [], cd_title := dlg_title\<rparr>"

text \<open>
  The start of a countdown; -1 stands for the number in the text field, and for
  the application's number when the field holds none. Another negative number
  becomes a huge one.
\<close>

definition StartSrvCnnctnCntDown :: "conn_env \<Rightarrow> int \<Rightarrow> conn_dialog \<Rightarrow> conn_dialog" where
  "StartSrvCnnctnCntDown E t c =
     (let c1 = (if t = - 1 then
            (case ToULong E (cd_timeoutText c) of
               None \<Rightarrow> calls [MessageBox ''error converting timeout character string to integer'']
                        (c\<lparr>cd_timeOutInSeconds := cd_cnnctTimeOut c\<rparr>)
             | Some n \<Rightarrow> c\<lparr>cd_cnnctTimeOut := n, cd_timeOutInSeconds := n\<rparr>)
          else c\<lparr>cd_timeOutInSeconds := nat (t mod 2 ^ 64)\<rparr>)
      in c1\<lparr>cd_label := ''connection TIMEOUT in ca. '' @ fmt_u (cd_timeOutInSeconds c1) @ '' s'',
           cd_timeoutTimer := True\<rparr>)"

definition StartSrvCnnctnAttmptCntDown :: "conn_env \<Rightarrow> int \<Rightarrow> conn_dialog \<Rightarrow> conn_dialog" where
  "StartSrvCnnctnAttmptCntDown E t c =
     (let c1 = (if t = - 1 then
            (case ToULong E (cd_attemptText c) of
               None \<Rightarrow> calls [MessageBox ''error converting timeout attempt character string to integer'']
                        (c\<lparr>cd_timeOutInSeconds := cd_srvCnnctnCntDown c\<rparr>)
             | Some n \<Rightarrow> c\<lparr>cd_srvCnnctnCntDown := n, cd_timeOutInSeconds := n\<rparr>)
          else c\<lparr>cd_timeOutInSeconds := nat (t mod 2 ^ 64)\<rparr>)
      in c1\<lparr>cd_label := ''connection ATTEMPT in ca. '' @ fmt_u (cd_timeOutInSeconds c1) @ '' s'',
           cd_attemptTimer := True\<rparr>)"

definition OnTimer :: "conn_dialog \<Rightarrow> conn_dialog" where
  "OnTimer c =
     (if 0 < cd_timeOutInSeconds c then
        (let n = cd_timeOutInSeconds c - 1 in
         c\<lparr>cd_timeOutInSeconds := n, cd_label := ''connection TIMEOUT in ca. '' @ fmt_u n @ ''s''\<rparr>)
      else c\<lparr>cd_timeoutTimer := False\<rparr>)"

definition OnCnnctnAttmptTimer :: "conn_env \<Rightarrow> conn_dialog \<Rightarrow> conn_dialog" where
  "OnCnnctnAttmptTimer E c =
     (if 0 < cd_timeOutInSeconds c then
        c\<lparr>cd_label := ''connection ATTEMPT in ca. '' @ fmt_u (cd_timeOutInSeconds c) @ ''s'',
          cd_timeOutInSeconds := cd_timeOutInSeconds c - 1\<rparr>
      else StartSrvCnnctnCntDown E (- 1)
        (calls [CnnctToSrvAndGetSMARTvals] (c\<lparr>cd_attemptTimer := False\<rparr>)))"

definition OnStartCntDown :: "conn_dialog \<Rightarrow> conn_dialog" where
  "OnStartCntDown c = c\<lparr>cd_timeoutTimer := True\<rparr>"

section \<open>Buttons\<close>

definition cancelCnnctnOrCnnctnAttmpt :: "conn_dialog \<Rightarrow> conn_dialog" where
  "cancelCnnctnOrCnnctnAttmpt c =
     EndCnnctnAttemptTimer (EndCnnctnTimeoutTimer (calls [CloseSocket, InterruptSelect] c))"

definition OnCancel :: "conn_dialog \<Rightarrow> conn_dialog" where
  "OnCancel = cancelCnnctnOrCnnctnAttmpt"

definition End_dialog :: "bool \<Rightarrow> conn_dialog \<Rightarrow> conn_dialog" where
  "End_dialog modal c = calls ((if modal then [] else [DestroyDialog]) @ [SetDialogPointer False, SetUIunconnected])
     (c\<lparr>cd_timeoutTimer := False, cd_attemptTimer := False\<rparr>)"

definition OnSrvAddrChange :: "conn_dialog \<Rightarrow> conn_dialog" where
  "OnSrvAddrChange c = c\<lparr>cd_addrRed := False, cd_addrTip := []\<rparr>"

text \<open>One text field read into its number: the box shown on failure, and whether it failed.\<close>

definition read_field :: "conn_env \<Rightarrow> string \<Rightarrow> nat \<Rightarrow> string \<Rightarrow> nat \<times> dlg_call list" where
  "read_field E text old err = (case ToULong E text of None \<Rightarrow> (old, [MessageBox err]) | Some n \<Rightarrow> (n, []))"

definition OnConnect :: "conn_env \<Rightarrow> conn_dialog \<Rightarrow> conn_dialog" where
  "OnConnect E c =
     (let (port, b1) = read_field E (cd_portNo c) (cd_port c)
            ''error converting port number character string to integer'';
          (tmo, b2) = read_field E (cd_timeoutText c) (cd_cnnctTimeOut c)
            ''error converting timeout character string to integer'';
          (att, b3) = read_field E (cd_attemptText c) (cd_srvCnnctnCntDown c)
            ''error converting timeout attempt character string to integer'';
          boxes = b1 @ b2 @ b3;
          c1 = calls boxes (c\<lparr>cd_host := cd_srvAddr c, cd_port := port, cd_cnnctTimeOut := tmo,
            cd_srvCnnctnCntDown := att\<rparr>)
      in if boxes \<noteq> [] then
           calls [MessageBox ''not connecting to server because character string conversion failed.''] c1
         else
           (let c2 = calls [CnnctToSrvAndGetSMARTvals]
              (cancelCnnctnOrCnnctnAttmpt (calls [SetDialogPointer True, RegCancelSelectSigHandler] c1))
            in if cnnctResult E = unknownHost E then
                 calls [AppShowMessage (''\"'' @ cd_host c2 @ ''\" not found in host DataBase'')]
                   (c2\<lparr>cd_addrRed := True, cd_addrTip := ''unknown host name''\<rparr>)
               else c2))"

text \<open>One second: each timer that runs when it begins fires once.\<close>

definition second :: "conn_env \<Rightarrow> conn_dialog \<Rightarrow> conn_dialog" where
  "second E c =
     (let c1 = (if cd_attemptTimer c then OnCnnctnAttmptTimer E c else c)
      in if cd_timeoutTimer c then OnTimer c1 else c1)"

section \<open>Properties\<close>

lemma calls_simps [simp]:
  "cd_calls (calls cs c) = cd_calls c @ cs" "cd_timeOutInSeconds (calls cs c) = cd_timeOutInSeconds c"
  "cd_timeoutTimer (calls cs c) = cd_timeoutTimer c" "cd_attemptTimer (calls cs c) = cd_attemptTimer c"
  "cd_timeoutText (calls cs c) = cd_timeoutText c" "cd_attemptText (calls cs c) = cd_attemptText c"
  "cd_cnnctTimeOut (calls cs c) = cd_cnnctTimeOut c"
  by (simp_all add: calls_def)

lemma seconds_waiting:
  "\<lbrakk>cd_attemptTimer c; \<not> cd_timeoutTimer c; k \<le> cd_timeOutInSeconds c\<rbrakk> \<Longrightarrow>
    let c' = (second E ^^ k) c in
      cd_attemptTimer c' \<and> \<not> cd_timeoutTimer c' \<and> cd_calls c' = cd_calls c
      \<and> cd_timeoutText c' = cd_timeoutText c \<and> cd_timeOutInSeconds c' = cd_timeOutInSeconds c - k"
proof (induction k)
  case (Suc k)
  then show ?case by (simp add: Let_def second_def OnCnnctnAttmptTimer_def)
qed simp

text \<open>
  C25: A countdown of n seconds to the next attempt to connect, started while
  no connection is timed: for n seconds nothing is tried, and with the next
  second exactly one attempt is made, the countdown has ended and the one of
  the time out, of the number in its text field, runs.
\<close>

theorem countdown_attempts_connection:
  assumes "0 \<le> t" "t < 2 ^ 31" "\<not> cd_timeoutTimer c" "ToULong E (cd_timeoutText c) = Some m"
    and c0: "c0 = StartSrvCnnctnAttmptCntDown E t c"
  shows "(\<forall>k \<le> nat t. cd_calls ((second E ^^ k) c0) = cd_calls c \<and> cd_attemptTimer ((second E ^^ k) c0))
    \<and> (let c' = (second E ^^ Suc (nat t)) c0 in
        cd_calls c' = cd_calls c @ [CnnctToSrvAndGetSMARTvals] \<and> \<not> cd_attemptTimer c'
        \<and> cd_timeoutTimer c' \<and> cd_timeOutInSeconds c' = m)"
proof -
  have "t mod 2 ^ 64 = t" using assms(1,2) by simp
  then have "cd_attemptTimer c0" "\<not> cd_timeoutTimer c0" "cd_timeOutInSeconds c0 = nat t"
    "cd_calls c0 = cd_calls c" "cd_timeoutText c0 = cd_timeoutText c"
    using assms(1,3) by (simp_all add: c0 StartSrvCnnctnAttmptCntDown_def)
  note w = seconds_waiting [OF this(1,2), of _ E, unfolded Let_def] and c = this
  have "\<forall>k \<le> nat t. cd_calls ((second E ^^ k) c0) = cd_calls c \<and> cd_attemptTimer ((second E ^^ k) c0)"
    using w c by simp
  moreover have "second E ((second E ^^ nat t) c0) = StartSrvCnnctnCntDown E (- 1)
      (calls [CnnctToSrvAndGetSMARTvals] (((second E ^^ nat t) c0)\<lparr>cd_attemptTimer := False\<rparr>))"
    using w [of "nat t"] c by (simp add: second_def OnCnnctnAttmptTimer_def)
  ultimately show ?thesis
    using w [of "nat t"] c assms(4) by (simp add: StartSrvCnnctnCntDown_def Let_def)
qed

text \<open>With both timers running their common number falls by two in a second.\<close>

lemma shared_countdown:
  "\<lbrakk>cd_attemptTimer c; cd_timeoutTimer c; 2 \<le> cd_timeOutInSeconds c\<rbrakk>
    \<Longrightarrow> cd_timeOutInSeconds (second E c) = cd_timeOutInSeconds c - 2"
  by (simp add: second_def OnCnnctnAttmptTimer_def OnTimer_def Let_def)

definition conn_example :: conn_dialog where
  "conn_example = \<lparr>cd_timeOutInSeconds = 0, cd_timeoutTimer = False, cd_attemptTimer = False,
     cd_label = [], cd_title = dlg_title, cd_srvAddr = ''localhost'', cd_portNo = ''2000'',
     cd_timeoutText = ''30'', cd_attemptText = ''60'', cd_addrRed = False, cd_addrTip = [],
     cd_host = [], cd_port = 2000, cd_cnnctTimeOut = 30, cd_srvCnnctnCntDown = 60, cd_calls = []\<rparr>"

theorem countdown_attempts_connection_witness:
  "let E = \<lparr>ToULong = (\<lambda>_. Some 30), cnnctResult = 0, unknownHost = 1\<rparr>;
       c' = (second E ^^ 61) (StartSrvCnnctnAttmptCntDown E 60 conn_example)
   in cd_calls c' = [CnnctToSrvAndGetSMARTvals] \<and> cd_timeoutTimer c' \<and> cd_timeOutInSeconds c' = 30"
  using countdown_attempts_connection [of 60 conn_example "\<lparr>ToULong = (\<lambda>_. Some 30), cnnctResult = 0, unknownHost = 1\<rparr>" 30]
  by (simp add: conn_example_def Let_def)

end
