(* ===== verification/WxConnectDlg.thy ===== *)
theory WxConnectDlg
  imports WxConnect
begin

text \<open>
  \<open>wxWidgets/ConnectToServerDialog.cpp\<close> and \<open>.hpp\<close>, the rest: how the dialog is
  built from the settings of the application, its event table, and the events
  the user and the timers cause as one function.
\<close>

section \<open>Construction\<close>

datatype dlg_id = cnnctnTimeoutTimerID | cnnctnAttmptTimerID | connectID | srvAddrTxtCtlID | wxID_CANCEL | wxID_ANY

record conn_settings =
  se_host :: string
  se_port :: nat
  se_timeOut :: nat
  se_cnnctTimeOut :: nat
  se_srvCnnctnCntDown :: nat

text \<open>Only the second argument gets into the text, the seconds do not.\<close>

definition GetTimeOutLabelText :: "nat \<Rightarrow> string \<Rightarrow> string" where
  "GetTimeOutLabelText timeOutInSeconds str = ''seconds until '' @ str @ '':''"

text \<open>The rows of the dialog: a label and the text of the field beside it, and the buttons.\<close>

record dlg_layout =
  ly_rows :: "(string \<times> string) list"
  ly_state :: string
  ly_buttons :: "(dlg_id \<times> string) list"

definition addToHorizSizer :: "dlg_layout \<Rightarrow> string \<Rightarrow> string \<Rightarrow> dlg_layout" where
  "addToHorizSizer L left_text right_text = L\<lparr>ly_rows := ly_rows L @ [(left_text, right_text)]\<rparr>"

definition dialog_layout :: "conn_dialog \<Rightarrow> dlg_layout" where
  "dialog_layout c =
     (let L0 = \<lparr>ly_rows = [], ly_state = cd_label c,
                ly_buttons = [(connectID, ''connect''), (wxID_CANCEL, ''cancel'')]\<rparr>;
          L1 = addToHorizSizer L0 ''server IPv4 address/host name:'' (cd_srvAddr c);
          L2 = addToHorizSizer L1 ''TCP socket port number (0-65535):'' (cd_portNo c);
          L3 = addToHorizSizer L2 (GetTimeOutLabelText (cd_timeOutInSeconds c) ''connection timeout'') (cd_timeoutText c)
      in addToHorizSizer L3 (GetTimeOutLabelText (cd_timeOutInSeconds c) ''connection attempt'') (cd_attemptText c))"

text \<open>
  \<open>buildUI\<close>: setting the text of the address field is an event of its own, which
  clears its mark and its tool tip before the tool tip is set; \<open>linux\<close> is the
  build for that system.
\<close>

definition conn_buildUI :: "bool \<Rightarrow> conn_settings \<Rightarrow> conn_dialog \<Rightarrow> conn_dialog" where
  "conn_buildUI linux st c =
     (let c1 = OnSrvAddrChange (c\<lparr>cd_title := dlg_title, cd_srvAddr := se_host st\<rparr>);
          c2 = (if linux then c1\<lparr>cd_addrTip := ''for valid host names see file /etc/hosts''\<rparr> else c1)
      in c2\<lparr>cd_portNo := fmt_u (se_port st), cd_timeoutText := fmt_u (cd_timeOutInSeconds c2),
            cd_attemptText := fmt_u (se_srvCnnctnCntDown st), cd_label := ''current state:''\<rparr>)"

definition ConnectToServerDialog_new :: "bool \<Rightarrow> conn_settings \<Rightarrow> conn_dialog" where
  "ConnectToServerDialog_new linux st =
     conn_buildUI linux st
       \<lparr>cd_timeOutInSeconds = se_timeOut st, cd_timeoutTimer = False, cd_attemptTimer = False,
        cd_label = [], cd_title = [], cd_srvAddr = [], cd_portNo = [], cd_timeoutText = [],
        cd_attemptText = [], cd_addrRed = False, cd_addrTip = [], cd_host = se_host st, cd_port = se_port st,
        cd_cnnctTimeOut = se_cnnctTimeOut st, cd_srvCnnctnCntDown = se_srvCnnctnCntDown st,
        cd_calls = [RegCancelSelectSigHandler]\<rparr>"

definition settings_of :: "nat \<Rightarrow> conn_dialog \<Rightarrow> conn_settings" where
  "settings_of t c = \<lparr>se_host = cd_host c, se_port = cd_port c, se_timeOut = t,
     se_cnnctTimeOut = cd_cnnctTimeOut c, se_srvCnnctnCntDown = cd_srvCnnctnCntDown c\<rparr>"

definition ReStartTimer :: "conn_dialog \<Rightarrow> conn_dialog" where
  "ReStartTimer c = c\<lparr>cd_timeOutInSeconds := 30, cd_timeoutTimer := True\<rparr>"

text \<open>The destructor stops one of the two timers.\<close>

definition ConnectToServerDialog_end :: "conn_dialog \<Rightarrow> conn_dialog" where
  "ConnectToServerDialog_end c = c\<lparr>cd_timeoutTimer := False\<rparr>"

section \<open>Events\<close>

datatype conn_event =
    EvtText dlg_id
  | EvtTimer dlg_id
  | EvtClose
  | EvtButton dlg_id
  | StartCnnctCntDownEvt

datatype conn_handler = H_SrvAddrChange | H_Timer | H_CnnctnAttmptTimer | H_CloseWindow | H_Cancel
  | H_Connect | H_StartCntDown

definition conn_event_table :: "(conn_event \<times> conn_handler) list" where
  "conn_event_table =
     [(EvtText srvAddrTxtCtlID, H_SrvAddrChange), (EvtTimer cnnctnTimeoutTimerID, H_Timer),
      (EvtTimer cnnctnAttmptTimerID, H_CnnctnAttmptTimer), (EvtClose, H_CloseWindow),
      (EvtButton wxID_CANCEL, H_Cancel), (EvtButton connectID, H_Connect),
      (StartCnnctCntDownEvt, H_StartCntDown)]"

definition conn_OnCloseWindow :: "bool \<Rightarrow> conn_dialog \<Rightarrow> conn_dialog" where
  "conn_OnCloseWindow modal = End_dialog modal"

fun conn_handle :: "conn_env \<Rightarrow> bool \<Rightarrow> conn_handler \<Rightarrow> conn_dialog \<Rightarrow> conn_dialog" where
  "conn_handle E modal H_SrvAddrChange c = OnSrvAddrChange c"
| "conn_handle E modal H_Timer c = OnTimer c"
| "conn_handle E modal H_CnnctnAttmptTimer c = OnCnnctnAttmptTimer E c"
| "conn_handle E modal H_CloseWindow c = conn_OnCloseWindow modal c"
| "conn_handle E modal H_Cancel c = OnCancel c"
| "conn_handle E modal H_Connect c = OnConnect E c"
| "conn_handle E modal H_StartCntDown c = OnStartCntDown c"

definition conn_do :: "conn_env \<Rightarrow> bool \<Rightarrow> conn_event \<Rightarrow> conn_dialog \<Rightarrow> conn_dialog" where
  "conn_do E modal e c =
     (case map_of conn_event_table e of None \<Rightarrow> c | Some h \<Rightarrow> conn_handle E modal h c)"

text \<open>
  A user edits a field; the event of a text is that of its field, and only the
  field of the address has an ID.
\<close>

definition edit_address :: "conn_env \<Rightarrow> string \<Rightarrow> conn_dialog \<Rightarrow> conn_dialog" where
  "edit_address E text c = conn_do E False (EvtText srvAddrTxtCtlID) (c\<lparr>cd_srvAddr := text\<rparr>)"

definition edit_port :: "conn_env \<Rightarrow> string \<Rightarrow> conn_dialog \<Rightarrow> conn_dialog" where
  "edit_port E text c = conn_do E False (EvtText wxID_ANY) (c\<lparr>cd_portNo := text\<rparr>)"

section \<open>Properties\<close>

definition reads_numbers :: "conn_env \<Rightarrow> bool" where
  "reads_numbers E \<longleftrightarrow> (\<forall>n < 2 ^ 32. ToULong E (dec n) = Some n)"

lemma read_field_fmt:
  "\<lbrakk>reads_numbers E; n < 2 ^ 32\<rbrakk> \<Longrightarrow> read_field E (fmt_u n) old err = (n, [])"
  by (simp add: read_field_def reads_numbers_def fmt_u_def)


definition conn_env_digits :: conn_env where
  "conn_env_digits = \<lparr>ToULong = (\<lambda>s. if s \<noteq> [] \<and> (\<forall>c\<in>set s. is_digit c) then Some (undec s) else None),
     cnnctResult = 5, unknownHost = 5\<rparr>"

definition dlg_settings_example :: conn_settings where
  "dlg_settings_example = \<lparr>se_host = ''localhost'', se_port = 2000, se_timeOut = 30, se_cnnctTimeOut = 20,
     se_srvCnnctnCntDown = 60\<rparr>"


text \<open>
  A port that is no number: the two boxes, no attempt, and the address is
  already that of the application.
\<close>

lemma bad_port_no_attempt:
  assumes "reads_numbers E" "ToULong E pno = None" "se_timeOut st < 2 ^ 32" "se_srvCnnctnCntDown st < 2 ^ 32"
    and "c = conn_do E modal (EvtButton connectID) (edit_port E pno (ConnectToServerDialog_new linux st))"
  shows "CnnctToSrvAndGetSMARTvals \<notin> set (cd_calls c) \<and> cd_port c = se_port st"
  using assms(2-4)
  by (simp add: assms(5) conn_do_def conn_event_table_def edit_port_def ConnectToServerDialog_new_def
      conn_buildUI_def OnSrvAddrChange_def OnConnect_def read_field_fmt [OF assms(1)] read_field_def [of E pno]
      calls_def Let_def)

text \<open>The mark of an unknown host is removed when the address is edited; its tool tip does not return.\<close>

lemma edit_clears_mark: "\<not> cd_addrRed (edit_address E text c) \<and> cd_addrTip (edit_address E text c) = []"
  by (simp add: edit_address_def conn_do_def conn_event_table_def OnSrvAddrChange_def)

text \<open>The destructor leaves the timer for the next attempt running; closing the dialog stops both.\<close>

lemma destructor_leaves_attempt_timer: "cd_attemptTimer (ConnectToServerDialog_end c) = cd_attemptTimer c"
  by (simp add: ConnectToServerDialog_end_def)

lemma close_stops_timers:
  "\<not> cd_attemptTimer (conn_do E modal EvtClose c) \<and> \<not> cd_timeoutTimer (conn_do E modal EvtClose c)"
  by (simp add: conn_do_def conn_event_table_def conn_OnCloseWindow_def End_dialog_def calls_def)

end
