(* ===== verification/Curses.thy ===== *)
theory Curses
  imports ClientUI AttrView TimeFmt
begin

text \<open>
  \<open>curses/NcursesUI.cpp\<close>, \<open>curses/MainWindow.cpp\<close> and
  \<open>curses/ConnectToServerDialog.cpp\<close>: the user interface in a terminal.

  The curses library, and the classes for menus, message boxes and the event
  queue that are kept in other repositories, are parameters: every call is a
  value of \<open>curses_call\<close>, and the environment says what a call does to the
  terminal (\<open>eff\<close>) and which character is seen at a position of the window with
  the table (\<open>look\<close>). The names, widths and positions of the columns are the five
  of \<open>client/SMARTmonitorClient.cpp\<close>; a number of a column behind them, as the
  tables of wxWidgets have it, is a read outside of the array, which the
  statements exclude. The ratings and states this user interface was written
  against and that the client no longer has are data types here. Line numbers
  are natural numbers: they grow by one per attribute.
\<close>

datatype SMARTvalueRating = noCriticalValue | SMARTvalueOK | SMARTvalueWarning

datatype curses_state = connectedToService | unconnectedFromService

datatype curses_window = MenuBar | BodyWindow | StatusBar | MessageWindow

datatype curses_color = COLOR_BLACK | COLOR_RED | COLOR_GREEN | COLOR_BLUE | COLOR_CYAN | COLOR_WHITE

datatype curses_call =
    Initscr | Cbreak | Noecho | Curs_set nat | Nodelay bool | Halfdelay nat | Keypad bool | Scrollok bool
  | Start_color | Init_pair nat curses_color curses_color
  | Newwin curses_window int int int int | Wresize curses_window int int | Delwin curses_window | Touchwin curses_window
  | Wattrset curses_window nat | Wbkgd curses_window nat | ColorBox curses_window nat nat | Setcolor curses_window nat
  | Mvwaddstr curses_window nat nat string | Mvwaddnstr curses_window nat nat string nat
  | Mvwprintw curses_window nat nat string | Wrefresh curses_window | Endwin
  | Box_ShowMessage nat nat string curses_window
  | Dlg_SetSocketFileDescriptor int | Dlg_EventLoop | Dlg_Close
  | Dlg_BuildUserInterface string curses_window | Dlg_CreateCenteredButton string
  | Close_fd int | Dlg_Destroy

datatype queued = UpdateSMARTvaluesUI_ev | SuccessfullyConnectedToServer_ev

definition s_maxNumCharsNeededForDisplay :: "nat list" where
  "s_maxNumCharsNeededForDisplay = [3, 30, 15, 20, 40]"

definition s_charPosOAttrNameBegin :: "nat list" where
  "s_charPosOAttrNameBegin = [0, 3, 33, 48, 68]"

definition s_columnAttributeNames :: "string list" where
  "s_columnAttributeNames = [''ID'', ''name'', ''raw'', ''human readable'', ''last update'']"

record 'w curses_env =
  eff :: "curses_call \<Rightarrow> 'w \<Rightarrow> 'w"
  look :: "'w \<Rightarrow> nat \<Rightarrow> nat \<Rightarrow> char option"
  maxx_body :: "'w \<Rightarrow> int"
  maxy_body :: "'w \<Rightarrow> int"
  COLS :: "'w \<Rightarrow> int"
  LINES :: "'w \<Rightarrow> int"
  no_attr_bits :: "nat \<Rightarrow> nat"
  attr_bits :: "nat \<Rightarrow> nat"
  EDITBOXCOLOR :: nat
  has_colors :: bool

record 'w tui =
  m_lastLineNumber :: nat
  attributeID2LineMapping :: "attr_id \<rightharpoonup> nat"
  terminal :: 'w
  eventQueue :: "queued list"

definition do_call :: "'w curses_env \<Rightarrow> curses_call \<Rightarrow> 'w tui \<Rightarrow> 'w tui" where
  "do_call E c t = t\<lparr>terminal := eff E c (terminal t)\<rparr>"

definition do_calls :: "'w curses_env \<Rightarrow> curses_call list \<Rightarrow> 'w tui \<Rightarrow> 'w tui" where
  "do_calls E cs t = fold (do_call E) cs t"

section \<open>Colours\<close>

definition BODY_WINDOW_COLOR :: nat where "BODY_WINDOW_COLOR = 6"
definition BUTTON_COLOR :: nat where "BUTTON_COLOR = 5"
definition STATUS_BAR_COLOR :: nat where "STATUS_BAR_COLOR = 3"
definition SMART_ATTRIBUTE_COLOR :: nat where "SMART_ATTRIBUTE_COLOR = 1"
definition ATTR_INVERTED_COLOR :: nat where "ATTR_INVERTED_COLOR = 2"
definition GREEN_ON_BLACK :: nat where "GREEN_ON_BLACK = 7"
definition BLACK_ON_GREEN :: nat where "BLACK_ON_GREEN = 8"
definition RED_ON_BLACK :: nat where "RED_ON_BLACK = 9"

lemmas color_defs = BODY_WINDOW_COLOR_def BUTTON_COLOR_def STATUS_BAR_COLOR_def
  SMART_ATTRIBUTE_COLOR_def ATTR_INVERTED_COLOR_def GREEN_ON_BLACK_def BLACK_ON_GREEN_def
  RED_ON_BLACK_def

definition initColor :: "'w curses_env \<Rightarrow> curses_call list" where
  "initColor E =
     (if has_colors E then [Start_color] else []) @
     [Init_pair (no_attr_bits E BODY_WINDOW_COLOR) COLOR_WHITE COLOR_BLUE,
      Init_pair (no_attr_bits E STATUS_BAR_COLOR) COLOR_WHITE COLOR_CYAN,
      Init_pair (no_attr_bits E (EDITBOXCOLOR E)) COLOR_WHITE COLOR_BLACK,
      Init_pair (no_attr_bits E SMART_ATTRIBUTE_COLOR) COLOR_WHITE COLOR_BLACK,
      Init_pair (no_attr_bits E ATTR_INVERTED_COLOR) COLOR_BLACK COLOR_WHITE,
      Init_pair (no_attr_bits E GREEN_ON_BLACK) COLOR_RED COLOR_WHITE,
      Init_pair (no_attr_bits E GREEN_ON_BLACK) COLOR_GREEN COLOR_BLACK,
      Init_pair (no_attr_bits E BLACK_ON_GREEN) COLOR_BLACK COLOR_GREEN,
      Init_pair (no_attr_bits E BUTTON_COLOR) COLOR_WHITE COLOR_RED]"

text \<open>The \<open>switch\<close> of \<open>SetAttribute\<close>; every second column is inverted.\<close>

definition rating_color :: "SMARTvalueRating \<Rightarrow> nat \<Rightarrow> nat" where
  "rating_color r col =
     (case r of
        noCriticalValue \<Rightarrow> if col mod 2 = 0 then SMART_ATTRIBUTE_COLOR else ATTR_INVERTED_COLOR
      | SMARTvalueOK \<Rightarrow> if col mod 2 = 0 then GREEN_ON_BLACK else BLACK_ON_GREEN
      | SMARTvalueWarning \<Rightarrow> if col mod 2 = 0 then SMART_ATTRIBUTE_COLOR else ATTR_INVERTED_COLOR)"

section \<open>The table\<close>

definition line_for :: "attr_id \<Rightarrow> 'w tui \<Rightarrow> nat \<times> 'w tui" where
  "line_for i t =
     (case attributeID2LineMapping t i of
        Some n \<Rightarrow> (n, t)
      | None \<Rightarrow> (m_lastLineNumber t,
          t\<lparr>attributeID2LineMapping := (attributeID2LineMapping t)(i \<mapsto> m_lastLineNumber t),
            m_lastLineNumber := m_lastLineNumber t + 1\<rparr>))"

definition curses_SetAttribute :: "'w curses_env \<Rightarrow> attr_id \<Rightarrow> nat \<Rightarrow> string \<Rightarrow> SMARTvalueRating
    \<Rightarrow> 'w tui \<Rightarrow> 'w tui" where
  "curses_SetAttribute E i col s r t =
     (let t1 = do_call E (Setcolor BodyWindow (rating_color r col)) t;
          maxx = maxx_body E (terminal t1);
          (n, t2) = line_for i t1;
          pos = s_charPosOAttrNameBegin ! col;
          t3 = (if int pos < maxx
                then do_call E (Mvwaddnstr BodyWindow n pos (cstr s) (nat (maxx - int pos))) t2 else t2)
      in do_call E (Wrefresh BodyWindow) t3)"

text \<open>Every drive is written to the same place.\<close>

definition curses_drive_text :: "SMARTuniqueID \<Rightarrow> string" where
  "curses_drive_text u = ''model:'' @ cstr (modelName u) @ '' firmware:'' @ cstr (firmWareName u)
     @ '' serial:'' @ cstr (serialNumber u)"

definition curses_SetSMARTdriveID :: "'w curses_env \<Rightarrow> SMARTuniqueID list \<Rightarrow> 'w tui \<Rightarrow> 'w tui" where
  "curses_SetSMARTdriveID E us = do_calls E
     (concat (map (\<lambda>u. [Mvwaddstr BodyWindow 0 0 (curses_drive_text u), Wrefresh BodyWindow]) us))"

fun header_calls :: "nat \<Rightarrow> string list \<Rightarrow> nat list \<Rightarrow> curses_call list" where
  "header_calls column (name # names) (w # ws) =
     Mvwaddstr BodyWindow 1 column name # header_calls (column + w) names ws"
| "header_calls column names ws = []"

text \<open>The headings stand where the values of their columns begin.\<close>

lemma headings_over_values:
  "header_calls 0 s_columnAttributeNames s_maxNumCharsNeededForDisplay =
     map2 (\<lambda>pos name. Mvwaddstr BodyWindow 1 pos name) s_charPosOAttrNameBegin s_columnAttributeNames"
  by (simp add: s_columnAttributeNames_def s_maxNumCharsNeededForDisplay_def s_charPosOAttrNameBegin_def)

text \<open>The calls of \<open>SetAttribute\<close> the base class makes for the labels, which rate nothing.\<close>

definition label_cells :: "ui_call list \<Rightarrow> SMARTvalueRating cell list" where
  "label_cells calls = concat (map (\<lambda>c. case c of
       SetAttribute u i (Some col) s r \<Rightarrow> [(i, col, s, noCriticalValue)] | _ \<Rightarrow> []) calls)"

fun curses_cells :: "'w curses_env \<Rightarrow> SMARTvalueRating cell list \<Rightarrow> 'w tui \<Rightarrow> 'w tui" where
  "curses_cells E [] t = t"
| "curses_cells E ((i, col, s, r) # cs) t = curses_cells E cs (curses_SetAttribute E i col s r t)"

definition curses_ReBuildUserInterface :: "'w curses_env \<Rightarrow> SMARTuniqueID list
    \<Rightarrow> SMARTvalueRating cell list \<Rightarrow> 'w tui \<Rightarrow> 'w tui" where
  "curses_ReBuildUserInterface E us labels t =
     (let t1 = curses_SetSMARTdriveID E us t;
          t2 = do_calls E (header_calls 0 s_columnAttributeNames s_maxNumCharsNeededForDisplay) t1;
          t3 = curses_cells E labels (t2\<lparr>m_lastLineNumber := 2\<rparr>)
      in do_call E (Wrefresh BodyWindow) (t3\<lparr>m_lastLineNumber := 2\<rparr>))"

definition LayoutUserInterface :: "'w curses_env \<Rightarrow> 'w tui \<Rightarrow> 'w tui" where
  "LayoutUserInterface E t =
     (let cols = COLS E (terminal t); lns = LINES E (terminal t)
      in do_calls E [Wresize MenuBar 1 cols, Wresize BodyWindow (lns - 1) cols,
           ColorBox BodyWindow BODY_WINDOW_COLOR 1, Wrefresh BodyWindow] t)"

text \<open>
  \<open>MainWindow::HandleAction\<close>: what it returns, and the window laid out anew if
  the terminal was resized; \<open>vals\<close> are the cells \<open>UpdateSMARTvaluesUI\<close> sets.
\<close>

definition HandleAction :: "'w curses_env \<Rightarrow> int \<Rightarrow> int \<Rightarrow> SMARTuniqueID list \<Rightarrow> SMARTvalueRating cell list
    \<Rightarrow> SMARTvalueRating cell list \<Rightarrow> int \<Rightarrow> 'w tui \<Rightarrow> int \<times> 'w tui" where
  "HandleAction E KEY_RESIZE inputNotHandled us labels vals ch t =
     (if ch = KEY_RESIZE
      then (- 2, curses_cells E vals (curses_ReBuildUserInterface E us labels (LayoutUserInterface E t)))
      else (inputNotHandled, t))"

section \<open>What is seen\<close>

text \<open>
  What the curses documentation promises of the calls \<open>SetAttribute\<close> makes:
  a text of printable characters appears from the given position on, cut after
  the given number of characters, if the line exists; nothing else changes.
\<close>

definition printable :: "string \<Rightarrow> bool" where
  "printable s \<longleftrightarrow> (\<forall>c\<in>set s. 32 \<le> (of_char c :: nat) \<and> (of_char c :: nat) < 127)"

definition curses_ok :: "'w curses_env \<Rightarrow> bool" where
  "curses_ok E \<longleftrightarrow>
     (\<forall>w y x s n y' x'. printable s \<longrightarrow> int x + int n \<le> maxx_body E w \<longrightarrow>
        look E (eff E (Mvwaddnstr BodyWindow y x s n) w) y' x' =
          (if y' = y \<and> int y < maxy_body E w \<and> x \<le> x' \<and> x' < x + min (length s) n
           then Some (s ! (x' - x)) else look E w y' x'))
   \<and> (\<forall>w c. look E (eff E (Setcolor BodyWindow c) w) = look E w)
   \<and> (\<forall>w. look E (eff E (Wrefresh BodyWindow) w) = look E w)
   \<and> (\<forall>w c. c \<in> range (Setcolor BodyWindow) \<union> {Wrefresh BodyWindow}
          \<union> {Mvwaddnstr BodyWindow y x s n | y x s n. True} \<longrightarrow>
        maxx_body E (eff E c w) = maxx_body E w \<and> maxy_body E (eff E c w) = maxy_body E w)"

lemma printable_cstr [simp]: "printable s \<Longrightarrow> cstr s = s"
  by (rule cstr_no_NUL) (auto simp: printable_def NUL_def)

text \<open>A text that ends before the next column begins.\<close>

definition fits :: "nat \<Rightarrow> string \<Rightarrow> bool" where
  "fits c v \<longleftrightarrow> c < length s_charPosOAttrNameBegin \<and> printable v
     \<and> (\<forall>d<length s_charPosOAttrNameBegin. d \<noteq> c \<longrightarrow> s_charPosOAttrNameBegin ! d < s_charPosOAttrNameBegin ! c
          \<or> s_charPosOAttrNameBegin ! c + length v \<le> s_charPosOAttrNameBegin ! d)"

text \<open>The part of the text that the window has room for is seen in the attribute's line.\<close>

definition curses_seen :: "'w curses_env \<Rightarrow> 'w tui \<Rightarrow> attr_id \<Rightarrow> nat \<Rightarrow> string \<Rightarrow> bool" where
  "curses_seen E t i c v \<longleftrightarrow> fits c v \<and>
     (\<exists>n. attributeID2LineMapping t i = Some n
       \<and> (int n < maxy_body E (terminal t) \<longrightarrow>
            (\<forall>k<length v. int (s_charPosOAttrNameBegin ! c + k) < maxx_body E (terminal t) \<longrightarrow>
               look E (terminal t) n (s_charPosOAttrNameBegin ! c + k) = Some (v ! k))))"

text \<open>
  No two attributes share a line, and an attribute of the set has a line or will
  get one behind the others.
\<close>

definition lines_ok :: "attr_id set \<Rightarrow> 'w tui \<Rightarrow> bool" where
  "lines_ok A t \<longleftrightarrow> inj_on (attributeID2LineMapping t) (dom (attributeID2LineMapping t))
     \<and> (A \<subseteq> dom (attributeID2LineMapping t)
        \<or> (\<forall>n\<in>ran (attributeID2LineMapping t). n < m_lastLineNumber t))"

lemma lines_ok_empty [simp]: "attributeID2LineMapping t = Map.empty \<Longrightarrow> lines_ok A t"
  by (simp add: lines_ok_def)

lemma line_for_ok: "\<lbrakk>lines_ok A t; i \<in> A\<rbrakk> \<Longrightarrow> lines_ok A (snd (line_for i t))"
  unfolding lines_ok_def line_for_def
  by (auto simp: inj_on_def ran_def dom_def split: option.splits if_splits)

lemma line_for_simps [simp]:
  "attributeID2LineMapping (snd (line_for i t)) = (attributeID2LineMapping t)(i \<mapsto> fst (line_for i t))"
  "terminal (snd (line_for i t)) = terminal t"
  "eventQueue (snd (line_for i t)) = eventQueue t"
  by (auto simp: line_for_def split: option.splits)

lemma line_for_terminal [simp]:
  "line_for i (t\<lparr>terminal := w\<rparr>) = (fst (line_for i t), (snd (line_for i t))\<lparr>terminal := w\<rparr>)"
  by (auto simp: line_for_def split: option.splits)

lemma lines_ok_terminal [simp]: "lines_ok A (t\<lparr>terminal := w\<rparr>) = lines_ok A t"
  by (simp add: lines_ok_def)

lemma SetAttribute_lines:
  "attributeID2LineMapping (curses_SetAttribute E i c v r t)
     = (attributeID2LineMapping t)(i \<mapsto> fst (line_for i t))"
  "m_lastLineNumber (curses_SetAttribute E i c v r t) = m_lastLineNumber (snd (line_for i t))"
  "\<lbrakk>lines_ok A t; i \<in> A\<rbrakk> \<Longrightarrow> lines_ok A (curses_SetAttribute E i c v r t)"
  by (auto simp: curses_SetAttribute_def do_call_def Let_def line_for_ok split: prod.splits)

lemma SetAttribute_look:
  assumes "curses_ok E" "printable v"
  shows "look E (terminal (curses_SetAttribute E i c v r t)) y x =
      (if y = fst (line_for i t) \<and> int y < maxy_body E (terminal t) \<and> s_charPosOAttrNameBegin ! c \<le> x
          \<and> x < s_charPosOAttrNameBegin ! c + length v \<and> int x < maxx_body E (terminal t)
       then Some (v ! (x - s_charPosOAttrNameBegin ! c)) else look E (terminal t) y x)"
    and "maxx_body E (terminal (curses_SetAttribute E i c v r t)) = maxx_body E (terminal t)"
    and "maxy_body E (terminal (curses_SetAttribute E i c v r t)) = maxy_body E (terminal t)"
  using assms
  by (auto simp: curses_SetAttribute_def do_call_def Let_def curses_ok_def)

lemma lines_ok_distinct:
  "\<lbrakk>lines_ok A t; i \<in> A; attributeID2LineMapping t j = Some n; fst (line_for i t) = n\<rbrakk> \<Longrightarrow> j = i"
  by (auto simp: lines_ok_def line_for_def inj_on_def ran_def dom_def split: option.splits)

interpretation curses: attr_view "\<lambda>i c v r t. Some (curses_SetAttribute E i c v r t)" "curses_seen E"
    "\<lambda>t. curses_ok E \<and> lines_ok A t" "\<lambda>i c v r. i \<in> A \<and> fits c v"
  for E :: "'w curses_env" and A
proof
  fix t t' :: "'w tui" and i c v r
  assume inv: "curses_ok E \<and> lines_ok A t" and ok: "i \<in> A \<and> fits c v"
  show "\<exists>t'. Some (curses_SetAttribute E i c v r t) = Some t'" by simp
  assume "Some (curses_SetAttribute E i c v r t) = Some t'"
  then have t': "t' = curses_SetAttribute E i c v r t" by simp
  have p: "printable v" using ok by (simp add: fits_def)
  note look = SetAttribute_look [OF conjunct1 [OF inv] p, of i c r t, folded t']
  note lines = SetAttribute_lines [where E = E and i = i and c = c and v = v and r = r and t = t, folded t']
  show "curses_ok E \<and> lines_ok A t'" using inv lines(3) ok by simp
  show "curses_seen E t' i c v"
    using ok by (auto simp: curses_seen_def lines look)
  fix j d u assume ne: "(j, d) \<noteq> (i, c)" and seen: "curses_seen E t j d u"
  show "curses_seen E t' j d u"
  proof (cases "j = i")
    case True
    then have "d \<noteq> c" using ne by simp
    then have "s_charPosOAttrNameBegin ! d + length u \<le> s_charPosOAttrNameBegin ! c \<or> s_charPosOAttrNameBegin ! c + length v \<le> s_charPosOAttrNameBegin ! d"
      using ok seen by (fastforce simp: fits_def curses_seen_def)
    then show ?thesis using seen True
      by (auto simp: curses_seen_def lines look line_for_def split: option.splits)
  next
    case False
    then have "attributeID2LineMapping t j = Some n \<Longrightarrow> fst (line_for i t) \<noteq> n" for n
      using lines_ok_distinct inv ok by blast
    then show ?thesis using seen False by (auto simp: curses_seen_def lines look)
  qed
qed

section \<open>The whole window\<close>

lemma curses_cells_set_cells:
  "set_cells (\<lambda>i c v r t. Some (curses_SetAttribute E i c v r t)) cs t = Some (curses_cells E cs t)"
  by (induction cs arbitrary: t) auto

lemma curses_cells_append:
  "curses_cells E (cs @ ds) t = curses_cells E ds (curses_cells E cs t)"
  by (induction cs arbitrary: t) auto

lemma curses_cells_seen:
  assumes "curses_ok E" "lines_ok A t" "\<And>i c v r. (i, c, v, r) \<in> set cs \<Longrightarrow> i \<in> A \<and> fits c v"
  shows "lines_ok A (curses_cells E cs t)"
    and "last_text cs (i, c) = Some v \<Longrightarrow> curses_seen E (curses_cells E cs t) i c v"
    and "\<lbrakk>last_text cs (i, c) = None; curses_seen E t i c v\<rbrakk> \<Longrightarrow> curses_seen E (curses_cells E cs t) i c v"
  using curses.set_cells_seen [of E A t cs] assms by (auto simp: curses_cells_set_cells)

lemma curses_cells_known:
  "fst ` set cs \<subseteq> dom (attributeID2LineMapping t)
   \<Longrightarrow> attributeID2LineMapping (curses_cells E cs t) = attributeID2LineMapping t"
proof (induction cs arbitrary: t)
  case (Cons cell cs)
  obtain i c v r where cell: "cell = (i, c, v, r)" by (cases cell)
  obtain n where "attributeID2LineMapping t i = Some n" using Cons.prems cell by auto
  then have "attributeID2LineMapping (curses_SetAttribute E i c v r t) = attributeID2LineMapping t"
    by (auto simp: SetAttribute_lines line_for_def)
  then show ?case using Cons.IH [of "curses_SetAttribute E i c v r t"] Cons.prems
    by (simp add: cell)
qed simp

definition label_cells_for :: "(attr_id \<Rightarrow> string) \<Rightarrow> attr_id list \<Rightarrow> SMARTvalueRating cell list" where
  "label_cells_for nm ids =
     concat (map (\<lambda>i. [(i, 0, dec i, noCriticalValue), (i, 1, nm i, noCriticalValue)]) ids)"

lemma label_cells_new:
  "\<lbrakk>distinct ids; set ids \<inter> dom (attributeID2LineMapping t) = {}\<rbrakk> \<Longrightarrow>
   attributeID2LineMapping (curses_cells E (label_cells_for nm ids) t)
     = (attributeID2LineMapping t)(ids [\<mapsto>] [m_lastLineNumber t..<m_lastLineNumber t + length ids])"
proof (induction ids arbitrary: t)
  case (Cons i ids)
  let ?t = "curses_SetAttribute E i 1 (nm i) noCriticalValue
     (curses_SetAttribute E i 0 (dec i) noCriticalValue t)"
  have i: "attributeID2LineMapping t i = None" using Cons.prems(2) by auto
  have m: "attributeID2LineMapping ?t = (attributeID2LineMapping t)(i \<mapsto> m_lastLineNumber t)"
      "m_lastLineNumber ?t = m_lastLineNumber t + 1"
    using i by (auto simp: SetAttribute_lines line_for_def)
  have "set ids \<inter> dom (attributeID2LineMapping ?t) = {}" using Cons.prems unfolding m by auto
  then have "attributeID2LineMapping (curses_cells E (label_cells_for nm ids) ?t)
      = (attributeID2LineMapping ?t)(ids [\<mapsto>] [m_lastLineNumber ?t..<m_lastLineNumber ?t + length ids])"
    using Cons.IH [of ?t] Cons.prems by simp
  then show ?case
    unfolding m by (simp add: label_cells_for_def upt_conv_Cons del: upt_Suc)
qed (simp add: label_cells_for_def)

definition drive_name :: "SMARTattrDefAccss \<Rightarrow> SMARTuniqueID \<Rightarrow> attr_id \<Rightarrow> string" where
  "drive_name s u i = cstr (attributeName (getSMARTattrDef i
     (case busType u of NVMe \<Rightarrow> NVMeSMARTattrDefs s | _ \<Rightarrow> SMARTattrDefs s)))"

lemma label_cells_drive:
  assumes "IDsToRead_from h (m_SMARTuniqueID d) 0 = Some ids"
  shows "map_option label_cells (SetSMARTattribIDandNameLabel h s (d # ds))
    = Some (label_cells_for (drive_name s (m_SMARTuniqueID d)) ids)"
proof -
  have "label_cells (concat (map (setIDandLabel s (m_SMARTuniqueID d)) is))
      = label_cells_for (drive_name s (m_SMARTuniqueID d)) is" for "is"
    by (induction "is")
      (simp_all add: label_cells_def label_cells_for_def setIDandLabel_def drive_name_def Let_def split: bus.split)
  then show ?thesis using assms by (simp add: SetSMARTattribIDandNameLabel_def Let_def)
qed

lemma do_calls_simps [simp]:
  "attributeID2LineMapping (do_calls E cs t) = attributeID2LineMapping t"
  "m_lastLineNumber (do_calls E cs t) = m_lastLineNumber t"
  "attributeID2LineMapping (do_call E c t) = attributeID2LineMapping t"
  "m_lastLineNumber (do_call E c t) = m_lastLineNumber t"
proof -
  show "attributeID2LineMapping (do_calls E cs t) = attributeID2LineMapping t"
      "m_lastLineNumber (do_calls E cs t) = m_lastLineNumber t"
    by (induction cs arbitrary: t) (simp_all add: do_calls_def do_call_def)
qed (simp_all add: do_call_def)

lemma ReBuild_lines:
  assumes "distinct ids" "attributeID2LineMapping t = Map.empty \<or> set ids \<subseteq> dom (attributeID2LineMapping t)"
  shows "attributeID2LineMapping (curses_ReBuildUserInterface E us (label_cells_for nm ids) t)
      = (if attributeID2LineMapping t = Map.empty then [ids [\<mapsto>] [2..<2 + length ids]]
         else attributeID2LineMapping t)"
    and "m_lastLineNumber (curses_ReBuildUserInterface E us (label_cells_for nm ids) t) = 2"
proof -
  have "fst ` set (label_cells_for nm ids) = set ids"
    by (induction ids) (auto simp: label_cells_for_def)
  then show "attributeID2LineMapping (curses_ReBuildUserInterface E us (label_cells_for nm ids) t)
      = (if attributeID2LineMapping t = Map.empty then [ids [\<mapsto>] [2..<2 + length ids]]
         else attributeID2LineMapping t)"
    using assms by (auto simp: curses_ReBuildUserInterface_def curses_SetSMARTdriveID_def Let_def
        label_cells_new curses_cells_known)
qed (simp add: curses_ReBuildUserInterface_def Let_def)

lemma last_text_no_label: "i \<notin> set ids \<Longrightarrow> last_text (label_cells_for nm ids) (i, c) = None"
  by (rule last_text_None) (auto simp: label_cells_for_def)

lemma label_cells_Cons: "label_cells_for nm (j # ids) =
    (j, 0, dec j, noCriticalValue) # (j, 1, nm j, noCriticalValue) # label_cells_for nm ids"
  by (simp add: label_cells_for_def)

lemma last_text_labels:
  "i \<in> set ids \<Longrightarrow> last_text (label_cells_for nm ids) (i, 0) = Some (dec i)
     \<and> last_text (label_cells_for nm ids) (i, 1) = Some (nm i)"
proof (induction ids)
  case (Cons j ids)
  then show ?case
    by (cases "i \<in> set ids") (auto simp: label_cells_Cons last_text_Cons last_text_no_label)
qed simp

lemma curses_seen_refresh:
  "curses_ok E \<Longrightarrow> curses_seen E (do_call E (Wrefresh BodyWindow) (t\<lparr>m_lastLineNumber := n\<rparr>)) i c v
     = curses_seen E t i c v"
  by (simp add: curses_seen_def do_call_def curses_ok_def)

lemma ReBuild_seen:
  assumes ok: "curses_ok E" "attributeID2LineMapping t = Map.empty \<or> lines_ok {} t \<and> set ids \<subseteq> dom (attributeID2LineMapping t)"
    and fit: "\<And>i. i \<in> set ids \<Longrightarrow> fits 0 (dec i) \<and> fits 1 (nm i)"
    and last: "last_text (label_cells_for nm ids) (i, c) = Some v"
  shows "curses_seen E (curses_ReBuildUserInterface E us (label_cells_for nm ids) t) i c v"
proof -
  let ?t = "(do_calls E (header_calls 0 s_columnAttributeNames s_maxNumCharsNeededForDisplay)
      (curses_SetSMARTdriveID E us t))\<lparr>m_lastLineNumber := 2\<rparr>"
  have "attributeID2LineMapping ?t = attributeID2LineMapping t"
    by (simp add: curses_SetSMARTdriveID_def)
  then have "lines_ok (set ids) ?t" using ok(2) by (auto simp: lines_ok_def)
  then have "curses_seen E (curses_cells E (label_cells_for nm ids) ?t) i c v"
    using curses_cells_seen(2) [OF ok(1) _ _ last, of "set ids" ?t] fit
    by (auto simp: label_cells_for_def)
  then show ?thesis
    by (simp add: curses_ReBuildUserInterface_def Let_def curses_seen_refresh [OF ok(1)])
qed

lemma new_lines_inj:
  assumes "distinct ids"
  shows "inj_on [ids [\<mapsto>] [2..<2 + length ids]] (dom [ids [\<mapsto>] [2..<2 + length ids]])
    \<and> set ids \<subseteq> dom [ids [\<mapsto>] [2..<2 + length ids]]"
proof -
  define m where "m = [ids [\<mapsto>] [2..<2 + length ids]]"
  have "m (ids ! k) = Some (k + 2)" if "k < length ids" for k
    using map_upds_nth [OF assms that, of "[2..<2 + length ids]" Map.empty] that
    unfolding m_def by (simp del: upt_Suc)
  moreover have "length [2..<2 + length ids] = length ids" by (simp only: length_upt)
  then have "dom m = set ids"
    unfolding m_def dom_map_upds by (simp only: take_all_iff le_refl dom_empty Un_empty_right take_all)
  ultimately have "inj_on m (dom m) \<and> set ids \<subseteq> dom m"
    by (auto simp: inj_on_def in_set_conv_nth)
  then show ?thesis unfolding m_def .
qed

text \<open>
  C13: When the terminal is resized, the window is built anew and the values are
  set again. If no attribute had a line before, or every attribute to read of the
  first drive had one and no two shared one, then each of these attributes has a
  line of its own: from the third on in the order of the attributes, or the line
  it had; in it are seen the ID, the name and the values set last, as far as the
  window reaches. The names and values are printable and short enough for their
  columns, and values are set in the five columns this interface has: for a
  greater number of a column, as the client uses it for ATA drives, the code
  reads behind its array of positions.
\<close>

theorem resized_window_shows_drive:
  assumes "curses_ok E" "IDsToRead_from h (m_SMARTuniqueID d) 0 = Some ids" "distinct ids"
    and "SetSMARTattribIDandNameLabel h s (d # ds) = Some calls"
    and "attributeID2LineMapping t = Map.empty \<or> lines_ok {} t \<and> set ids \<subseteq> dom (attributeID2LineMapping t)"
    and "\<And>i. i \<in> set ids \<Longrightarrow> fits 0 (dec i) \<and> fits 1 (drive_name s (m_SMARTuniqueID d) i)"
    and "\<And>i c v r. (i, c, v, r) \<in> set vals \<Longrightarrow> i \<in> set ids \<and> 1 < c \<and> fits c v"
  shows "\<exists>t'. HandleAction E key nh us (label_cells calls) vals key t = (- 2, t')
    \<and> attributeID2LineMapping t' = (if attributeID2LineMapping t = Map.empty
         then [ids [\<mapsto>] [2..<2 + length ids]] else attributeID2LineMapping t)
    \<and> inj_on (attributeID2LineMapping t') (set ids)
    \<and> (\<forall>i\<in>set ids. curses_seen E t' i 0 (dec i)
         \<and> curses_seen E t' i 1 (drive_name s (m_SMARTuniqueID d) i)
         \<and> (\<forall>c v. last_text vals (i, c) = Some v \<longrightarrow> curses_seen E t' i c v))"
proof -
  let ?nm = "drive_name s (m_SMARTuniqueID d)"
  have calls: "label_cells calls = label_cells_for ?nm ids"
    using label_cells_drive [OF assms(2), of s ds] assms(4) by simp
  define t1 where "t1 = curses_ReBuildUserInterface E us (label_cells calls) (LayoutUserInterface E t)"
  have lay: "attributeID2LineMapping (LayoutUserInterface E t) = attributeID2LineMapping t"
      "lines_ok {} (LayoutUserInterface E t) = lines_ok {} t"
    by (simp_all add: LayoutUserInterface_def lines_ok_def Let_def)
  have m1: "attributeID2LineMapping t1 = (if attributeID2LineMapping t = Map.empty
       then [ids [\<mapsto>] [2..<2 + length ids]] else attributeID2LineMapping t)"
    unfolding t1_def calls lay(1) [symmetric]
    by (rule ReBuild_lines(1) [OF assms(3)]) (use assms(5) lay in auto)
  have inj: "inj_on (attributeID2LineMapping t1) (dom (attributeID2LineMapping t1))
      \<and> set ids \<subseteq> dom (attributeID2LineMapping t1)"
    unfolding m1 using new_lines_inj [OF assms(3)] assms(5)
    by (cases "attributeID2LineMapping t = Map.empty") (simp_all add: lines_ok_def del: upt_Suc)
  have known: "lines_ok (set ids) t1" using inj by (simp add: lines_ok_def)
  have vals: "\<And>i c v r. (i, c, v, r) \<in> set vals \<Longrightarrow> i \<in> set ids \<and> fits c v"
    using assms(7) by blast
  have "fst ` set vals \<subseteq> dom (attributeID2LineMapping t1)" using inj vals by fastforce
  then have m2: "attributeID2LineMapping (curses_cells E vals t1) = attributeID2LineMapping t1"
    by (rule curses_cells_known)
  have labels: "curses_seen E t1 i c v" if "last_text (label_cells_for ?nm ids) (i, c) = Some v" for i c v
    unfolding t1_def calls
    by (rule ReBuild_seen [OF assms(1) _ assms(6) that]) (use assms(5) lay in auto)
  have none: "last_text vals (i, c) = None" if "c \<le> 1" for i c
    using assms(7) that by (intro last_text_None) fastforce
  have "\<forall>i\<in>set ids. curses_seen E (curses_cells E vals t1) i 0 (dec i)
      \<and> curses_seen E (curses_cells E vals t1) i 1 (?nm i)
      \<and> (\<forall>c v. last_text vals (i, c) = Some v \<longrightarrow> curses_seen E (curses_cells E vals t1) i c v)"
    using curses_cells_seen(2,3) [OF assms(1) known vals] labels none last_text_labels [of _ ids ?nm]
    by simp
  then show ?thesis
    using m1 m2 inj by (intro exI [of _ "curses_cells E vals t1"])
      (auto simp: HandleAction_def t1_def intro: inj_on_subset)
qed

definition curses_example :: "(nat \<Rightarrow> nat \<Rightarrow> char option) curses_env" where
  "curses_example = \<lparr>eff = (\<lambda>c w. case c of
       Mvwaddnstr BodyWindow y x s n \<Rightarrow> (\<lambda>y' x'. if y' = y \<and> y < 24 \<and> x \<le> x' \<and> x' < x + min (length s) n
         then Some (s ! (x' - x)) else w y' x')
     | _ \<Rightarrow> w), look = (\<lambda>w. w), maxx_body = (\<lambda>_. 80), maxy_body = (\<lambda>_. 24), COLS = (\<lambda>_. 80),
     LINES = (\<lambda>_. 25), no_attr_bits = (\<lambda>n. n), attr_bits = (\<lambda>_. 0), EDITBOXCOLOR = 4,
     has_colors = True\<rparr>"

lemma curses_example_ok: "curses_ok curses_example"
  by (auto simp: curses_ok_def curses_example_def fun_eq_iff)

definition tui_example :: "(nat \<Rightarrow> nat \<Rightarrow> char option) tui" where
  "tui_example = \<lparr>m_lastLineNumber = 0, attributeID2LineMapping = Map.empty,
     terminal = (\<lambda>_ _. None), eventQueue = []\<rparr>"

definition curses_drive_example :: "64 word SMARTuniqueIDandValues" where
  "curses_drive_example = ui_drive_example\<lparr>m_SMARTuniqueID := blank_uid\<lparr>SMART_IDsToRd := [5, 194, 0]\<rparr>\<rparr>"

lemma curses_drive_example_ids:
  "IDsToRead_from std_sizes (m_SMARTuniqueID curses_drive_example) 0 = Some [5, 194]"
  by (subst IDsToRead_id_list) (simp_all add: curses_drive_example_def std_sizes_def id_list_def)

lemma fits_example:
  "fits 0 (dec 5)" "fits 0 (dec 194)" "fits 1 ''old''"
  "fits 2 ''30''"
proof -
  have dec: "dec 5 = ''5''" "dec 194 = ''194''" by code_simp+
  show "fits 0 (dec 5)" "fits 0 (dec 194)"
      "fits 1 ''old''" "fits 2 ''30''"
    unfolding dec by (auto simp: fits_def s_charPosOAttrNameBegin_def printable_def All_less_Suc)
qed

theorem resized_window_shows_drive_witness:
  "\<exists>t' calls. SetSMARTattribIDandNameLabel std_sizes defs_example [curses_drive_example] = Some calls
    \<and> HandleAction curses_example 410 (- 1) [] (label_cells calls)
      [(194, 2, ''30'', SMARTvalueOK)] 410 tui_example = (- 2, t')
    \<and> attributeID2LineMapping t' 194 = Some 3
    \<and> look curses_example (terminal t') 3 33 = Some (CHR ''3'')"
proof -
  let ?vals = "[(194, 2, ''30'', SMARTvalueOK)]"
  obtain calls where calls: "SetSMARTattribIDandNameLabel std_sizes defs_example [curses_drive_example] = Some calls"
    using curses_drive_example_ids by (auto simp: SetSMARTattribIDandNameLabel_def Let_def)
  have nm: "drive_name defs_example (m_SMARTuniqueID curses_drive_example) i = ''old''" for i
    by (simp add: drive_name_def curses_drive_example_def blank_uid_def initAttrVals_def defs_example_def
        getSMARTattrDef_def SMARTattrDef_new_def NUL_def)
  have fit: "fits 0 (dec i) \<and> fits 1
      (drive_name defs_example (m_SMARTuniqueID curses_drive_example) i)" if "i \<in> set [5, 194]" for i
    using that fits_example nm by auto
  have "\<exists>t'. HandleAction curses_example 410 (- 1) [] (label_cells calls) ?vals 410 tui_example = (- 2, t')
    \<and> attributeID2LineMapping t' = (if attributeID2LineMapping tui_example = Map.empty
         then [[5, 194] [\<mapsto>] [2..<2 + length [5 :: nat, 194]]] else attributeID2LineMapping tui_example)
    \<and> inj_on (attributeID2LineMapping t') (set [5, 194])
    \<and> (\<forall>i\<in>set [5, 194]. curses_seen curses_example t' i 0 (dec i)
         \<and> curses_seen curses_example t' i 1 (drive_name defs_example (m_SMARTuniqueID curses_drive_example) i)
         \<and> (\<forall>c v. last_text ?vals (i, c) = Some v \<longrightarrow> curses_seen curses_example t' i c v))"
    by (rule resized_window_shows_drive [OF curses_example_ok curses_drive_example_ids _ calls _ fit])
      (use fits_example in \<open>auto simp: tui_example_def\<close>)
  then obtain t' where t': "HandleAction curses_example 410 (- 1) [] (label_cells calls) ?vals 410 tui_example = (- 2, t')"
      "attributeID2LineMapping t' = [[5, 194] [\<mapsto>] [2..<2 + length [5 :: nat, 194]]]"
      "last_text ?vals (194, 2) = Some ''30'' \<longrightarrow> curses_seen curses_example t' 194 2 ''30''"
    by (auto simp: tui_example_def)
  then have "attributeID2LineMapping t' 194 = Some 3" by (simp add: upt_rec)
  moreover have "curses_seen curses_example t' 194 2 ''30''"
    using t'(3) by (simp add: last_text_def)
  ultimately have "look curses_example (terminal t') 3 33 = Some (CHR ''3'')"
    by (auto simp: curses_seen_def curses_example_def s_charPosOAttrNameBegin_def)
  then show ?thesis using calls t'(1) \<open>attributeID2LineMapping t' 194 = Some 3\<close> by auto
qed

text \<open>
  Numbers behind the first build: the next line is the third again, so that an
  attribute not seen before shares it with the first one and is written over it.
\<close>

theorem new_attribute_overwrites_first:
  assumes "curses_ok E" "attributeID2LineMapping t = Map.empty" "distinct (i # ids)" "j \<notin> set (i # ids)"
    and t': "t' = curses_ReBuildUserInterface E us (label_cells_for nm (i # ids)) t"
    and v: "printable v" "k < length v" "int (s_charPosOAttrNameBegin ! c + k) < maxx_body E (terminal t')"
      "2 < maxy_body E (terminal t')"
  shows "attributeID2LineMapping (curses_SetAttribute E j c v r t') j = Some 2
    \<and> attributeID2LineMapping (curses_SetAttribute E j c v r t') i = Some 2
    \<and> look E (terminal (curses_SetAttribute E j c v r t')) 2 (s_charPosOAttrNameBegin ! c + k) = Some (v ! k)"
proof -
  have m: "attributeID2LineMapping t' = [(i # ids) [\<mapsto>] [2..<2 + length (i # ids)]]"
    unfolding t' by (subst ReBuild_lines(1)) (use assms(2,3) in simp_all)
  have l: "m_lastLineNumber t' = 2" unfolding t' by (rule ReBuild_lines(2)) (use assms(2,3) in simp_all)
  have "attributeID2LineMapping t' j = None"
    unfolding m by (rule map_upds_apply_nontin [OF assms(4), THEN trans]) simp
  then have n: "fst (line_for j t') = 2" by (simp add: line_for_def l)
  have "attributeID2LineMapping t' i = Some 2"
    using map_upds_nth [OF assms(3), of 0 "[2..<2 + length (i # ids)]" Map.empty] unfolding m
    by (simp del: upt_Suc)
  then show ?thesis
    using n v assms(4) by (auto simp: SetAttribute_lines SetAttribute_look [OF assms(1) v(1)])
qed

theorem new_attribute_overwrites_first_witness:
  "\<exists>t'. t' = curses_ReBuildUserInterface curses_example [] (label_cells_for (\<lambda>_. ''old'') [5, 194]) tui_example
    \<and> attributeID2LineMapping (curses_SetAttribute curses_example 9 1 ''new'' noCriticalValue t') 5
      = attributeID2LineMapping (curses_SetAttribute curses_example 9 1 ''new'' noCriticalValue t') 9
    \<and> look curses_example (terminal (curses_SetAttribute curses_example 9 1 ''new'' noCriticalValue t')) 2 3
      = Some (CHR ''n'')"
  using new_attribute_overwrites_first [OF curses_example_ok _ _ _ refl, of tui_example 5 "[194]" 9
      "''new''" 0 1 "[]" "\<lambda>_. ''old''" noCriticalValue]
  by (simp add: tui_example_def printable_def s_charPosOAttrNameBegin_def) (simp add: curses_example_def)

text \<open>What a longer text left behind the end of a shorter one stays.\<close>

lemma shorter_text_leaves_rest:
  assumes "curses_ok E" "printable v" "length v \<le> k"
  shows "look E (terminal (curses_SetAttribute E i c v r t)) y (s_charPosOAttrNameBegin ! c + k)
    = look E (terminal t) y (s_charPosOAttrNameBegin ! c + k)"
  using assms by (simp add: SetAttribute_look)

text \<open>The colour of a warning is that of a value that is not critical.\<close>

lemma warning_not_highlighted: "rating_color SMARTvalueWarning col = rating_color noCriticalValue col"
  by (simp add: rating_color_def)

end
