(* ===== verification/CursesDialog.thy ===== *)
theory CursesDialog
  imports Curses
begin

text \<open>
  \<open>curses/NcursesUI.cpp\<close> and \<open>curses/ConnectToServerDialog.cpp\<close>: the windows,
  menus and dialogs of the terminal user interface and its start.

  The keys that are read, and the moments another thread closes a window, are
  parameters; a loop over them may run for ever, which is the value None.
\<close>

section \<open>The dialog while connecting\<close>

definition Dlg_ShowMessage :: "string \<Rightarrow> curses_window \<Rightarrow> curses_call list" where
  "Dlg_ShowMessage message win =
     [Dlg_BuildUserInterface message win, Dlg_CreateCenteredButton ''cancel connecting to service'',
      Wrefresh MessageWindow]"

text \<open>
  \<open>key n\<close> is what the \<open>n\<close>-th \<open>wgetch\<close> returns, \<open>show n\<close> the flag \<open>m_showWindow\<close>
  read after it.
\<close>

partial_function (option) dlg_loop :: "(nat \<Rightarrow> int) \<Rightarrow> (nat \<Rightarrow> bool) \<Rightarrow> nat \<Rightarrow> int option" where
  "dlg_loop key shown n = (if key n \<noteq> 10 \<and> shown n then dlg_loop key shown (Suc n) else Some (key n))"

definition EventLoop :: "int \<Rightarrow> (nat \<Rightarrow> int) \<Rightarrow> (nat \<Rightarrow> bool) \<Rightarrow> curses_call list option" where
  "EventLoop fd key shown =
     map_option (\<lambda>ch. (if ch = 10 then [Close_fd fd] else []) @ [Dlg_Destroy]) (dlg_loop key shown 0)"

lemma dlg_loop_ends:
  "\<lbrakk>\<not> (key (n + k) \<noteq> 10 \<and> shown (n + k)); \<And>j. j < k \<Longrightarrow> key (n + j) \<noteq> 10 \<and> shown (n + j)\<rbrakk>
   \<Longrightarrow> dlg_loop key shown n = Some (key (n + k))"
proof (induction k arbitrary: n)
  case 0
  then show ?case by (subst dlg_loop.simps) auto
next
  case (Suc k)
  have "key n \<noteq> 10 \<and> shown n" using Suc.prems(2) [of 0] by simp
  moreover have "dlg_loop key shown (Suc n) = Some (key (Suc n + k))"
    by (rule Suc.IH) (use Suc.prems Suc.prems(2) [of "Suc _"] in auto)
  ultimately show ?case by (subst dlg_loop.simps) simp
qed

lemma dlg_loop_returns:
  assumes "dlg_loop key shown n = Some ch"
  shows "\<exists>k\<ge>n. \<not> (key k \<noteq> 10 \<and> shown k)"
  using assms
proof (induction rule: dlg_loop.raw_induct [rotated, consumes 1])
  case (1 dlg_loop key shown n ch)
  then show ?case by (auto split: if_splits) (meson Suc_leD)
qed

text \<open>
  C28: The dialog that offers to cancel a connection attempt returns if, and only
  if, at some moment Enter is read or the window is found closed; it then closes
  the socket, which cancels the attempt, exactly if the first such moment is
  Enter, and in both cases destroys the window once, last.
\<close>

theorem cancel_dialog_ends:
  "EventLoop fd key shown =
     (if \<exists>n. key n = 10 \<or> \<not> shown n
      then Some ((if key (LEAST n. key n = 10 \<or> \<not> shown n) = 10 then [Close_fd fd] else []) @ [Dlg_Destroy])
      else None)"
proof (cases "\<exists>n. key n = 10 \<or> \<not> shown n")
  case True
  define k where "k = (LEAST n. key n = 10 \<or> \<not> shown n)"
  have "key k = 10 \<or> \<not> shown k" using LeastI_ex [OF True] by (simp add: k_def)
  moreover have "key j \<noteq> 10 \<and> shown j" if "j < k" for j
    using not_less_Least [of j "\<lambda>n. key n = 10 \<or> \<not> shown n"] that by (simp add: k_def)
  ultimately have "dlg_loop key shown 0 = Some (key k)" using dlg_loop_ends [of key 0 k shown] by simp
  then show ?thesis using True by (simp add: EventLoop_def k_def)
next
  case False
  then have "dlg_loop key shown 0 = None" using dlg_loop_returns by (cases "dlg_loop key shown 0") blast+
  then show ?thesis using False by (simp add: EventLoop_def)
qed

theorem cancel_dialog_ends_witness:
  "EventLoop 4 (\<lambda>n. if n = 2 then 10 else - 1) (\<lambda>n. n < 5) = Some [Close_fd 4, Dlg_Destroy]
   \<and> EventLoop 4 (\<lambda>_. - 1) (\<lambda>_. True) = None"
proof -
  have "(LEAST n. (if n = 2 then 10 else - 1 :: int) = 10 \<or> \<not> n < (5 :: nat)) = 2"
    by (rule Least_equality) (auto split: if_splits)
  then show ?thesis
    using cancel_dialog_ends [of 4 "\<lambda>n. if n = 2 then 10 else - 1" "\<lambda>n. n < 5"]
      cancel_dialog_ends [of 4 "\<lambda>_. - 1" "\<lambda>_. True"]
    by (auto split: if_splits)
qed

section \<open>Connecting\<close>

definition curses_BeforeConnectToServer :: "int \<Rightarrow> curses_call list" where
  "curses_BeforeConnectToServer fd = [Dlg_SetSocketFileDescriptor fd, Dlg_EventLoop]"

definition curses_AfterConnectToServer :: "'w curses_env \<Rightarrow> int \<Rightarrow> 'w tui \<Rightarrow> 'w tui" where
  "curses_AfterConnectToServer E connectResult t =
     (let t1 = do_call E Dlg_Close t
      in if connectResult = 0
         then t1\<lparr>eventQueue := eventQueue t1 @ [SuccessfullyConnectedToServer_ev]\<rparr> else t1)"

definition curses_BeforeWait :: "'w tui \<Rightarrow> 'w tui" where
  "curses_BeforeWait t = t\<lparr>eventQueue := eventQueue t @ [UpdateSMARTvaluesUI_ev]\<rparr>"

definition curses_ShowConnectionState :: "string \<Rightarrow> int \<Rightarrow> curses_call list" where
  "curses_ShowConnectionState host timeOutInS =
     Dlg_ShowMessage (''connecting to '' @ [CHR 0x22] @ cstr host @ [CHR 0x22] @ '',timeout in ca.''
       @ dec_int timeOutInS @ ''s'') BodyWindow"

text \<open>
  \<open>UpdateConnTimeout\<close>, which nothing calls, prints a variable that was never set:
  the argument.
\<close>

definition UpdateConnTimeout :: "nat \<Rightarrow> curses_call list" where
  "UpdateConnTimeout f =
     [Mvwprintw StatusBar 0 0 (''connecting to '' @ [CHR 0x22, CHR 0x22] @ '' '' @ dec f), Wrefresh StatusBar]"

text \<open>
  The second of the time of the last update is 100 until there was one;
  \<open>timeString\<close> is the time as \<open>GetTimeAsString\<close> formats it.
\<close>

definition curses_ChangeState :: "string \<Rightarrow> int \<Rightarrow> string \<Rightarrow> curses_state \<Rightarrow> curses_call list" where
  "curses_ChangeState host tm_sec timeString newState =
     [ColorBox StatusBar STATUS_BAR_COLOR 0]
     @ (case newState of
          connectedToService \<Rightarrow>
            [Mvwprintw StatusBar 0 0 (''connected to '' @ [CHR 0x22] @ cstr host @ [CHR 0x22])]
        | unconnectedFromService \<Rightarrow>
            if tm_sec = 100
            then [Mvwprintw StatusBar 0 0 (''disconnected from '' @ cstr host
                    @ ''--never got S.M.A.R.T values'')]
            else [Mvwprintw StatusBar 0 0 (''disconnected from '' @ cstr host @ ''--last update:''
                    @ cstr timeString @ '' (local time)'')])
     @ [Wrefresh StatusBar]"

text \<open>An event taken from the queue: the state that is shown, then what the base class does.\<close>

datatype base_op = Base_UpdateSMARTvaluesUI | Base_GetSMARTvaluesAndUpdateUI

definition curses_event :: "'w curses_env \<Rightarrow> string \<Rightarrow> int \<Rightarrow> string \<Rightarrow> queued \<Rightarrow> 'w tui \<Rightarrow> 'w tui \<times> base_op" where
  "curses_event E host tm_sec timeString ev t =
     (case ev of
        UpdateSMARTvaluesUI_ev \<Rightarrow> (t, Base_UpdateSMARTvaluesUI)
      | SuccessfullyConnectedToServer_ev \<Rightarrow>
          (do_calls E (curses_ChangeState host tm_sec timeString connectedToService) t,
           Base_GetSMARTvaluesAndUpdateUI))"

section \<open>Messages and texts\<close>

definition curses_ShowMessage :: "nat \<Rightarrow> nat \<Rightarrow> string \<Rightarrow> curses_call list" where
  "curses_ShowMessage currentThreadNumber GUIthreadID message =
     (if currentThreadNumber = GUIthreadID
      then [Box_ShowMessage BODY_WINDOW_COLOR BUTTON_COLOR message BodyWindow] else [])"

text \<open>
  \<open>editText\<close> gives the text the user left and the key that ended it; the text is
  changed whatever the key was.
\<close>

definition curses_GetTextFromUser :: "'w curses_env \<Rightarrow> (string \<Rightarrow> nat \<Rightarrow> string \<times> int) \<Rightarrow> string \<Rightarrow> string
    \<Rightarrow> 'w tui \<Rightarrow> string \<times> 'w tui" where
  "curses_GetTextFromUser E editText label s t =
     (let width = maxx_body E (terminal t);
          t1 = do_calls E [Newwin MessageWindow 5 width 1 0, ColorBox MessageWindow BODY_WINDOW_COLOR 1,
                 Mvwaddstr MessageWindow 1 1 label] t;
          (s', key) = editText s 29
      in (s', do_calls E [Delwin MessageWindow, Touchwin BodyWindow, Wrefresh BodyWindow] t1))"

section \<open>Menus\<close>

datatype menu_action = Menu_Exit | Menu_ConnectToServer | Menu_ShowProgramMenu | Menu_ShowServerMenu

definition programMenu :: "(string \<times> menu_action) list" where
  "programMenu = [(''About'', Menu_Exit), (''Exit'', Menu_Exit)]"

definition serverMenu :: "(string \<times> menu_action) list" where
  "serverMenu = [(''connect'', Menu_ConnectToServer), (''disconnect'', Menu_ConnectToServer)]"

definition mainMenu :: "(string \<times> menu_action) list" where
  "mainMenu = [(''Program'', Menu_ShowProgramMenu), (''Server'', Menu_ShowServerMenu)]"

datatype menu_effect = SetEnterLeavesMenu bool | Client_ConnectToServer
  | InsideMenu "(string \<times> menu_action) list" bool curses_window

text \<open>What a menu item does: \<open>Exit\<close>, \<open>ConnectToServer\<close>, \<open>ShowProgramMenu\<close>, \<open>ShowServerMenu\<close>.\<close>

fun menu_do :: "menu_action \<Rightarrow> menu_effect" where
  "menu_do Menu_Exit = SetEnterLeavesMenu True"
| "menu_do Menu_ConnectToServer = Client_ConnectToServer"
| "menu_do Menu_ShowProgramMenu = InsideMenu programMenu True BodyWindow"
| "menu_do Menu_ShowServerMenu = InsideMenu serverMenu True BodyWindow"

definition MenuLoop :: menu_effect where
  "MenuLoop = InsideMenu mainMenu False MenuBar"

text \<open>The status bar takes the rest of the line of the main menu, \<open>n\<close> columns wide.\<close>

definition CreateMenus :: "'w curses_env \<Rightarrow> int \<Rightarrow> 'w tui \<Rightarrow> 'w tui" where
  "CreateMenus E n t = do_call E (Newwin StatusBar 1 (COLS E (terminal t) - n) 0 n) t"

section \<open>Start\<close>

definition curses_CreateUI :: "'w curses_env \<Rightarrow> int \<Rightarrow> 'w tui \<Rightarrow> 'w tui" where
  "curses_CreateUI E n t =
     (let t1 = do_calls E [Initscr, Cbreak, Noecho, Curs_set 0, Nodelay True, Halfdelay 10, Keypad True,
                 Scrollok True] t;
          cols = COLS E (terminal t1); lns = LINES E (terminal t1);
          t2 = do_calls E ([Newwin MenuBar 1 cols 0 0, Newwin BodyWindow (lns - 1) cols 1 0] @ initColor E) t1;
          t3 = (if has_colors E
                then do_calls E [Start_color, Wattrset MenuBar BODY_WINDOW_COLOR,
                       Wbkgd MenuBar (attr_bits E BODY_WINDOW_COLOR), ColorBox MenuBar BODY_WINDOW_COLOR 0,
                       ColorBox BodyWindow BODY_WINDOW_COLOR 1] t2
                else t2)
      in CreateMenus E n t3)"

text \<open>
  The constructor: the arguments as wide strings, \<open>wide\<close> stands for
  \<open>GetStdWstring\<close>; no attribute has a line yet.
\<close>

definition curses_CreateCommandLineArgsArrays :: "(string \<Rightarrow> string) \<Rightarrow> string list \<Rightarrow> string list" where
  "curses_CreateCommandLineArgsArrays wide argv = map wide argv"

definition NcursesUI_new :: "'w curses_env \<Rightarrow> (string \<Rightarrow> string) \<Rightarrow> int \<Rightarrow> string list \<Rightarrow> 'w \<Rightarrow> string list \<times> 'w tui" where
  "NcursesUI_new E wide n argv w =
     (curses_CreateCommandLineArgsArrays wide argv,
      curses_CreateUI E n \<lparr>m_lastLineNumber = 0, attributeID2LineMapping = Map.empty, terminal = w,
        eventQueue = []\<rparr>)"

datatype tui_step = Tui_ProcessCommandLineArgs | Tui_ReadServiceConnectionSettings string
  | Tui_ConnectToServerAndGetSMARTvalues | Tui_InitializeSMART | Tui_MenuLoop menu_effect

text \<open>
  \<open>configFile\<close> is the program option for the connection; what \<open>InitializeSMART\<close>
  returns is not looked at.
\<close>

definition curses_Init :: "string \<Rightarrow> tui_step list" where
  "curses_Init configFile =
     [Tui_ProcessCommandLineArgs, Tui_ReadServiceConnectionSettings configFile]
     @ (if configFile \<noteq> [] then [Tui_ConnectToServerAndGetSMARTvalues] else [])
     @ [Tui_InitializeSMART, Tui_MenuLoop MenuLoop]"

definition NcursesUI_end :: "'w curses_env \<Rightarrow> 'w tui \<Rightarrow> 'w tui" where
  "NcursesUI_end E = do_call E Endwin"

section \<open>Facts about the menus and colours\<close>

text \<open>
  The colour pairs the terminal has after \<open>initColor\<close>: the last \<open>init_pair\<close> of a number.
\<close>

definition pairs_of :: "curses_call list \<Rightarrow> nat \<rightharpoonup> curses_color \<times> curses_color" where
  "pairs_of cs = map_of (rev (concat (map (\<lambda>c. case c of Init_pair n f b \<Rightarrow> [(n, (f, b))] | _ \<Rightarrow> []) cs)))"

text \<open>A good value is green; the pair meant for a warning is never set up.\<close>

lemma initColor_pairs:
  assumes "no_attr_bits E = (\<lambda>n. n)" "EDITBOXCOLOR E = 4"
  shows "pairs_of (initColor E) (rating_color SMARTvalueOK 0) = Some (COLOR_GREEN, COLOR_BLACK)"
    and "pairs_of (initColor E) (rating_color SMARTvalueOK 1) = Some (COLOR_BLACK, COLOR_GREEN)"
    and "pairs_of (initColor E) RED_ON_BLACK = None"
  using assms by (simp_all add: pairs_of_def initColor_def rating_color_def color_defs)

lemma disconnect_connects:
  "\<forall>(text, act)\<in>set serverMenu. menu_do act = Client_ConnectToServer"
  by (simp add: serverMenu_def)

lemma about_exits: "\<forall>(text, act)\<in>set programMenu. menu_do act = SetEnterLeavesMenu True"
  by (simp add: programMenu_def)

lemma message_of_other_thread_lost:
  "n \<noteq> gui \<Longrightarrow> curses_ShowMessage n gui message = []"
  by (simp add: curses_ShowMessage_def)

end
