(* ===== verification/ClientState.thy ===== *)
theory ClientState
  imports CursesDialog WxApp
begin

text \<open>
  The state a client starts with (the constructors in
  \<open>client/SMARTmonitorClient.cpp\<close> and \<open>wxWidgets/wxSMARTmonitorApp.cpp\<close>), the time
  of the last update in it, and its text: \<open>GetTimeAsString\<close> of
  \<open>UserInterface/UserInterface.cpp\<close>. The texts the two user interfaces show when a
  connection ended are composed from it.

  A member that no constructor initialises is \<open>None\<close>. \<open>strftime\<close> is part of the
  language's standard library; it is defined here for the conversions the source
  uses, with the abbreviated names of days and months as arguments, because they
  depend on the locale. A value out of its range is undefined behaviour, \<open>None\<close>.
\<close>

section \<open>Time as text\<close>

record tm =
  tm_sec :: nat
  tm_min :: nat
  tm_hour :: nat
  tm_mday :: nat
  tm_mon :: nat
  tm_wday :: nat

record time_locale =
  abday :: "string list"
  abmon :: "string list"

definition C_locale :: time_locale where
  "C_locale = \<lparr>abday = [''Sun'', ''Mon'', ''Tue'', ''Wed'', ''Thu'', ''Fri'', ''Sat''],
     abmon = [''Jan'', ''Feb'', ''Mar'', ''Apr'', ''May'', ''Jun'', ''Jul'', ''Aug'', ''Sep'', ''Oct'', ''Nov'', ''Dec'']\<rparr>"

definition tm_valid :: "tm \<Rightarrow> bool" where
  "tm_valid t \<longleftrightarrow> tm_sec t \<le> 60 \<and> tm_min t \<le> 59 \<and> tm_hour t \<le> 23 \<and> 1 \<le> tm_mday t \<and> tm_mday t \<le> 31
     \<and> tm_mon t \<le> 11 \<and> tm_wday t \<le> 6"

definition two_digits :: "nat \<Rightarrow> string" where
  "two_digits n = [char_of (48 + n div 10), char_of (48 + n mod 10)]"

definition a_d_b_T :: "time_locale \<Rightarrow> tm \<Rightarrow> string" where
  "a_d_b_T L t = abday L ! tm_wday t @ '' '' @ two_digits (tm_mday t) @ '' '' @ abmon L ! tm_mon t @ '' ''
     @ two_digits (tm_hour t) @ '':'' @ two_digits (tm_min t) @ '':'' @ two_digits (tm_sec t)"

text \<open>The number of bytes without the 0 at the end, or 0 if they do not fit into the array.\<close>

definition strftime :: "time_locale \<Rightarrow> nat \<Rightarrow> tm \<Rightarrow> (nat \<times> string) option" where
  "strftime L maxsize t =
     (if \<not> tm_valid t then None
      else if length (a_d_b_T L t) + 1 \<le> maxsize then Some (length (a_d_b_T L t), a_d_b_T L t)
      else Some (0, []))"

definition numCharsForDt_andTm :: nat where "numCharsForDt_andTm = 25"

definition GetTimeAsString :: "time_locale \<Rightarrow> tm option \<Rightarrow> string option" where
  "GetTimeAsString L time =
     (case time of
        None \<Rightarrow> None
      | Some t \<Rightarrow> do { (numBwoutTerm0written, buffer) \<leftarrow> strftime L numCharsForDt_andTm t;
                   Some (if numBwoutTerm0written = 0 then [] else cstr buffer) })"

lemma length_a_d_b_T:
  "length (a_d_b_T L t) = length (abday L ! tm_wday t) + length (abmon L ! tm_mon t) + 13"
  by (simp add: a_d_b_T_def two_digits_def)

text \<open>The text a comment counts: 19 characters with names of three.\<close>

lemma a_d_b_T_C: "tm_valid t \<Longrightarrow> length (a_d_b_T C_locale t) = 19"
proof -
  assume "tm_valid t"
  then have "tm_wday t < 7" "tm_mon t < 12" by (auto simp: tm_valid_def)
  then have "length (abday C_locale ! tm_wday t) = 3" "length (abmon C_locale ! tm_mon t) = 3"
    by (auto simp: C_locale_def less_Suc_eq numeral_eq_Suc)
  then show ?thesis by (simp add: length_a_d_b_T)
qed

lemma two_digits_inj: "\<lbrakk>two_digits m = two_digits n; m < 100; n < 100\<rbrakk> \<Longrightarrow> m = n"
proof -
  assume a: "two_digits m = two_digits n" "m < 100" "n < 100"
  have "m div 10 = n div 10"
    using a arg_cong [of "char_of (48 + m div 10) :: char" "char_of (48 + n div 10)" "of_char :: char \<Rightarrow> nat"]
    by (simp add: two_digits_def)
  moreover have "m mod 10 = n mod 10"
    using a arg_cong [of "char_of (48 + m mod 10) :: char" "char_of (48 + n mod 10)" "of_char :: char \<Rightarrow> nat"]
    by (simp add: two_digits_def)
  ultimately show "m = n" by (metis div_mult_mod_eq)
qed

section \<open>The state at the start\<close>

text \<open>
  Of the time only the seconds are set, to a number no time has; as a whole the
  time is not defined then.
\<close>

datatype get_values_fn = NULL_fn | GetSMARTattrValsFromSrv_fn | Upd8SMARTvalsDrctlyThreadSafe_fn
datatype GetSMARTvalsMode = directSMARTvals | noUpdate

record client_obj =
  co_srvCnnctnCntDownInSec :: nat
  co_srvrCnnctnState :: serverConnectionState
  co_entireSMARTstatus :: rslt
  co_tm_sec :: nat
  co_timeOfLastSMARTvaluesUpdate :: "tm option"
  co_getSMARTvaluesFunction :: get_values_fn
  co_getSMARTvalsMode :: "GetSMARTvalsMode option"
  co_stdstrServerAddress :: string

definition SMARTmonitorClient_new :: client_obj where
  "SMARTmonitorClient_new = \<lparr>co_srvCnnctnCntDownInSec = 60, co_srvrCnnctnState = uncnnctdToSrv,
     co_entireSMARTstatus = Unknown, co_tm_sec = 100, co_timeOfLastSMARTvaluesUpdate = None,
     co_getSMARTvaluesFunction = NULL_fn, co_getSMARTvalsMode = None, co_stdstrServerAddress = []\<rparr>"

definition getsSMARTdataDrctly :: "client_obj \<Rightarrow> bool" where
  "getsSMARTdataDrctly c \<longleftrightarrow> co_getSMARTvaluesFunction c = Upd8SMARTvalsDrctlyThreadSafe_fn"

definition SetServiceAddress :: "string \<Rightarrow> client_obj \<Rightarrow> client_obj" where
  "SetServiceAddress s c = c\<lparr>co_stdstrServerAddress := s\<rparr>"

definition SetGetSMARTvalsMode :: "GetSMARTvalsMode \<Rightarrow> client_obj \<Rightarrow> client_obj" where
  "SetGetSMARTvalsMode mode c = c\<lparr>co_getSMARTvalsMode := Some mode\<rparr>"

text \<open>The time is set after values were got, from the service or the drives.\<close>

definition set_update_time :: "tm \<Rightarrow> client_obj \<Rightarrow> client_obj" where
  "set_update_time t c = c\<lparr>co_tm_sec := tm_sec t, co_timeOfLastSMARTvaluesUpdate := Some t\<rparr>"

text \<open>
  What the two user interfaces show when the connection to the service ended.
  That of curses asks for the number no time has; the window does not.
\<close>

definition curses_disconnected :: "time_locale \<Rightarrow> string \<Rightarrow> client_obj \<Rightarrow> curses_call list option" where
  "curses_disconnected L host c =
     (if co_tm_sec c = 100 then Some (curses_ChangeState host (int (co_tm_sec c)) [] unconnectedFromService)
      else map_option (\<lambda>s. curses_ChangeState host (int (co_tm_sec c)) s unconnectedFromService)
             (GetTimeAsString L (co_timeOfLastSMARTvaluesUpdate c)))"

definition wx_disconnected :: "time_locale \<Rightarrow> wx_env \<Rightarrow> client_obj \<Rightarrow> 'lw app \<Rightarrow> 'lw app option" where
  "wx_disconnected L E c A =
     map_option (\<lambda>s. wx_ChangeConnectionState True (E\<lparr>en_lastUpdate := s\<rparr>) uncnnctdToSrv A)
       (GetTimeAsString L (co_timeOfLastSMARTvaluesUpdate c))"

section \<open>What is shown\<close>

lemma abday_C:
  assumes "i \<le> 6" "j \<le> 6"
  shows "length (abday C_locale ! i) = 3 \<and> (abday C_locale ! i = abday C_locale ! j \<longrightarrow> i = j)"
proof -
  have "\<forall>i\<in>set [0..<7]. \<forall>j\<in>set [0..<7].
      length (abday C_locale ! i) = 3 \<and> (abday C_locale ! i = abday C_locale ! j \<longrightarrow> i = j)"
    by code_simp
  from this [THEN bspec, of i, THEN bspec, of j] assms show ?thesis by simp
qed

lemma abmon_C:
  assumes "i \<le> 11" "j \<le> 11"
  shows "length (abmon C_locale ! i) = 3 \<and> (abmon C_locale ! i = abmon C_locale ! j \<longrightarrow> i = j)"
proof -
  have "\<forall>i\<in>set [0..<12]. \<forall>j\<in>set [0..<12].
      length (abmon C_locale ! i) = 3 \<and> (abmon C_locale ! i = abmon C_locale ! j \<longrightarrow> i = j)"
    by code_simp
  from this [THEN bspec, of i, THEN bspec, of j] assms show ?thesis by simp
qed

lemma NUL_in_two_digits: "NUL \<notin> set (two_digits n)" if "n < 100" for n
proof -
  have "(char_of (48 + k) :: char) \<noteq> NUL" if "k < 10" for k :: nat
  proof
    assume "(char_of (48 + k) :: char) = NUL"
    then have "(of_char (char_of (48 + k) :: char) :: nat) = 0" by simp
    then show False using that by simp
  qed
  then show ?thesis using that by (auto simp: two_digits_def dest: sym)
qed

lemma NUL_in_names:
  assumes "i \<le> 6" "m \<le> 11"
  shows "NUL \<notin> set (abday C_locale ! i)" "NUL \<notin> set (abmon C_locale ! m)"
proof -
  have "\<forall>s\<in>set (abday C_locale) \<union> set (abmon C_locale). NUL \<notin> set s" by code_simp
  moreover have "i < length (abday C_locale)" "m < length (abmon C_locale)"
    using assms by (simp_all add: C_locale_def)
  ultimately show "NUL \<notin> set (abday C_locale ! i)" "NUL \<notin> set (abmon C_locale ! m)" using nth_mem by blast+
qed

lemma GetTimeAsString_C:
  assumes "tm_valid t"
  shows "GetTimeAsString C_locale (Some t) = Some (a_d_b_T C_locale t)"
proof -
  have "NUL \<noteq> CHR '' ''" "NUL \<noteq> CHR '':''" by code_simp+
  then have "NUL \<notin> set (a_d_b_T C_locale t)"
    using assms NUL_in_names [of "tm_wday t" "tm_mon t"] by (auto simp: a_d_b_T_def tm_valid_def NUL_in_two_digits)
  then show ?thesis
    using assms a_d_b_T_C [OF assms]
    by (simp add: GetTimeAsString_def strftime_def numCharsForDt_andTm_def)
qed

lemma a_d_b_T_inj:
  assumes "a_d_b_T C_locale s = a_d_b_T C_locale t" "tm_valid s" "tm_valid t"
  shows "s = t"
proof -
  have n: "length (abday C_locale ! tm_wday s) = length (abday C_locale ! tm_wday t)"
    "length (abmon C_locale ! tm_mon s) = length (abmon C_locale ! tm_mon t)"
    using assms(2,3) abday_C [of "tm_wday s" "tm_wday t"] abday_C [of "tm_wday t" "tm_wday s"]
      abmon_C [of "tm_mon s" "tm_mon t"] abmon_C [of "tm_mon t" "tm_mon s"]
    by (simp_all add: tm_valid_def)
  have d: "length (two_digits k) = 2" for k by (simp add: two_digits_def)
  have "abday C_locale ! tm_wday s = abday C_locale ! tm_wday t"
    "abmon C_locale ! tm_mon s = abmon C_locale ! tm_mon t"
    "two_digits (tm_mday s) = two_digits (tm_mday t)" "two_digits (tm_hour s) = two_digits (tm_hour t)"
    "two_digits (tm_min s) = two_digits (tm_min t)" "two_digits (tm_sec s) = two_digits (tm_sec t)"
    using assms(1) n by (auto simp: a_d_b_T_def d)
  then show ?thesis
    using assms(2,3) abday_C [of "tm_wday s" "tm_wday t"] abmon_C [of "tm_mon s" "tm_mon t"]
    by (intro tm.equality) (auto simp: tm_valid_def intro: two_digits_inj)
qed

text \<open>
  The text of a time can be read: in the C locale a time that is in its
  ranges has a text of 19 characters that fits into the array, and two times
  with the same text are the same second of the same day of the year.
\<close>

theorem update_time_text:
  assumes "tm_valid s" "tm_valid t"
  shows "\<exists>text. GetTimeAsString C_locale (Some s) = Some text \<and> length text = 19
    \<and> (GetTimeAsString C_locale (Some t) = Some text \<longleftrightarrow> s = t)"
  using assms a_d_b_T_inj by (auto simp: GetTimeAsString_C a_d_b_T_C)

definition tm_example :: tm where
  "tm_example = \<lparr>tm_sec = 56, tm_min = 34, tm_hour = 12, tm_mday = 5, tm_mon = 0, tm_wday = 1\<rparr>"

theorem update_time_text_witness:
  "\<exists>text. GetTimeAsString C_locale (Some tm_example) = Some text \<and> length text = 19
    \<and> (GetTimeAsString C_locale (Some (tm_example\<lparr>tm_sec := 57\<rparr>)) = Some text \<longleftrightarrow>
       tm_example = tm_example\<lparr>tm_sec := 57\<rparr>)"
  by (rule update_time_text) (simp_all add: tm_valid_def tm_example_def)

lemma tm_example_text: "GetTimeAsString C_locale (Some tm_example) = Some ''Mon 05 Jan 12:34:56''"
  by code_simp

text \<open>
  A client that never got values: the status bar of curses says so; the title of
  the window is made from a time that was never set, which is undefined
  behaviour. After an update both show its time.
\<close>

lemma never_updated:
  "curses_disconnected L host SMARTmonitorClient_new
     = Some ([ColorBox StatusBar STATUS_BAR_COLOR 0,
         Mvwprintw StatusBar 0 0 (''disconnected from '' @ cstr host @ ''--never got S.M.A.R.T values''),
         Wrefresh StatusBar])"
  "wx_disconnected L E SMARTmonitorClient_new A = None"
  by (simp_all add: curses_disconnected_def wx_disconnected_def SMARTmonitorClient_new_def
      curses_ChangeState_def GetTimeAsString_def)

lemma updated_shown:
  assumes "tm_valid t"
  shows "curses_disconnected C_locale host (set_update_time t c)
      = Some (curses_ChangeState host (int (tm_sec t)) (a_d_b_T C_locale t) unconnectedFromService)"
    and "wx_disconnected C_locale E (set_update_time t c) A
      = Some (wx_ChangeConnectionState True (E\<lparr>en_lastUpdate := a_d_b_T C_locale t\<rparr>) uncnnctdToSrv A)"
  using assms GetTimeAsString_C [OF assms]
  by (auto simp: curses_disconnected_def wx_disconnected_def set_update_time_def tm_valid_def)

text \<open>A new client does not get its values directly, from whichever server it is told to get them.\<close>

lemma new_client_not_direct:
  "\<not> getsSMARTdataDrctly (SetServiceAddress s (SetGetSMARTvalsMode mode SMARTmonitorClient_new))"
  by (simp add: getsSMARTdataDrctly_def SetServiceAddress_def SetGetSMARTvalsMode_def SMARTmonitorClient_new_def)

end
