(* ===== verification/TestClients.thy ===== *)
theory TestClients
  imports Wire WinAccess
begin

text \<open>
  The programs under \<open>tests/\<close> that use the parts of the product: the minimal
  client (\<open>tests/minClient/main.cpp\<close>), which prints the messages of the service
  as they arrive, the client derived from the product's one
  (\<open>tests/minSMARTmonClientDerived/main.cpp\<close>), and the program that prints the
  supported attributes of a drive on Windows
  (\<open>tests/readAllSupportedSMART_IDsTime/main.cpp\<close> and
  \<open>tests/readAndPrintAllSuppSMARTattrIDs.h\<close>).

  \<open>readFromSocket\<close> belongs to another repository: \<open>rd s n\<close> gives, for the state
  \<open>s\<close> of a connection, its result, the bytes it wrote to the buffer, and the
  next state. The processing of the command line by the library \<open>cxxopts\<close> is
  not modelled; its results are arguments.
\<close>

section \<open>The minimal client\<close>

text \<open>
  A byte of the array that nothing was read into is \<open>None\<close>. The array is one of
  variable length, so that the test whether it could be allocated never fails.
\<close>

datatype min_out = MinOut string | MinErr string | MinBytes "byte option list"

text \<open>The error codes follow those of another repository, which end with \<open>getHostByNameFailed\<close>.\<close>

definition cnnctToSrvFailed :: "int \<Rightarrow> int" where "cnnctToSrvFailed getHostByNameFailed = getHostByNameFailed + 1"
definition readLessThanIntended :: "int \<Rightarrow> int" where "readLessThanIntended getHostByNameFailed = getHostByNameFailed + 2"

text \<open>
  The number of bytes is kept in memory as the machine orders them: \<open>little\<close> is
  true for a machine that has the low byte first.
\<close>

definition host_bytes :: "bool \<Rightarrow> 16 word \<Rightarrow> byte list" where
  "host_bytes little n = (if little then rev (htons_bytes n) else htons_bytes n)"

definition overwrite :: "byte list \<Rightarrow> byte list \<Rightarrow> byte list" where
  "overwrite bs mem = bs @ drop (length bs) mem"

text \<open>
  One pass of the loop, with the memory of the number as the last pass left it.
  The result of the first read, an \<open>int\<close>, is compared with a \<open>size_t\<close>; the one of
  the second read is not looked at.
\<close>

definition min_iter :: "bool \<Rightarrow> int \<Rightarrow> ('s \<Rightarrow> nat \<Rightarrow> int \<times> byte list \<times> 's) \<Rightarrow> 's \<times> byte list
    \<Rightarrow> min_out list \<times> int + min_out list \<times> 's \<times> byte list" where
  "min_iter little gh rd st =
     (case rd (fst st) 2 of (k, bs, s1) \<Rightarrow>
        if (word_of_int k :: 64 word) < 2
        then Inl ([MinErr (''Read '' @ dec_int k @ '' B instead of 2 B->exiting.'')], readLessThanIntended gh)
        else (let n = ntohs_bytes (overwrite bs (snd st))
              in case rd s1 (unat n) of (_, xml, s2) \<Rightarrow>
                   Inr ([MinOut (''# XML bytes to read:'' @ dec (unat n)),
                         MinBytes (take (unat n) (map Some xml @ replicate (unat n - length xml) None))],
                        s2, host_bytes little n)))"

text \<open>The loop ends only by the return in it: not returning is \<open>None\<close>.\<close>

partial_function (option) minLoop :: "bool \<Rightarrow> int \<Rightarrow> ('s \<Rightarrow> nat \<Rightarrow> int \<times> byte list \<times> 's) \<Rightarrow> 's \<times> byte list
    \<Rightarrow> (min_out list \<times> int) option" where
  "minLoop little gh rd st =
     (case min_iter little gh rd st of
        Inl r \<Rightarrow> Some r
      | Inr (out, st') \<Rightarrow>
          do { (outs, code) \<leftarrow> minLoop little gh rd st'; Some (out @ outs, code) })"

text \<open>
  The timeout for sending and connecting: microseconds, which are split into
  seconds and the rest if there are more than a million. A timeout of 0 is not set.
\<close>

definition split_timeout :: "int \<Rightarrow> int \<times> int" where
  "split_timeout timeoutInUs =
     (if timeoutInUs > 1000000 then (timeoutInUs div 1000000, timeoutInUs mod 1000000) else (0, timeoutInUs))"

definition set_timeout :: "int \<Rightarrow> (int \<times> int) option" where
  "set_timeout timeoutInUs = (if split_timeout timeoutInUs = (0, 0) then None else Some (split_timeout timeoutInUs))"

text \<open>
  What the operating system and the functions of the other repository answer:
  the result of the preparation and its text, the timeout that is in force, the
  texts of the uptime at its moments, and the texts about a failed connection.
\<close>

record min_env =
  me_getHostByNameFailed :: int
  me_prepared :: int
  me_prep :: "string \<Rightarrow> int \<Rightarrow> int"
  me_enErrorMsgs :: "int \<Rightarrow> string"
  me_getTimeout :: "(int \<times> int) option \<Rightarrow> int \<times> int"
  me_uptime :: "nat \<Rightarrow> string"
  me_connect :: int
  me_errorCode :: int
  me_strerror :: "int \<Rightarrow> string"
  me_possibleCause :: string
  me_sin_port :: nat

definition min_main :: "bool \<Rightarrow> min_env \<Rightarrow> ('s \<Rightarrow> nat \<Rightarrow> int \<times> byte list \<times> 's) \<Rightarrow> 's \<times> byte list
    \<Rightarrow> string \<Rightarrow> int \<Rightarrow> int \<Rightarrow> (min_out list \<times> int) option" where
  "min_main little M rd st srvHost port timeoutInUs =
     (let q = [CHR 0x22]; gh = me_getHostByNameFailed M;
          prepRslt = me_prep M srvHost port
      in if prepRslt \<noteq> me_prepared M
         then Some ([MinErr (''Preparing connect to '' @ q @ srvHost @ q @ '',port '' @ dec_int port
                       @ '' failed:'' @ me_enErrorMsgs M prepRslt @ ''->exiting.'')], prepRslt)
         else (let tv = me_getTimeout M (set_timeout timeoutInUs);
                   o1 = MinOut (''Current uptime:'' @ me_uptime M 0 @ ''s connecting to '' @ q @ srvHost @ q
                          @ '' port '' @ dec_int port @ '' wait max.'' @ dec_int (fst tv) @ ''s''
                          @ dec_int (snd tv) @ ''micros'')
               in if me_connect M = - 1
                  then Some ([o1, MinOut (''Current uptime:'' @ me_uptime M 1
                                @ ''s connecting failed. OS error code:'' @ dec_int (me_errorCode M) @ '' ''
                                @ me_strerror M (me_errorCode M)),
                              MinOut (me_possibleCause M)], cnnctToSrvFailed gh)
                  else do { (outs, code) \<leftarrow> minLoop little gh rd st;
                            Some (o1 # MinOut (''Current uptime:'' @ me_uptime M 1 @ ''s connected. port:''
                                    @ dec (me_sin_port M)) # outs, code) }))"

section \<open>Lemmas on the minimal client\<close>

lemma dec_int_0: "dec_int 0 = ''0''"
  by code_simp

text \<open>
  Reads that are never short: \<open>content\<close> gives the bytes a state of the connection
  still delivers before the other side has closed it, and every read delivers all
  bytes it asks for if there are so many. The documentation of \<open>read\<close> allows
  fewer.
\<close>

definition full_reads :: "('s \<Rightarrow> byte list) \<Rightarrow> ('s \<Rightarrow> nat \<Rightarrow> int \<times> byte list \<times> 's) \<Rightarrow> bool" where
  "full_reads content rd \<longleftrightarrow> (\<forall>s n. \<exists>s'.
     rd s n = (int (min n (length (content s))), take n (content s), s') \<and> content s' = drop n (content s))"

definition shown_message :: "byte list \<Rightarrow> min_out list" where
  "shown_message xml = [MinOut (''# XML bytes to read:'' @ dec (length xml)), MinBytes (map Some xml)]"

lemma min_iter_message:
  assumes "full_reads content rd" "wire_valid xml" "wire_encode xml = Some bs" "content s = bs @ r"
  shows "\<exists>s'. min_iter little gh rd (s, mem)
    = Inr (shown_message xml, s', host_bytes little (of_nat (length xml))) \<and> content s' = r"
proof -
  have v: "length xml \<le> 65533" using assms(2) by (simp add: wire_valid_def)
  then have b: "bs = htons_bytes (of_nat (length xml)) @ xml"
    using assms(3) ByteArray_valid [OF v] by (simp add: wire_encode_def)
  have u: "unat (of_nat (length xml) :: 16 word) = length xml"
    using v by (simp only: unat_of_nat) simp
  have h: "length (htons_bytes n) = 2" for n by (simp add: htons_bytes_def)
  obtain s1 where r2: "rd s 2 = (2, htons_bytes (of_nat (length xml)), s1)" "content s1 = xml @ r"
    using assms(1) [unfolded full_reads_def, rule_format, of s 2] by (auto simp: assms(4) b h)
  obtain s2 where rn: "rd s1 (length xml) = (int (length xml), xml, s2)" "content s2 = r"
    using assms(1) [unfolded full_reads_def, rule_format, of s1 "length xml"] by (auto simp: r2(2))
  have n: "ntohs_bytes (overwrite (htons_bytes (of_nat (length xml))) mem) = of_nat (length xml)"
    by (simp add: overwrite_def ntohs_htons)
  show ?thesis
    by (intro exI [of _ s2]) (simp add: min_iter_def r2 n u rn shown_message_def)
qed

lemma min_iter_end:
  assumes "full_reads content rd" "length (content s) < 2"
  shows "min_iter little gh rd (s, mem)
    = Inl ([MinErr (''Read '' @ dec_int (int (length (content s))) @ '' B instead of 2 B->exiting.'')],
       readLessThanIntended gh)"
proof -
  obtain s1 where "rd s 2 = (int (length (content s)), content s, s1)"
    using assms(1) [unfolded full_reads_def, rule_format, of s 2] assms(2) by auto
  then show ?thesis
    using assms(2) by (cases "length (content s) = 0") (auto simp: min_iter_def less_2_cases_iff)
qed

lemma minLoop_stream:
  assumes "full_reads content rd"
    and "\<forall>xml\<in>set ms. wire_valid xml" "wire.encode_all ms = Some bs" "content s = bs @ r" "length r < 2"
  shows "minLoop little gh rd (s, mem)
    = Some (concat (map shown_message ms)
        @ [MinErr (''Read '' @ dec_int (int (length r)) @ '' B instead of 2 B->exiting.'')],
       readLessThanIntended gh)"
  using assms(2-5)
proof (induction ms arbitrary: bs s mem)
  case Nil
  then have c: "content s = r" by simp
  show ?case
    using min_iter_end [OF assms(1), of s little gh mem] Nil.prems(4) unfolding c
    by (subst minLoop.simps) simp
next
  case (Cons xml ms)
  then obtain b bs' where e: "wire_encode xml = Some b" "wire.encode_all ms = Some bs'" "bs = b @ bs'"
    by (auto simp: bind_eq_Some_conv)
  obtain s' where s': "min_iter little gh rd (s, mem)
      = Inr (shown_message xml, s', host_bytes little (of_nat (length xml)))" "content s' = bs' @ r"
    using min_iter_message [OF assms(1) _ e(1), of s "bs' @ r" little gh mem] Cons.prems(1,3) e(3) by auto
  have "minLoop little gh rd (s', host_bytes little (of_nat (length xml)))
    = Some (concat (map shown_message ms)
        @ [MinErr (''Read '' @ dec_int (int (length r)) @ '' B instead of 2 B->exiting.'')],
       readLessThanIntended gh)"
    using Cons.prems e s'(2) by (intro Cons.IH) simp_all
  then show ?case using s'(1) by (subst minLoop.simps) simp
qed

text \<open>
  A connection that delivers the bytes of a stream, at most \<open>k\<close> at a time. With
  \<open>k\<close> less than the length of a message the rest of the message is printed as it
  is in memory, and its bytes are taken for the length of the next one.
\<close>

definition stream_rd :: "byte list \<Rightarrow> nat \<Rightarrow> int \<times> byte list \<times> byte list" where
  "stream_rd s n = (int (min n (length s)), take n s, drop n s)"

definition short_rd :: "nat \<Rightarrow> byte list \<Rightarrow> nat \<Rightarrow> int \<times> byte list \<times> byte list" where
  "short_rd k s n = stream_rd s (min n k)"

lemma stream_rd_full: "full_reads id stream_rd"
  by (auto simp: full_reads_def stream_rd_def)

lemma short_read_splits_message:
  assumes "2 \<le> k" "k < length xml" "length xml \<le> 65533"
  shows "min_iter little gh (short_rd k) (htons_bytes (of_nat (length xml)) @ xml @ r, mem)
    = Inr ([MinOut (''# XML bytes to read:'' @ dec (length xml)),
            MinBytes (map Some (take k xml) @ replicate (length xml - k) None)],
           drop k xml @ r, host_bytes little (of_nat (length xml)))"
proof -
  have u: "unat (of_nat (length xml) :: 16 word) = length xml"
    using assms(3) by (simp only: unat_of_nat) simp
  have n: "ntohs_bytes (overwrite (htons_bytes (of_nat (length xml))) mem) = of_nat (length xml)"
    by (simp add: overwrite_def ntohs_htons)
  have r2: "short_rd k (htons_bytes (of_nat (length xml)) @ xml @ r) 2
      = (2, htons_bytes (of_nat (length xml)), xml @ r)"
    using assms(1) by (simp add: short_rd_def stream_rd_def htons_bytes_def min_def)
  show ?thesis
    using assms(2) by (simp add: min_iter_def r2 n u) (simp add: short_rd_def stream_rd_def min_def)
qed

text \<open>
  A read that fails gives -1, which as a \<open>size_t\<close> is not less than 2: the loop goes
  on with the number of the last message, its bytes in the order of the machine.
\<close>

lemma failed_iter:
  assumes "rd s 2 = (- 1, [], s1)" "\<And>n. rd s1 n = (- 1, [], s2)"
  shows "min_iter little gh rd (s, host_bytes little n)
    = (let m = ntohs_bytes (host_bytes little n)
       in Inr ([MinOut (''# XML bytes to read:'' @ dec (unat m)), MinBytes (replicate (unat m) None)],
              s2, host_bytes little m))"
  by (simp add: min_iter_def assms overwrite_def Let_def)

lemma swapped_twice:
  "ntohs_bytes (host_bytes little (ntohs_bytes (host_bytes little n))) = n"
  by (auto simp: ntohs_bytes_def host_bytes_def htons_bytes_def intro!: bit_word_eqI)
     (auto simp: bit_simps)

lemma minLoop_not_from:
  assumes "minLoop little gh rd st = Some y" and "\<And>s n. P s \<Longrightarrow> \<exists>s'. rd s n = (- 1, [], s') \<and> P s'"
  shows "\<not> P (fst st)"
proof -
  have "(\<forall>s n. P s \<longrightarrow> (\<exists>s'. rd s n = (- 1, [], s') \<and> P s')) \<longrightarrow> \<not> P (fst st)"
  proof (rule minLoop.raw_induct
      [of "\<lambda>little gh rd st y. (\<forall>s n. P s \<longrightarrow> (\<exists>s'. rd s n = (- 1, [], s') \<and> P s')) \<longrightarrow> \<not> P (fst st)",
       OF _ assms(1)], intro impI notI)
    fix loop :: "bool \<Rightarrow> int \<Rightarrow> ('a \<Rightarrow> nat \<Rightarrow> int \<times> byte list \<times> 'a) \<Rightarrow> 'a \<times> byte list \<Rightarrow> (min_out list \<times> int) option"
      and little gh rd st y
    assume IH: "\<And>little gh rd st y. loop little gh rd st = Some y \<Longrightarrow>
          (\<forall>s n. P s \<longrightarrow> (\<exists>s'. rd s n = (- 1, [], s') \<and> P s')) \<longrightarrow> \<not> P (fst st)"
      and res: "(case min_iter little gh rd st of Inl r \<Rightarrow> Some r
          | Inr (out, st') \<Rightarrow> do { (outs, code) \<leftarrow> loop little gh rd st'; Some (out @ outs, code) }) = Some y"
      and fails: "\<forall>s n. P s \<longrightarrow> (\<exists>s'. rd s n = (- 1, [], s') \<and> P s')" and "P (fst st)"
    then obtain s1 where s1: "rd (fst st) 2 = (- 1, [], s1)" "P s1" by meson
    obtain s2 where s2: "rd s1 (unat (ntohs_bytes (overwrite [] (snd st)))) = (- 1, [], s2)" "P s2"
      using fails s1(2) by meson
    obtain out mem where "min_iter little gh rd st = Inr (out, s2, mem)"
      by (simp add: min_iter_def s1(1) s2(1) Let_def)
    with res obtain z where "loop little gh rd (s2, mem) = Some z"
      by (auto simp: bind_eq_Some_conv)
    with IH fails s2(2) show False by fastforce
  qed
  with assms(2) show ?thesis by blast
qed

section \<open>The timeout\<close>

text \<open>
  The two parts make up the timeout, and the microseconds are below a million,
  as the operating system asks, except for a timeout of exactly one second.
\<close>

lemma split_timeout_parts:
  "0 \<le> us \<Longrightarrow> (case split_timeout us of (s, u) \<Rightarrow>
      s * 1000000 + u = us \<and> 0 \<le> u \<and> (u < 1000000 \<longleftrightarrow> us \<noteq> 1000000))"
  by (auto simp: split_timeout_def)

lemma one_second_not_split: "set_timeout 1000000 = Some (0, 1000000)"
  by (simp add: set_timeout_def split_timeout_def)

section \<open>The derived client\<close>

text \<open>
  The columns are those of an older version of the product; what the base class
  passes for the other columns is not printed.
\<close>

datatype old_column = humanReadableRawValue | lastUpdate | other_column

definition derived_SetAttribute :: "nat \<Rightarrow> old_column \<Rightarrow> string \<Rightarrow> string" where
  "derived_SetAttribute SMARTattributeID colIdx str =
     (case colIdx of
        humanReadableRawValue \<Rightarrow> ''SMART attrib ID:'' @ dec SMARTattributeID @ '' value:'' @ str
      | lastUpdate \<Rightarrow> '' last upd8:'' @ str @ [CHR 0x0A]
      | other_column \<Rightarrow> [])"

definition derived_AfterConnectToServer :: "int \<Rightarrow> string" where
  "derived_AfterConnectToServer connectResult =
     (if connectResult = - 1 then ''failed to connect to server.'' @ [CHR 0x0A] else [])"

section \<open>The supported attributes of a drive\<close>

text \<open>
  The exit codes, and the path of the drive: the one of the command line, which
  is unset (\<open>None\<close>) when the command line had arguments but no usable path, or
  the one of the first drive. What a drive answers is that of the theory of the
  access on Windows.
\<close>

datatype progExitCds = Success | GetSuppSMART_IDsFaild | OpnDtCarrierFaild

definition progExit_code :: "progExitCds \<Rightarrow> nat" where
  "progExit_code c = (case c of Success \<Rightarrow> 0 | GetSuppSMART_IDsFaild \<Rightarrow> 1 | OpnDtCarrierFaild \<Rightarrow> 2)"

definition getAndPrintSuppSMARTattrIDs :: "nvme_ids \<Rightarrow> win_lib \<Rightarrow> (SMARTuniqueID \<Rightarrow> string)
    \<Rightarrow> string \<Rightarrow> string \<Rightarrow> string \<Rightarrow> SMARTuniqueID \<Rightarrow> win_dev \<Rightarrow> string \<Rightarrow> min_out list \<times> progExitCds" where
  "getAndPrintSuppSMARTattrIDs nv W show_uid up_before up_after up_diff u D path =
     (let u1 = win_fill D u;
          (code, supp) = GetSuppSMARTattrIDs nv W D [];
          times =
            [MinOut (''Operating System uptime before reading all supported S.M.A.R.T. attribute IDs: ''
               @ up_before @ '' s''),
             MinOut (''Operating System uptime after reading all supported S.M.A.R.T. attribute IDs: ''
               @ up_after @ '' s''),
             MinOut (''=>Reading all supported S.M.A.R.T. attributes took ca. '' @ up_diff @ '' s'')]
      in if code \<noteq> success
         then (times @ [MinErr (''Failed to get supported S.M.A.R:T. IDs for '' @ [CHR 0x22] @ path @ [CHR 0x22])],
               GetSuppSMART_IDsFaild)
         else (times
               @ [MinOut (''Number of S.M.A.R.T. attributes supported by '' @ path @ '' ('' @ show_uid u1 @ ''):''
                    @ dec (length supp))]
               @ map (\<lambda>(name, i). MinOut (''S.M.A.R.T. attribute ID '' @ dec i @ '':'' @ name)) supp,
               Success))"

definition readIDs_main :: "nvme_ids \<Rightarrow> win_lib \<Rightarrow> (SMARTuniqueID \<Rightarrow> string) \<Rightarrow> string \<Rightarrow> string \<Rightarrow> string
    \<Rightarrow> SMARTuniqueID \<Rightarrow> (string \<Rightarrow> win_dev) \<Rightarrow> string option \<Rightarrow> string \<Rightarrow> bool
    \<Rightarrow> (min_out list \<times> progExitCds) option" where
  "readIDs_main nv W show_uid up_before up_after up_diff u dev argPath firstPath noProcessArgs =
     (case (if noProcessArgs then Some firstPath else argPath) of
        None \<Rightarrow> None
      | Some path \<Rightarrow>
          if wd_open (dev path) \<noteq> Handle then Some ([], OpnDtCarrierFaild)
          else Some (getAndPrintSuppSMARTattrIDs nv W show_uid up_before up_after up_diff u (dev path) path))"

text \<open>
  The IDs to read of the time measurement: all but the last of the bus, and a 0
  that ends them. Behind it the array keeps what it had (\<open>junk\<close>).
\<close>

definition allIDsToRead :: "hw_sizes \<Rightarrow> bus \<Rightarrow> attr_id list \<Rightarrow> attr_id list" where
  "allIDsToRead h b junk =
     (let n = (case b of NVMe \<Rightarrow> numNVMe h | _ \<Rightarrow> numSATA h)
      in [1..<n] @ [0] @ drop n junk)"

lemma allIDsToRead_list: "id_list (allIDsToRead h b junk) = [1..<(case b of NVMe \<Rightarrow> numNVMe h | _ \<Rightarrow> numSATA h)]"
  by (simp add: allIDsToRead_def Let_def)

lemma allIDsToRead_length:
  assumes "length junk = numSATA h" "0 < numNVMe h" "numNVMe h \<le> numSATA h"
  shows "length (allIDsToRead h b junk) = numSATA h"
  using assms by (auto simp: allIDsToRead_def Let_def split: bus.splits)

text \<open>
  With this list \<open>SetSMART_IDsToRead\<close> stores all supported attributes but the
  last one of the bus: the array has no room for it and the 0.
\<close>

lemma all_supported_but_last:
  assumes "length junk = numSATA h" "1 < numNVMe h" "numNVMe h \<le> numSATA h"
    and "length (SMART_IDsToRd u) = numSATA h"
    and "sorted_wrt (<) supp" "0 \<notin> set supp" "length supp \<le> numSATA h"
  shows "id_list (SMART_IDsToRd (SetSMART_IDsToRead h supp (allIDsToRead h b junk) u))
    = filter (\<lambda>i. i < (case b of NVMe \<Rightarrow> numNVMe h | _ \<Rightarrow> numSATA h)) supp"
proof -
  let ?n = "case b of NVMe \<Rightarrow> numNVMe h | _ \<Rightarrow> numSATA h"
  have n: "1 < ?n" using assms(2,3) by (simp split: bus.split)
  have "id_list (SMART_IDsToRd (SetSMART_IDsToRead h supp (allIDsToRead h b junk) u))
    = (if [1..<?n] = [] then supp else filter (\<lambda>x. x \<in> set [1..<?n]) supp)"
    using SetSMART_IDsToRead_list [OF allIDsToRead_length assms(4) _ _ assms(5-7), of junk b]
      assms(1-3) unfolding allIDsToRead_list by (simp add: allIDsToRead_def Let_def)
  also have "\<dots> = filter (\<lambda>x. x \<in> set [1..<?n]) supp" using n by simp
  also have "\<dots> = filter (\<lambda>i. i < ?n) supp"
    using assms(6) by (intro filter_cong refl) (metis One_nat_def Suc_leI atLeastLessThan_iff neq0_conv set_upt)
  finally show ?thesis .
qed

text \<open>An NVMe drive that can be opened: its 14 attributes are printed, in ascending order.\<close>

lemma nvme_printed:
  assumes "wd_open (dev path) = Handle" "wd_bus (dev path) = NVMe"
  shows "\<exists>out names. readIDs_main std_nvme W show_uid t1 t2 t3 u dev None path True = Some (out, Success)
    \<and> length names = 14
    \<and> drop 4 out = map2 (\<lambda>i name. MinOut (''S.M.A.R.T. attribute ID '' @ dec i @ '':'' @ name)) [1..<15] names"
proof -
  let ?s = "snd (GetSuppSMARTattrIDs std_nvme W (dev path) [])"
  have m: "map snd ?s = [1..<15]" using supported_ids_NVMe assms(2) by blast
  have l: "length ?s = 14" using arg_cong [OF m, of length] by simp
  have c: "fst (GetSuppSMARTattrIDs std_nvme W (dev path) []) = success"
    by (simp add: GetSuppSMARTattrIDs_def)
  have "map2 (\<lambda>i name. MinOut (''S.M.A.R.T. attribute ID '' @ dec i @ '':'' @ name)) (map snd ?s) (map fst ?s)
    = map (\<lambda>(name, i). MinOut (''S.M.A.R.T. attribute ID '' @ dec i @ '':'' @ name)) ?s"
    by (rule nth_equalityI) (simp_all add: case_prod_beta)
  then show ?thesis
    using assms l c unfolding m
    by (intro exI [of _ "fst (the (readIDs_main std_nvme W show_uid t1 t2 t3 u dev None path True))"]
          exI [of _ "map fst ?s"])
       (simp add: readIDs_main_def getAndPrintSuppSMARTattrIDs_def case_prod_beta Let_def)
qed

section \<open>Properties\<close>

text \<open>
  C29: The minimal client prints what the service sends, if no read is short:
  connected to a service that writes any sequence of messages of 1 to 65533 bytes
  and then closes the connection, and with reads that deliver all the bytes they
  ask for while there are so many, it prints the length and the bytes of each
  message, in order, and ends with the exit code for a read of less than intended.
\<close>

theorem minClient_prints_messages:
  assumes "\<forall>m\<in>set ms. m \<noteq> [] \<and> length m \<le> 65533" "framing.encode_all wire_encode ms = Some (content s)"
    and "full_reads content rd" "me_prep M host port = me_prepared M" "me_connect M \<noteq> - 1"
  shows "\<exists>o1 o2. min_main little M rd (s, mem) host port timeout
    = Some (MinOut o1 # MinOut o2
        # concat (map (\<lambda>m. [MinOut (''# XML bytes to read:'' @ dec (length m)), MinBytes (map Some m)]) ms)
        @ [MinErr ''Read 0 B instead of 2 B->exiting.''], readLessThanIntended (me_getHostByNameFailed M))"
proof -
  have "minLoop little (me_getHostByNameFailed M) rd (s, mem)
    = Some (concat (map shown_message ms) @ [MinErr (''Read '' @ dec_int (int (length ([] :: byte list)))
        @ '' B instead of 2 B->exiting.'')], readLessThanIntended (me_getHostByNameFailed M))"
    using assms(1,2) by (intro minLoop_stream [OF assms(3), of ms "content s"]) (simp_all add: wire_valid_def)
  then show ?thesis using assms(4,5)
    by (simp add: min_main_def Let_def shown_message_def [abs_def] dec_int_0)
qed

definition min_env_example :: min_env where
  "min_env_example = \<lparr>me_getHostByNameFailed = 4, me_prepared = 0, me_prep = \<lambda>_ _. 0, me_enErrorMsgs = \<lambda>_. [],
     me_getTimeout = \<lambda>t. case t of None \<Rightarrow> (0, 0) | Some x \<Rightarrow> x, me_uptime = \<lambda>_. ''12.345'', me_connect = 0,
     me_errorCode = 0, me_strerror = \<lambda>_. [], me_possibleCause = [], me_sin_port = 53255\<rparr>"

theorem minClient_prints_messages_witness:
  "\<exists>o1 o2. min_main True min_env_example stream_rd ([0, 2, 60, 100], [7, 7]) ''localhost'' 2000 5000000
    = Some (MinOut o1 # MinOut o2
        # concat (map (\<lambda>m. [MinOut (''# XML bytes to read:'' @ dec (length m)), MinBytes (map Some m)]) [[60, 100]])
        @ [MinErr ''Read 0 B instead of 2 B->exiting.''], readLessThanIntended 4)"
proof -
  have "framing.encode_all wire_encode [[60, 100]] = Some (id [0, 2, 60, 100])"
    by (simp add: wire_encode_def ByteArrayFromString_def htons_bytes_def)
  from minClient_prints_messages [OF _ this stream_rd_full, of min_env_example "''localhost''" 2000 True "[7, 7]" 5000000]
  show ?thesis by (simp add: min_env_example_def)
qed

text \<open>
  A connection that fails for good: once every read gives -1, the minimal
  client never returns. Its test for a short read compares an \<open>int\<close> with a
  \<open>size_t\<close>, so that -1 passes for enough bytes.
\<close>

theorem failed_connection_never_ends:
  assumes "\<And>s n. Failed s \<Longrightarrow> \<exists>s'. rd s n = (- 1, [], s') \<and> Failed s'" "Failed s"
    and "me_prep M host port = me_prepared M" "me_connect M \<noteq> - 1"
  shows "min_main little M rd (s, mem) host port timeout = None"
proof -
  have "minLoop little (me_getHostByNameFailed M) rd (s, mem) = None"
    using minLoop_not_from [of little "me_getHostByNameFailed M" rd "(s, mem)" _ Failed] assms(1,2)
    by (cases "minLoop little (me_getHostByNameFailed M) rd (s, mem)") auto
  then show ?thesis using assms(3,4) by (simp add: min_main_def Let_def)
qed

theorem failed_connection_never_ends_witness:
  "min_main True min_env_example (\<lambda>s n. (- 1, [], Suc s)) (0 :: nat, [0, 2]) ''localhost'' 2000 5000000 = None"
  by (rule failed_connection_never_ends [of "\<lambda>_. True"]) (simp_all add: min_env_example_def)

end
