(* ===== verification/EndToEnd.thy ===== *)
theory EndToEnd
  imports ClientNet
begin

text \<open>
  The way of the values of a drive from the service to the client, composed of
  the operations of the other theories: what the service sends of a drive to a
  new client (\<open>SendSupportedSMART_IDsToClient\<close>) and after a read (\<open>BeforeWait\<close>),
  the frames around the two texts, and the client's session on the bytes.

  The parser of XML is a parameter. What is relied on of it is stated for the two
  texts of the service: they are read as the elements they are written from.
\<close>

section \<open>The service's texts as elements\<close>

definition supported_xml :: "SMARTuniqueID \<Rightarrow> attr_id list \<Rightarrow> xml" where
  "supported_xml u supp = XML ''data_carrier'' (carrier_attrs u) None
     [XML ''supportedSMART_IDs'' [] (Some (comma_list supp)) []]"

text \<open>The attributes whose value is sent: those that were read, with parts that belong together.\<close>

definition sent_ids :: "'u::len itself \<Rightarrow> 'l::len word SMARTuniqueIDandValues \<Rightarrow> attr_id list" where
  "sent_ids T d = filter (\<lambda>i. successfullyReadSMARTrawValue (m_SMARTattrs d i) \<noteq> 0
     \<and> fst (IsConsistent T (m_SMARTattrs d i))) (id_list (SMART_IDsToRd (m_SMARTuniqueID d)))"

definition sent_raw :: "'u::len itself \<Rightarrow> 'l::len word SMARTuniqueIDandValues \<Rightarrow> attr_id \<Rightarrow> 64 word" where
  "sent_raw T d i = snd (IsConsistent T (m_SMARTattrs d i))"

definition value_xml :: "'u::len itself \<Rightarrow> 'l::len word SMARTuniqueIDandValues \<Rightarrow> attr_id \<Rightarrow> xml" where
  "value_xml T d i = XML ''SMART''
     (entry_attrs (m_SMARTuniqueID d) i (sent_raw T d i) (retrieval_seconds (m_SMARTattrs d i))) None []"

definition values_xml :: "'u::len itself \<Rightarrow> 'l::len word SMARTuniqueIDandValues \<Rightarrow> xml" where
  "values_xml T d = XML ''data_carrier'' (carrier_attrs (m_SMARTuniqueID d)) None
     (map (value_xml T d) (sent_ids T d))"

definition reads_text :: "xml_env \<Rightarrow> string \<Rightarrow> xml \<Rightarrow> bool" where
  "reads_text X t e \<longleftrightarrow> parseXML X (string_bytes t) = Some (Some e)"

text \<open>The texts are those of these elements.\<close>

lemma drive_text_values:
  assumes "0 \<in> set (SMART_IDsToRd (m_SMARTuniqueID d))" "length (SMART_IDsToRd (m_SMARTuniqueID d)) \<le> numSATA h"
  shows "drive_text T h d = Some (carrier_begin (m_SMARTuniqueID d)
    @ concat (map (\<lambda>i. entry_text (xml_attrs (value_xml T d i))) (sent_ids T d)) @ carrier_end)"
proof -
  have "concat (map (drive_entry T d) ids) = concat (map (\<lambda>i. entry_text (xml_attrs (value_xml T d i)))
      (filter (\<lambda>i. successfullyReadSMARTrawValue (m_SMARTattrs d i) \<noteq> 0
         \<and> fst (IsConsistent T (m_SMARTattrs d i))) ids))" for ids
    by (induction ids) (simp_all add: drive_entry_def value_xml_def sent_raw_def Let_def case_prod_beta)
  then show ?thesis
    by (simp add: drive_text_def IDsToRead_id_list [OF assms] sent_ids_def)
qed

lemma supported_text:
  assumes "supp \<noteq> []" "SendSupportedSMART_IDsToClient (\<lambda>_. Some supp) wr fd [u] = Some msgs"
  shows "msgs = [carrier_begin u @ ''<supportedSMART_IDs>'' @ comma_list supp @ ''</supportedSMART_IDs>'' @ carrier_end]"
  using assms by (auto simp: SendSupportedSMART_IDsToClient_def Let_def bind_eq_Some_conv)

section \<open>The client's drive\<close>

text \<open>An object the constructors have run on, with arrays of the size of the code.\<close>

definition constructed :: "hw_sizes \<Rightarrow> SMARTuniqueID \<Rightarrow> bool" where
  "constructed h u \<longleftrightarrow> length (SMART_IDsToRd u) = numSATA h \<and> SMART_IDsToRd u ! 0 = 0
     \<and> length (supportedSMART_IDs u) = numSATA h \<and> units u = (\<lambda>_. 0)"

definition constructed_drive :: "hw_sizes \<Rightarrow> 'l::len word SMARTuniqueIDandValues \<Rightarrow> bool" where
  "constructed_drive h d \<longleftrightarrow> constructed h (m_SMARTuniqueID d)
     \<and> (\<forall>i<numMaxATAplus1 h. successfullyReadSMARTrawValue (m_SMARTattrs d i) = 0)"

lemma key_of_texts:
  "uid_key h (snd (GetSMARTuniqueID_xml h (XML n (carrier_attrs u) t cs) u0)) = uid_key h u"
  by (simp add: GetSMARTuniqueID_xml_def attribute_def carrier_attrs_def SetSerialNumber_def
      SetFirmwareName_def SetModelName_def uid_key_def str_key_strncpy) (simp add: str_key_def)

lemma copied_blank:
  assumes "constructed h this" "0 < numSATA h" "SMART_IDsToRd orig ! 0 = 0"
  shows "SMART_IDsToRd (assign h this orig) ! 0 = 0" "length (SMART_IDsToRd (assign h this orig)) = numSATA h"
    "units (assign h this orig) = (\<lambda>_. 0)"
proof -
  show "SMART_IDsToRd (assign h this orig) ! 0 = 0" "length (SMART_IDsToRd (assign h this orig)) = numSATA h"
    using assms by (cases "numDiffrntSMARTattrIDs this"; auto simp: assign_def copyArr_def constructed_def)+
  show "units (assign h this orig) = (\<lambda>_. 0)" using assms by (simp add: assign_def constructed_def)
qed

lemma new_drive_blank:
  assumes "constructed_drive h d0" "0 < numSATA h" "SMART_IDsToRd u ! 0 = 0"
  shows "SMART_IDsToRd (m_SMARTuniqueID (drive_copy h d0 (drive_new h d0 u))) ! 0 = 0"
    "length (SMART_IDsToRd (m_SMARTuniqueID (drive_copy h d0 (drive_new h d0 u)))) = numSATA h"
    "units (m_SMARTuniqueID (drive_copy h d0 (drive_new h d0 u))) = (\<lambda>_. 0)"
    "i < numMaxATAplus1 h \<Longrightarrow>
      successfullyReadSMARTrawValue (m_SMARTattrs (drive_copy h d0 (drive_new h d0 u)) i) = 0"
    "uid_key h (m_SMARTuniqueID (drive_copy h d0 (drive_new h d0 u))) = uid_key h u"
    "busType (m_SMARTuniqueID (drive_copy h d0 (drive_new h d0 u))) = busType u"
proof -
  have c: "constructed h (m_SMARTuniqueID d0)" using assms(1) by (simp add: constructed_drive_def)
  note a = copied_blank [OF c assms(2) copied_blank(1) [OF c assms(2,3)]]
  show "SMART_IDsToRd (m_SMARTuniqueID (drive_copy h d0 (drive_new h d0 u))) ! 0 = 0"
    "length (SMART_IDsToRd (m_SMARTuniqueID (drive_copy h d0 (drive_new h d0 u)))) = numSATA h"
    "units (m_SMARTuniqueID (drive_copy h d0 (drive_new h d0 u))) = (\<lambda>_. 0)"
    using a by (simp_all add: drive_copy_def drive_new_def)
  show "i < numMaxATAplus1 h \<Longrightarrow>
      successfullyReadSMARTrawValue (m_SMARTattrs (drive_copy h d0 (drive_new h d0 u)) i) = 0"
    using assms(1) by (simp add: drive_copy_def drive_new_def copyAttrs_def setRawVal_other constructed_drive_def)
  show "uid_key h (m_SMARTuniqueID (drive_copy h d0 (drive_new h d0 u))) = uid_key h u"
    by (simp add: drive_copy_def drive_new_def assign_same_key)
  show "busType (m_SMARTuniqueID (drive_copy h d0 (drive_new h d0 u))) = busType u"
    by (simp add: drive_copy_def drive_new_def assign_def)
qed

lemma setRawVal_loop_length: "length (rawParts (setRawVal_loop v ks a)) = length (rawParts a)"
  by (induction v ks a rule: setRawVal_loop.induct) simp_all

lemma setRawVal_length: "length (rawParts (setRawVal v a)) = length (rawParts a)"
  by (simp add: setRawVal_def Let_def setRawVal_loop_length)

lemma received_attr_values [simp]:
  "m_rawValue (received_attr X e raw a) = uint raw" "successfullyReadSMARTrawValue (received_attr X e raw a) = 1"
  by (simp_all add: received_attr_def setRawVal_other SetRetrievalTime_def run_steps_raw)

lemma new_drive_lengths:
  "length (rawParts (m_SMARTattrs (drive_copy h d0 (drive_new h d0 u)) i)) = length (rawParts (m_SMARTattrs d0 i))"
  "length (timeStampOfRetrieval (m_SMARTattrs (drive_copy h d0 (drive_new h d0 u)) i))
    = length (timeStampOfRetrieval (m_SMARTattrs d0 i))"
  by (simp_all add: drive_copy_def drive_new_def copyAttrs_def setRawVal_other setRawVal_length)

text \<open>All values of a message, one element after the other.\<close>

lemma sent_values_handled:
  assumes "conversions_read X" "numMaxATAplus1 h \<le> 2 ^ 31"
    and "distinct ids" "\<forall>i\<in>set ids. i < numMaxATAplus1 h \<and> unat (sent_raw T sd i) < 2 ^ 63"
  shows "\<exists>d'. handle_entries X h (map (value_xml T sd) ids) d = Some d'
    \<and> (\<forall>i\<in>set ids. m_SMARTattrs d' i = received_attr X (value_xml T sd i) (sent_raw T sd i) (m_SMARTattrs d i)
         \<and> m_rawValue (m_SMARTattrs d' i) = uint (sent_raw T sd i)
         \<and> successfullyReadSMARTrawValue (m_SMARTattrs d' i) = 1
         \<and> lowerUnitBound (m_SMARTuniqueID d') i = lowerUnitBound (m_SMARTuniqueID sd) i
         \<and> upperUnitBound (m_SMARTuniqueID d') i = upperUnitBound (m_SMARTuniqueID sd) i
         \<and> units (m_SMARTuniqueID d') i = (if units (m_SMARTuniqueID sd) i = 0
             then units (m_SMARTuniqueID d) i else units (m_SMARTuniqueID sd) i))
    \<and> (\<forall>j. j \<notin> set ids \<longrightarrow> m_SMARTattrs d' j = m_SMARTattrs d j
         \<and> units (m_SMARTuniqueID d') j = units (m_SMARTuniqueID d) j
         \<and> lowerUnitBound (m_SMARTuniqueID d') j = lowerUnitBound (m_SMARTuniqueID d) j
         \<and> upperUnitBound (m_SMARTuniqueID d') j = upperUnitBound (m_SMARTuniqueID d) j)
    \<and> uid_key h (m_SMARTuniqueID d') = uid_key h (m_SMARTuniqueID d)
    \<and> SMART_IDsToRd (m_SMARTuniqueID d') = SMART_IDsToRd (m_SMARTuniqueID d)
    \<and> busType (m_SMARTuniqueID d') = busType (m_SMARTuniqueID d)"
  using assms(3,4)
proof (induction ids arbitrary: d)
  case (Cons i ids)
  have a: "xml_attrs (value_xml T sd i) = entry_attrs (m_SMARTuniqueID sd) i (sent_raw T sd i)
      (retrieval_seconds (m_SMARTattrs sd i))" by (simp add: value_xml_def)
  obtain d1 where d1: "HandleSingleSMARTentry X h (value_xml T sd i) d = Some d1"
      "m_SMARTattrs d1 i = received_attr X (value_xml T sd i) (sent_raw T sd i) (m_SMARTattrs d i)"
      "m_rawValue (m_SMARTattrs d1 i) = uint (sent_raw T sd i)"
      "successfullyReadSMARTrawValue (m_SMARTattrs d1 i) = 1"
      "lowerUnitBound (m_SMARTuniqueID d1) i = lowerUnitBound (m_SMARTuniqueID sd) i"
      "upperUnitBound (m_SMARTuniqueID d1) i = upperUnitBound (m_SMARTuniqueID sd) i"
      "units (m_SMARTuniqueID d1) i = (if units (m_SMARTuniqueID sd) i = 0
         then units (m_SMARTuniqueID d) i else units (m_SMARTuniqueID sd) i)"
      "\<And>j. j \<noteq> i \<Longrightarrow> m_SMARTattrs d1 j = m_SMARTattrs d j
         \<and> units (m_SMARTuniqueID d1) j = units (m_SMARTuniqueID d) j
         \<and> lowerUnitBound (m_SMARTuniqueID d1) j = lowerUnitBound (m_SMARTuniqueID d) j
         \<and> upperUnitBound (m_SMARTuniqueID d1) j = upperUnitBound (m_SMARTuniqueID d) j"
      "uid_key h (m_SMARTuniqueID d1) = uid_key h (m_SMARTuniqueID d)"
      "SMART_IDsToRd (m_SMARTuniqueID d1) = SMART_IDsToRd (m_SMARTuniqueID d)"
      "busType (m_SMARTuniqueID d1) = busType (m_SMARTuniqueID d)"
    using value_entry_roundtrip [OF assms(1) a _ assms(2), of d] Cons.prems(2) by auto
  obtain d2 where d2: "handle_entries X h (map (value_xml T sd) ids) d1 = Some d2"
    "\<forall>i\<in>set ids. m_SMARTattrs d2 i = received_attr X (value_xml T sd i) (sent_raw T sd i) (m_SMARTattrs d1 i)
         \<and> m_rawValue (m_SMARTattrs d2 i) = uint (sent_raw T sd i)
         \<and> successfullyReadSMARTrawValue (m_SMARTattrs d2 i) = 1
         \<and> lowerUnitBound (m_SMARTuniqueID d2) i = lowerUnitBound (m_SMARTuniqueID sd) i
         \<and> upperUnitBound (m_SMARTuniqueID d2) i = upperUnitBound (m_SMARTuniqueID sd) i
         \<and> units (m_SMARTuniqueID d2) i = (if units (m_SMARTuniqueID sd) i = 0
             then units (m_SMARTuniqueID d1) i else units (m_SMARTuniqueID sd) i)"
    "\<forall>j. j \<notin> set ids \<longrightarrow> m_SMARTattrs d2 j = m_SMARTattrs d1 j
         \<and> units (m_SMARTuniqueID d2) j = units (m_SMARTuniqueID d1) j
         \<and> lowerUnitBound (m_SMARTuniqueID d2) j = lowerUnitBound (m_SMARTuniqueID d1) j
         \<and> upperUnitBound (m_SMARTuniqueID d2) j = upperUnitBound (m_SMARTuniqueID d1) j"
    "uid_key h (m_SMARTuniqueID d2) = uid_key h (m_SMARTuniqueID d1)"
    "SMART_IDsToRd (m_SMARTuniqueID d2) = SMART_IDsToRd (m_SMARTuniqueID d1)"
    "busType (m_SMARTuniqueID d2) = busType (m_SMARTuniqueID d1)"
    using Cons.IH [of d1] Cons.prems by auto
  have i: "i \<notin> set ids" using Cons.prems(1) by simp
  then have "\<forall>j\<in>set ids. units (m_SMARTuniqueID d1) j = units (m_SMARTuniqueID d) j \<and> m_SMARTattrs d1 j = m_SMARTattrs d j"
    using d1(8) by metis
  then show ?case using d1 d2 i by (intro exI [of _ d2]) simp
qed simp

section \<open>From the service to the client\<close>

text \<open>
  A drive of the service: its array of attributes to read is ended by a 0 and in
  ascending order, and the values fit into 63 bits.
\<close>

definition service_drive :: "'u::len itself \<Rightarrow> hw_sizes \<Rightarrow> 'l::len word SMARTuniqueIDandValues \<Rightarrow> bool" where
  "service_drive T h d \<longleftrightarrow> (let arr = SMART_IDsToRd (m_SMARTuniqueID d) in
     0 \<in> set arr \<and> length arr = numSATA h \<and> sorted_wrt (<) (id_list arr)
     \<and> (\<forall>i\<in>set (id_list arr). i < numSATA h \<and> unat (sent_raw T d i) < 2 ^ 63))"

lemma sent_ids_props:
  assumes "service_drive T h d"
  shows "sorted_wrt (<) (sent_ids T d)" "distinct (sent_ids T d)"
    "i \<in> set (sent_ids T d) \<Longrightarrow> 0 < i \<and> i < numSATA h \<and> unat (sent_raw T d i) < 2 ^ 63"
proof -
  show s: "sorted_wrt (<) (sent_ids T d)"
    using assms by (simp add: service_drive_def sent_ids_def Let_def sorted_wrt_filter)
  then show "distinct (sent_ids T d)" by (rule sorted_wrt_less_distinct)
  show "0 < i \<and> i < numSATA h \<and> unat (sent_raw T d i) < 2 ^ 63" if "i \<in> set (sent_ids T d)"
  proof -
    have "i \<in> set (id_list (SMART_IDsToRd (m_SMARTuniqueID d)))" using that by (simp add: sent_ids_def)
    moreover then have "i \<noteq> 0" using zero_notin_id_list by metis
    ultimately show ?thesis using assms by (simp add: service_drive_def Let_def)
  qed
qed

lemma supported_read:
  assumes "reads_text X t (supported_xml u supp)" "constructed h u0" "0 < numSATA h" "length supp \<le> numSATA h"
    and "\<forall>n\<in>set supp. convertToTypename X (dec n) = Some n \<and> n \<le> numMaxATAplus1 h"
  shows "\<exists>v. GetSupportedSMARTattributesViaXML X h u0 (string_bytes t) = Some (Some (v, set supp))
    \<and> uid_key h v = uid_key h u \<and> SMART_IDsToRd v ! 0 = 0 \<and> busType v = busType u0"
proof -
  have x: "getXMLdoc X (string_bytes t) = Some (supported_xml u supp)"
    using assms(1) by (simp add: getXMLdoc_def reads_text_def)
  have ids: "split_ids X h (comma_list supp) [] [] = supp"
    using split_comma_list [of supp X h "[]"] assms(5)
    by (simp add: ConvertStringToInt_def CheckSMARTidRange_def linorder_not_less)
  define v where "v = snd (GetSMARTuniqueID_xml h (supported_xml u supp) u0)"
  have id: "GetSMARTuniqueID_xml h (supported_xml u supp) u0 = (True, v)"
    by (simp add: v_def GetSMARTuniqueID_xml_def supported_xml_def attribute_def carrier_attrs_def)
  have v: "uid_key h v = uid_key h u" "SMART_IDsToRd v = SMART_IDsToRd u0"
      "length (supportedSMART_IDs v) = numSATA h" "busType v = busType u0"
    using assms(2) unfolding v_def
    by (simp_all add: supported_xml_def key_of_texts)
       (simp_all add: GetSMARTuniqueID_xml_def attribute_def carrier_attrs_def SetSerialNumber_def
          SetFirmwareName_def SetModelName_def constructed_def)
  show ?thesis
    using v assms(2,4)
    by (simp add: GetSupportedSMARTattributesViaXML_def x id Let_def)
       (simp add: supported_xml_def first_child_def ids uid_key_def constructed_def)
qed

lemma setIDs_array:
  assumes "length (SMART_IDsToRd (m_SMARTuniqueID d)) = numSATA h" "0 < numSATA h"
  shows "length (SMART_IDsToRd (m_SMARTuniqueID (setSMART_IDsToReadFromSuccSMARTrawValUpd8 h d))) = numSATA h"
    "0 \<in> set (SMART_IDsToRd (m_SMARTuniqueID (setSMART_IDsToReadFromSuccSMARTrawValUpd8 h d)))"
proof -
  let ?ok = "\<lambda>i. successfullyReadSMARTrawValue (m_SMARTattrs d i) \<noteq> 0"
  obtain idx arr where lp: "setIDsFromRead_loop ?ok [1..<numSATA h] 0 (SMART_IDsToRd (m_SMARTuniqueID d)) = (idx, arr)"
    by fastforce
  have "idx = length (filter ?ok [1..<numSATA h])" and arr: "length arr = numSATA h"
    using setIDsFromRead_loop_spec [OF lp] assms by simp_all
  then have "idx < length arr" using length_filter_le [of ?ok "[1..<numSATA h]"] assms(2) by simp
  with lp arr show "length (SMART_IDsToRd (m_SMARTuniqueID (setSMART_IDsToReadFromSuccSMARTrawValUpd8 h d))) = numSATA h"
    "0 \<in> set (SMART_IDsToRd (m_SMARTuniqueID (setSMART_IDsToReadFromSuccSMARTrawValUpd8 h d)))"
    by (simp_all add: setSMART_IDsToReadFromSuccSMARTrawValUpd8_def set_update_memI)
qed

lemma service_drive_client:
  fixes sd :: "'l::len word SMARTuniqueIDandValues" and d0 :: "'m::len word SMARTuniqueIDandValues"
  assumes sd: "service_drive T h sd" and h: "0 < numSATA h" "numMaxATAplus1 h \<le> 2 ^ 31"
    and supp: "length supp \<le> numSATA h"
      "\<forall>n\<in>set supp. convertToTypename X (dec n) = Some n \<and> n \<le> numMaxATAplus1 h"
    and X: "conversions_read X" "reads_text X t1 (supported_xml (m_SMARTuniqueID sd) supp)"
      "reads_text X t2 (values_xml T sd)"
    and len: "t1 \<noteq> []" "length t1 \<le> 65533" "t2 \<noteq> []" "length t2 \<le> 65533"
    and bs: "framing.encode_all wire_encode [string_bytes t1, string_bytes t2] = Some bs" "ss_socket s = bs @ r"
    and new: "constructed h u0" "constructed_drive h d0"
  shows "\<exists>s' d. GetSMARTvaluesAndUpdateUI False t X h u0 d0 s = Some s'
    \<and> ss_socket s' = r \<and> ss_drives s' = [d] \<and> uid_key h (m_SMARTuniqueID d) = uid_key h (m_SMARTuniqueID sd)
    \<and> busType (m_SMARTuniqueID d) = busType u0 \<and> length (SMART_IDsToRd (m_SMARTuniqueID d)) = numSATA h \<and> 0 \<in> set (SMART_IDsToRd (m_SMARTuniqueID d))
    \<and> id_list (SMART_IDsToRd (m_SMARTuniqueID d)) = sent_ids T sd \<and> ss_toObserve s' = set (sent_ids T sd)
    \<and> (\<forall>i\<in>set (sent_ids T sd). (\<exists>b. m_SMARTattrs d i = received_attr X (value_xml T sd i) (sent_raw T sd i) b
           \<and> length (rawParts b) = length (rawParts (m_SMARTattrs d0 i))
           \<and> length (timeStampOfRetrieval b) = length (timeStampOfRetrieval (m_SMARTattrs d0 i)))
         \<and> m_rawValue (m_SMARTattrs d i) = uint (sent_raw T sd i)
         \<and> successfullyReadSMARTrawValue (m_SMARTattrs d i) = 1
         \<and> lowerUnitBound (m_SMARTuniqueID d) i = lowerUnitBound (m_SMARTuniqueID sd) i
         \<and> upperUnitBound (m_SMARTuniqueID d) i = upperUnitBound (m_SMARTuniqueID sd) i
         \<and> units (m_SMARTuniqueID d) i = units (m_SMARTuniqueID sd) i)"
proof -
  let ?ids = "sent_ids T sd"
  obtain v where v: "GetSupportedSMARTattributesViaXML X h u0 (string_bytes t1) = Some (Some (v, set supp))"
      "uid_key h v = uid_key h (m_SMARTuniqueID sd)" "SMART_IDsToRd v ! 0 = 0" "busType v = busType u0"
    using supported_read [OF X(2) new(1) h(1) supp] by blast
  define d where "d = drive_copy h d0 (drive_new h d0 v)"
  note blank = new_drive_blank [OF new(2) h(1) v(3), folded d_def]
  have ids: "\<forall>i\<in>set ?ids. i < numMaxATAplus1 h \<and> unat (sent_raw T sd i) < 2 ^ 63"
    using sent_ids_props(3) [OF sd] by (auto simp: numMaxATAplus1_def intro: less_SucI)
  obtain d1 where d1: "handle_entries X h (map (value_xml T sd) ?ids) d = Some d1"
    and rec: "\<forall>i\<in>set ?ids. m_SMARTattrs d1 i = received_attr X (value_xml T sd i) (sent_raw T sd i) (m_SMARTattrs d i)"
    and val: "\<forall>i\<in>set ?ids. m_rawValue (m_SMARTattrs d1 i) = uint (sent_raw T sd i)
         \<and> successfullyReadSMARTrawValue (m_SMARTattrs d1 i) = 1
         \<and> lowerUnitBound (m_SMARTuniqueID d1) i = lowerUnitBound (m_SMARTuniqueID sd) i
         \<and> upperUnitBound (m_SMARTuniqueID d1) i = upperUnitBound (m_SMARTuniqueID sd) i
         \<and> units (m_SMARTuniqueID d1) i = units (m_SMARTuniqueID sd) i"
    and oth: "\<forall>j. j \<notin> set ?ids \<longrightarrow> m_SMARTattrs d1 j = m_SMARTattrs d j"
    and keep: "uid_key h (m_SMARTuniqueID d1) = uid_key h (m_SMARTuniqueID d)"
      "SMART_IDsToRd (m_SMARTuniqueID d1) = SMART_IDsToRd (m_SMARTuniqueID d)"
      "busType (m_SMARTuniqueID d1) = busType (m_SMARTuniqueID d)"
    using sent_values_handled [OF X(1) h(2) sent_ids_props(2) [OF sd] ids, of d] blank(3) by auto
  have got: "GetSMARTrawValues X h (values_xml T sd) d = Some d1"
    using d1 by (simp add: GetSMARTrawValues_def values_xml_def filter_map comp_def)
       (simp add: value_xml_def)
  have none: "noSMARTattrsToRead h (m_SMARTuniqueID d1) = Some True"
    using blank(1,2) h(1) keep(2) by (simp add: noSMARTattrsToRead_def SMART_IDsToReadNotEnd_def)
  have succ: "successfullyReadSMARTrawValue (m_SMARTattrs d1 i) \<noteq> 0 \<longleftrightarrow> i \<in> set ?ids"
    if "i < numMaxATAplus1 h" for i
    using that val oth blank(4) by (cases "i \<in> set ?ids") auto
  define d2 where "d2 = setSMART_IDsToReadFromSuccSMARTrawValUpd8 h d1"
  have arr: "id_list (SMART_IDsToRd (m_SMARTuniqueID d2))
      = filter (\<lambda>i. successfullyReadSMARTrawValue (m_SMARTattrs d1 i) \<noteq> 0) [1..<numSATA h]"
    unfolding d2_def by (rule IDsToRead_from_read_values) (use blank(2) keep(2) h(1) in simp_all)
  have "set (filter (\<lambda>i. successfullyReadSMARTrawValue (m_SMARTattrs d1 i) \<noteq> 0) [1..<numSATA h]) = set ?ids"
  proof (rule set_eqI)
    fix i show "i \<in> set (filter (\<lambda>i. successfullyReadSMARTrawValue (m_SMARTattrs d1 i) \<noteq> 0) [1..<numSATA h])
        \<longleftrightarrow> i \<in> set ?ids"
      using succ [of i] sent_ids_props(3) [OF sd, of i] by (auto simp: numMaxATAplus1_def)
  qed
  then have list: "id_list (SMART_IDsToRd (m_SMARTuniqueID d2)) = ?ids"
    unfolding arr by (intro strict_sorted_equal sorted_wrt_filter sent_ids_props(1) [OF sd])
      (simp_all add: sorted_wrt_upt)
  have obs: "{i. i < numMaxATAplus1 h \<and> successfullyReadSMARTrawValue (m_SMARTattrs d1 i) \<noteq> 0} = set ?ids"
    using succ ids by auto
  have d2: "m_SMARTattrs d2 = m_SMARTattrs d1" "units (m_SMARTuniqueID d2) = units (m_SMARTuniqueID d1)"
      "lowerUnitBound (m_SMARTuniqueID d2) = lowerUnitBound (m_SMARTuniqueID d1)"
      "upperUnitBound (m_SMARTuniqueID d2) = upperUnitBound (m_SMARTuniqueID d1)"
      "uid_key h (m_SMARTuniqueID d2) = uid_key h (m_SMARTuniqueID d1)"
      "busType (m_SMARTuniqueID d2) = busType (m_SMARTuniqueID d1)"
    by (simp_all add: d2_def setSMART_IDsToReadFromSuccSMARTrawValUpd8_def uid_key_def Let_def split: prod.splits)
  have key: "uid_key h (fst (v, set supp)) = uid_key h (snd (GetSMARTuniqueID_xml h (values_xml T sd) (m_SMARTuniqueID d0)))"
    using v(2) by (simp add: values_xml_def key_of_texts)
  have len': "string_bytes t1 \<noteq> []" "length (string_bytes t1) \<le> 65533" "string_bytes t2 \<noteq> []" "length (string_bytes t2) \<le> 65533"
    using len by (simp_all add: string_bytes_def)
  have x: "getXMLdoc X (string_bytes t2) = Some (values_xml T sd)"
    using X(3) by (simp add: getXMLdoc_def reads_text_def)
  obtain s' where "GetSMARTvaluesAndUpdateUI False t X h u0 d0 s = Some s'" "ss_socket s' = r"
      "ss_drives s' = [d2]" "ss_toObserve s' = set ?ids"
    using session_one_drive [OF bs(1) len' bs(2) x v(1) key, of d1 True t] got none obs
    by (auto simp: d_def d2_def)
  moreover have "\<exists>b. m_SMARTattrs d2 i = received_attr X (value_xml T sd i) (sent_raw T sd i) b
      \<and> length (rawParts b) = length (rawParts (m_SMARTattrs d0 i))
      \<and> length (timeStampOfRetrieval b) = length (timeStampOfRetrieval (m_SMARTattrs d0 i))" if "i \<in> set ?ids" for i
    using that rec d2(1) new_drive_lengths [of h d0 v i] by (metis d_def)
  ultimately show ?thesis
    using val d2 keep(1,3) blank(5,6) v(2,4) list setIDs_array [of d1 h, folded d2_def] blank(2) keep(2) h(1)
    by (intro exI [of _ s'] exI [of _ d2]) auto
qed

text \<open>What the service sends for a drive are its two texts, and neither is empty.\<close>

lemma BeforeWait_one:
  "BeforeWait T h wr [d] clients = Some (left, [t]) \<Longrightarrow> drive_text T h d = Some t"
  by (auto simp: BeforeWait_def bind_eq_Some_conv Let_def)

lemma SendSupported_one:
  assumes "SendSupportedSMART_IDsToClient (\<lambda>_. Some supp) wr fd [u] = Some [t]"
  shows "t \<noteq> []"
proof -
  have "supp \<noteq> []" using assms by (auto simp: SendSupportedSMART_IDsToClient_def)
  then show ?thesis using supported_text [OF _ assms] by (simp add: carrier_begin_def)
qed

lemma drive_text_nonempty: "drive_text T h d = Some t \<Longrightarrow> t \<noteq> []"
  by (auto simp: drive_text_def carrier_begin_def)

text \<open>
  C8: A drive of the service arrives at a client. When the service sends a new
  client the supported attributes of its drive, and after a read the values of
  the drive, then the client whose socket holds these two messages ends up with
  this one drive: it has the same identification, the attributes it reads and
  observes are those that the service had read consistently, and each of them has
  the service's raw value, unit and bounds of the unit. What follows the two
  messages stays in the socket for the update thread. The raw values are below 2
  to the power of 63 and no message is longer than 65533 bytes. Of the XML parser
  it is relied on that it reads the two texts as the elements they are made from.
\<close>

theorem service_drive_reaches_client:
  fixes sd :: "'l::len word SMARTuniqueIDandValues" and d0 :: "'m::len word SMARTuniqueIDandValues"
  assumes "SendSupportedSMART_IDsToClient (\<lambda>_. Some supp) wr fd [m_SMARTuniqueID sd] = Some [t1]"
    and "BeforeWait T h wr [sd] clients = Some (left, [t2])"
    and "framing.encode_all wire_encode [string_bytes t1, string_bytes t2] = Some bs" "ss_socket s = bs @ r"
    and "length t1 \<le> 65533" "length t2 \<le> 65533"
    and "service_drive T h sd" "constructed h u0" "constructed_drive h d0"
    and "0 < numSATA h" "numMaxATAplus1 h \<le> 2 ^ 31" "length supp \<le> numSATA h"
    and "\<forall>n\<in>set supp. convertToTypename X (dec n) = Some n \<and> n \<le> numMaxATAplus1 h"
    and "conversions_read X" "reads_text X t1 (supported_xml (m_SMARTuniqueID sd) supp)"
      "reads_text X t2 (values_xml T sd)"
  shows "\<exists>s' d. GetSMARTvaluesAndUpdateUI False t X h u0 d0 s = Some s'
    \<and> ss_socket s' = r \<and> ss_drives s' = [d] \<and> uid_key h (m_SMARTuniqueID d) = uid_key h (m_SMARTuniqueID sd)
    \<and> id_list (SMART_IDsToRd (m_SMARTuniqueID d)) = sent_ids T sd \<and> ss_toObserve s' = set (sent_ids T sd)
    \<and> (\<forall>i\<in>set (sent_ids T sd). m_rawValue (m_SMARTattrs d i) = uint (sent_raw T sd i)
         \<and> successfullyReadSMARTrawValue (m_SMARTattrs d i) = 1
         \<and> lowerUnitBound (m_SMARTuniqueID d) i = lowerUnitBound (m_SMARTuniqueID sd) i
         \<and> upperUnitBound (m_SMARTuniqueID d) i = upperUnitBound (m_SMARTuniqueID sd) i
         \<and> units (m_SMARTuniqueID d) i = units (m_SMARTuniqueID sd) i)"
proof -
  note t = SendSupported_one [OF assms(1)] assms(5)
    drive_text_nonempty [OF BeforeWait_one [OF assms(2)]] assms(6)
  show ?thesis
    using service_drive_client [OF assms(7,10-13) assms(14-16) t assms(3,4) assms(8,9), of t] by blast
qed

text \<open>A drive with one attribute read, 30 after a second, and a client.\<close>

definition sent_example :: "64 word SMARTuniqueIDandValues" where
  "sent_example = \<lparr>m_SMARTuniqueID = blank_uid\<lparr>SMART_IDsToRd := 194 # 0 # replicate 253 7\<rparr>,
     m_SMARTattrs = (\<lambda>_. attr_example64\<lparr>successfullyReadSMARTrawValue := 1, rawParts := [30],
       rawValueCheckSum := 30, timeStampOfRetrieval := [1000], timeCheckSum := 1000\<rparr>)\<rparr>"

definition receiver_example :: "64 word SMARTuniqueIDandValues" where
  "receiver_example = \<lparr>m_SMARTuniqueID = blank_uid\<lparr>SMART_IDsToRd := 0 # replicate 254 7, units := (\<lambda>_. 0)\<rparr>,
     m_SMARTattrs = (\<lambda>_. attr_example64\<lparr>successfullyReadSMARTrawValue := 0\<rparr>)\<rparr>"

lemma string_bytes_append: "string_bytes (a @ b) = string_bytes a @ string_bytes b"
  by (simp add: string_bytes_def)

lemma sent_example_values:
  "m_SMARTattrs sent_example i = attr_example64\<lparr>rawParts := [30], rawValueCheckSum := 30,
     timeStampOfRetrieval := [1000], timeCheckSum := 1000\<rparr>"
  "sent_raw TYPE(64) sent_example i = 30" "sent_ids TYPE(64) sent_example = [194]"
  "service_drive TYPE(64) std_sizes sent_example"
  by (simp_all add: sent_example_def attr_example64_def sent_raw_def sent_ids_def service_drive_def
      IsConsistent_def id_list_def std_sizes_def)

lemma dec_examples: "dec 194 = ''194''" "dec 241 = ''241''" "dec 30 = ''30''" "dec 1 = ''1''" "dec 0 = ''0''"
  by (simp_all add: dec_rec digit_char_def char_of_def bit_Suc_0_iff)

lemma sent_example_attrs:
  "entry_attrs (m_SMARTuniqueID sent_example) 194 30 (retrieval_seconds (m_SMARTattrs sent_example 194))
    = [(''ID'', ''194''), (''raw_value'', ''30''), (''time_in_s'', ''1.000'')]"
proof -
  have "f32 (f32 1000 / 1000) = 1" using f32_exact_int [of 1] by simp
  then have t: "retrieval_seconds (m_SMARTattrs sent_example 194) = 1"
    by (simp add: sent_example_values(1) retrieval_seconds_def attr_example64_def GetRetrievalTime_def)
  have f: "fixed3 1 = ''1.000''" using rne_of_int [of 1000] by (simp add: fixed3_def dec_examples [simplified])
  have "units (m_SMARTuniqueID sent_example) 194 = 0" "lowerUnitBound (m_SMARTuniqueID sent_example) 194 = 0"
    "upperUnitBound (m_SMARTuniqueID sent_example) 194 = 0"
    by (simp_all add: sent_example_def blank_uid_def initAttrVals_def)
  then show ?thesis
    unfolding t by (simp add: entry_attrs_def f dec_examples)
qed

definition sent_texts :: "string \<times> string" where
  "sent_texts = (let u = m_SMARTuniqueID sent_example in
     (carrier_begin u @ ''<supportedSMART_IDs>194,241</supportedSMART_IDs>'' @ carrier_end,
      carrier_begin u @ ''<SMART ID=\"194\" raw_value=\"30\" time_in_s=\"1.000\"/>'' @ carrier_end))"

lemma sent_texts_length: "length (fst sent_texts) \<le> 65533" "length (snd sent_texts) \<le> 65533"
proof -
  have "carrier_begin (m_SMARTuniqueID sent_example) = carrier_begin blank_uid"
    by (simp add: carrier_begin_def carrier_attrs_def sent_example_def)
  then show "length (fst sent_texts) \<le> 65533" "length (snd sent_texts) \<le> 65533"
    using carrier_example_length by (simp_all add: sent_texts_def Let_def)
qed

lemma sent_example_supported:
  "SendSupportedSMART_IDsToClient (\<lambda>_. Some [194, 241]) (\<lambda>_ _. Wrote) 8 [m_SMARTuniqueID sent_example]
    = Some [fst sent_texts]"
proof -
  have "length (string_bytes (fst sent_texts)) \<le> 65533"
    using sent_texts_length by (simp add: string_bytes_def)
  from ByteArray_valid [OF this] show ?thesis
    by (simp add: SendSupportedSMART_IDsToClient_def SendBytesTo1Client_def dec_examples sent_texts_def Let_def)
qed

lemma sent_example_text: "drive_text TYPE(64) std_sizes sent_example = Some (snd sent_texts)"
proof (subst drive_text_values)
  show "0 \<in> set (SMART_IDsToRd (m_SMARTuniqueID sent_example))"
    "length (SMART_IDsToRd (m_SMARTuniqueID sent_example)) \<le> numSATA std_sizes"
    by (simp_all add: sent_example_def std_sizes_def)
qed (simp add: sent_example_values(2,3) value_xml_def sent_example_attrs entry_text_def xml_attr_def
    sent_texts_def Let_def)

text \<open>A parser that knows the two texts.\<close>

definition sent_parser :: xml_env where
  "sent_parser = std_xml\<lparr>parseXML := (\<lambda>b.
     if b = string_bytes (fst sent_texts) then Some (Some (supported_xml (m_SMARTuniqueID sent_example) [194, 241]))
     else if b = string_bytes (snd sent_texts) then Some (Some (values_xml TYPE(64) sent_example))
     else None), toFloat := (\<lambda>s. if s = ''1.000'' then Some 1 else None)\<rparr>"

lemma sent_texts_differ: "string_bytes (snd sent_texts) \<noteq> string_bytes (fst sent_texts)"
  by (simp add: sent_texts_def Let_def string_bytes_append) (simp add: string_bytes_def)

lemma sent_parser_reads:
  "reads_text sent_parser (fst sent_texts) (supported_xml (m_SMARTuniqueID sent_example) [194, 241])"
  "reads_text sent_parser (snd sent_texts) (values_xml TYPE(64) sent_example)"
  "conversions_read sent_parser" "convertToTypename sent_parser s = Some (undec s)"
  using std_conversions_read sent_texts_differ
  by (simp_all add: reads_text_def sent_parser_def conversions_read_def) (simp_all add: std_xml_def)

lemma sent_example_wait:
  "BeforeWait TYPE(64) std_sizes (\<lambda>_ _. Wrote) [sent_example] [] = Some ([], [snd sent_texts])"
proof -
  have "length (string_bytes (snd sent_texts)) \<le> 65533" using sent_texts_length by (simp add: string_bytes_def)
  from ByteArray_valid [OF this] show ?thesis
    by (simp add: BeforeWait_def sent_example_text SendBytesToAllClients_def RemoveFileDescsOfBrokenSocketConns_def)
qed

lemma sent_example_bytes:
  obtains bs where "framing.encode_all wire_encode [string_bytes (fst sent_texts), string_bytes (snd sent_texts)] = Some bs"
  using wire.stream_roundtrip [of "[string_bytes (fst sent_texts), string_bytes (snd sent_texts)]"]
    drive_text_nonempty [OF sent_example_text] SendSupported_one [OF sent_example_supported] sent_texts_length
  by (auto simp: wire_valid_def string_bytes_def)

lemma receiver_constructed:
  "constructed std_sizes (m_SMARTuniqueID receiver_example)" "constructed_drive std_sizes receiver_example"
  by (simp_all add: constructed_def constructed_drive_def receiver_example_def std_sizes_def blank_uid_def initAttrVals_def)

lemma example_sizes:
  "0 < numSATA std_sizes" "numMaxATAplus1 std_sizes \<le> 2 ^ 31" "length [194, 241 :: nat] \<le> numSATA std_sizes"
  "\<forall>n\<in>set [194, 241]. convertToTypename sent_parser (dec n) = Some n \<and> n \<le> numMaxATAplus1 std_sizes"
  by (simp_all add: std_sizes_def numMaxATAplus1_def sent_parser_reads)

lemmas sent_example_facts = sent_texts_length sent_example_values(4) receiver_constructed

theorem service_drive_reaches_client_witness:
  "\<exists>bs s' d. framing.encode_all wire_encode [string_bytes (fst sent_texts), string_bytes (snd sent_texts)] = Some bs
    \<and> GetSMARTvaluesAndUpdateUI False 7 sent_parser std_sizes (m_SMARTuniqueID receiver_example) receiver_example
        (session_example (bs @ [1, 2])) = Some s'
    \<and> ss_socket s' = [1, 2] \<and> ss_drives s' = [d] \<and> id_list (SMART_IDsToRd (m_SMARTuniqueID d)) = [194]
    \<and> ss_toObserve s' = {194} \<and> m_rawValue (m_SMARTattrs d 194) = 30"
proof -
  obtain bs where bs: "framing.encode_all wire_encode
      [string_bytes (fst sent_texts), string_bytes (snd sent_texts)] = Some bs" by (rule sent_example_bytes)
  have sock: "ss_socket (session_example (bs @ [1, 2])) = bs @ [1, 2]" by (simp add: session_example_def)
  obtain s' d where "GetSMARTvaluesAndUpdateUI False 7 sent_parser std_sizes (m_SMARTuniqueID receiver_example)
        receiver_example (session_example (bs @ [1, 2])) = Some s'"
      "ss_socket s' = [1, 2]" "ss_drives s' = [d]" "id_list (SMART_IDsToRd (m_SMARTuniqueID d)) = [194]"
      "ss_toObserve s' = set [194]" "m_rawValue (m_SMARTattrs d 194) = uint (30 :: 64 word)"
    using service_drive_reaches_client [OF sent_example_supported sent_example_wait bs sock sent_example_facts
        example_sizes sent_parser_reads(3,1,2), of 7]
    unfolding sent_example_values by (metis list.set_intros(1))
  then show ?thesis
    using bs by (intro exI [of _ bs] exI [of _ s'] exI [of _ d]) simp
qed

end
