(* ===== verification/ValuesShown.thy ===== *)
theory ValuesShown
  imports EndToEnd WxApp
begin

text \<open>
  The last part of the way of a value: the client with the wxWidgets interface,
  after a session with the service, builds its window for the drives of the
  session and shows the values in it. The theorem at the end composes the service
  (\<open>SendSupportedSMART_IDsToClient\<close>, \<open>BeforeWait\<close>), the messages, the session
  (\<open>GetSMARTvaluesAndUpdateUI\<close>), the container of drives, the panels
  (\<open>ReBuildUserInterface\<close>) and the update of the table (\<open>UpdateSMARTvaluesUI\<close>).
\<close>

section \<open>A received attribute\<close>

definition received_ms :: "xml_env \<Rightarrow> xml \<Rightarrow> 64 word" where
  "received_ms X e = of_nat (nat \<lfloor>numAttribute (toFloat X) e ''time_in_s'' 0 * 1000\<rfloor>)"

lemma SetRetrievalTime_parts: "rawParts (SetRetrievalTime ms (a :: 64 word SMARTattr)) = rawParts a"
  by (simp add: SetRetrievalTime_def time_steps_def time_first_steps_def run_steps_def)

lemma received_attr_read:
  fixes a :: "64 word SMARTattr"
  assumes "rawParts a \<noteq> []" "length (timeStampOfRetrieval a) = 1"
  shows "IsConsistent TYPE('u::len) (received_attr X e raw a) = (True, raw)"
    and "GetRetrievalTime (received_attr X e raw a) = (True, received_ms X e)"
proof -
  let ?b = "SetRetrievalTime (received_ms X e) (a\<lparr>successfullyReadSMARTrawValue := 1\<rparr>)"
  have r: "received_attr X e raw a = (setRawVal raw ?b)\<lparr>m_rawValue := uint raw\<rparr>"
    by (simp add: received_attr_def received_ms_def)
  have "IsConsistent TYPE('u) (setRawVal raw ?b) = (True, raw)"
    by (rule raw_value_roundtrip64) (use assms(1) in \<open>simp add: SetRetrievalTime_parts\<close>)
  then show "IsConsistent TYPE('u) (received_attr X e raw a) = (True, raw)"
    by (auto simp: r IsConsistent_def)
  obtain z where "timeStampOfRetrieval a = [z]" using assms(2) by (auto simp: length_Suc_conv)
  then have "GetRetrievalTime ?b = (True, received_ms X e)"
    by (simp add: SetRetrievalTime_def time_steps_def time_first_steps_def run_steps_def GetRetrievalTime_def)
  then show "GetRetrievalTime (received_attr X e raw a) = (True, received_ms X e)"
    by (simp add: r GetRetrievalTime_def setRawVal_other)
qed

section \<open>The cells of an update\<close>

definition call_cells :: "ui_call list \<Rightarrow> rat cell list" where
  "call_cells cs = map (\<lambda>c. (sa_attr c, the (sa_col c), sa_text c, sa_rating c)) cs"

definition raw_col :: "bus \<Rightarrow> nat" where
  "raw_col b = (if b = NVMe then NVMe_col_idx NVMe_RawVal else ATA_col_idx ATA_RawVal)"

definition time_col :: "bus \<Rightarrow> nat" where
  "time_col b = (if b = NVMe then NVMe_col_idx NVMe_LastUpdate else ATA_col_idx ATA_LastUpdate)"

definition raw_text :: "client_env \<Rightarrow> bus \<Rightarrow> attr_id \<Rightarrow> nat \<Rightarrow> string" where
  "raw_text E b i v = (if b = NVMe then NVMe_fmtRawVal v else ATA_fmtRawVal (env_A E) i v)"

lemma last_text_append: "last_text (cs @ cs') k =
    (case last_text cs' k of None \<Rightarrow> last_text cs k | Some v \<Rightarrow> Some v)"
  by (simp add: last_text_def map_add_def split: option.splits)

lemma last_text_attr: "\<forall>c\<in>set cs. sa_attr c \<noteq> i \<Longrightarrow> last_text (call_cells cs) (i, q) = None"
  by (rule last_text_None) (auto simp: call_cells_def)

lemma upd8_cell_texts:
  assumes "upd8rawAndH_andTime T E i d m = Some (r, calls)"
    and "successfullyReadSMARTrawValue (m_SMARTattrs d i) \<noteq> 0"
    and "fst (IsConsistent T (m_SMARTattrs d i))"
    and "GetRetrievalTime (m_SMARTattrs d i) = (True, t)" "t \<noteq> 0"
  shows "last_text (call_cells calls) (i, raw_col (busType (m_SMARTuniqueID d)))
      = Some (raw_text E (busType (m_SMARTuniqueID d)) i (nat (m_rawValue (m_SMARTattrs d i))))"
    and "last_text (call_cells calls) (i, time_col (busType (m_SMARTuniqueID d)))
      = Some (FormatTime (env_w E) (unat t))"
    and "last_text (call_cells calls) (i, ATA_col_idx ATA_ID) = None"
  using assms
  by (auto simp: upd8rawAndH_andTime_def Let_def UpdateTimeOfSMARTvalueRetrieval_def call_cells_def
      last_text_Cons raw_col_def time_col_def raw_text_def)

lemma received_cells:
  fixes d :: "64 word SMARTuniqueIDandValues"
  assumes "upd8rawAndH_andTime TYPE('u::len) E i d m = Some (rtg, cs)"
    and b: "m_SMARTattrs d i = received_attr X e raw b" "rawParts b \<noteq> []" "length (timeStampOfRetrieval b) = 1"
    and "received_ms X e \<noteq> 0"
  shows "last_text (call_cells cs) (i, raw_col (busType (m_SMARTuniqueID d)))
      = Some (raw_text E (busType (m_SMARTuniqueID d)) i (unat raw))"
    and "last_text (call_cells cs) (i, time_col (busType (m_SMARTuniqueID d)))
      = Some (FormatTime (env_w E) (unat (received_ms X e)))"
    and "last_text (call_cells cs) (i, 0) = None"
proof -
  have rd: "IsConsistent TYPE('u) (m_SMARTattrs d i) = (True, raw)"
    "GetRetrievalTime (m_SMARTattrs d i) = (True, received_ms X e)"
    unfolding b(1) by (rule received_attr_read [OF b(2,3)])+
  show "last_text (call_cells cs) (i, raw_col (busType (m_SMARTuniqueID d)))
      = Some (raw_text E (busType (m_SMARTuniqueID d)) i (unat raw))"
    "last_text (call_cells cs) (i, time_col (busType (m_SMARTuniqueID d)))
      = Some (FormatTime (env_w E) (unat (received_ms X e)))"
    "last_text (call_cells cs) (i, 0) = None"
    using upd8_cell_texts [OF assms(1) _ _ rd(2) assms(5)] rd(1) b(1) by simp_all
qed

text \<open>The cells of one attribute among those of all attributes.\<close>

lemma upd8_attr: "upd8rawAndH_andTime T E i d m = Some (r, calls) \<Longrightarrow>
    \<forall>c\<in>set calls. sa_attr c = i \<and> sa_drive c = m_SMARTuniqueID d"
  by (auto simp: upd8rawAndH_andTime_def Let_def UpdateTimeOfSMARTvalueRetrieval_def split: if_splits prod.splits)

lemma upd8_attrs_calls:
  assumes "upd8_attrs T E d m ids r = Some (r', calls)" "distinct ids"
  shows "(\<forall>c\<in>set calls. is_SetAttribute c \<and> sa_attr c \<in> set ids \<and> sa_drive c = m_SMARTuniqueID d)
    \<and> (\<forall>i\<in>set ids. \<exists>rtg cs. upd8rawAndH_andTime T E i d m = Some (rtg, cs)
         \<and> (\<forall>q. last_text (call_cells calls) (i, q) = last_text (call_cells cs) (i, q)))"
  using assms
proof (induction ids arbitrary: r calls)
  case (Cons j ids)
  obtain rtg cs cs' where *: "upd8rawAndH_andTime T E j d m = Some (rtg, cs)"
    "upd8_attrs T E d m ids (if rtg < SMARTvalAbs1RngWarnThresh then AtLeast1Warn else r) = Some (r', cs')"
    "calls = cs @ cs'"
    using Cons.prems by (auto split: Option.bind_splits)
  have d: "distinct ids" "j \<notin> set ids" using Cons.prems by simp_all
  note IH = Cons.IH [OF *(2) d(1)] and j = upd8_attr [OF *(1)] upd8_SetAttribute [OF *(1)]
  have cells: "call_cells calls = call_cells cs @ call_cells cs'" by (simp add: *(3) call_cells_def)
  have "last_text (call_cells calls) (j, q) = last_text (call_cells cs) (j, q)" for q
  proof -
    have "\<forall>c\<in>set cs'. sa_attr c \<noteq> j" using IH d(2) by auto
    then show ?thesis by (simp add: cells last_text_append last_text_attr)
  qed
  moreover have "last_text (call_cells calls) (i, q) = last_text (call_cells cs') (i, q)" if "i \<in> set ids" for i q
  proof -
    have "\<forall>c\<in>set cs. sa_attr c \<noteq> i" using j(1) d(2) that by auto
    then show ?thesis by (simp add: cells last_text_append last_text_attr split: option.splits)
  qed
  ultimately show ?case using *(1) IH j by (auto simp: *(3))
qed simp

text \<open>The cells set one after the other in the window.\<close>

lemma app_calls_table:
  assumes "app_calls E calls A = Some A'"
    and "\<forall>c\<in>set calls. is_SetAttribute c \<and> sa_attr c \<in> set ids \<and> sa_drive c = u"
    and "find_panel (en_h E) u (ap_dialog A) = Some p" "p < length (dl_store (ap_dialog A))"
    and "table_for ids (pn_list (dl_store (ap_dialog A) ! p))"
  shows "dl_panels (ap_dialog A') = dl_panels (ap_dialog A)
    \<and> table_for ids (pn_list (dl_store (ap_dialog A') ! p))
    \<and> (\<forall>k<length ids. \<forall>q. ln_text (tb_lines (pn_list (dl_store (ap_dialog A') ! p)) ! k) q =
        (case last_text (call_cells calls) (ids ! k, q) of Some v \<Rightarrow> v
         | None \<Rightarrow> ln_text (tb_lines (pn_list (dl_store (ap_dialog A) ! p)) ! k) q))"
  using assms
proof (induction calls arbitrary: A)
  case (Cons c calls)
  obtain A1 where A1: "app_call E c A = Some A1" "app_calls E calls A1 = Some A'"
    using Cons.prems(1) by (auto split: Option.bind_splits)
  obtain i col v r where c: "c = SetAttribute u i col v r" "i \<in> set ids"
    using Cons.prems(2) by (cases c) auto
  obtain k where k: "k < length ids" "ids ! k = i" using c(2) by (auto simp: in_set_conv_nth)
  obtain q D1 where q: "col = Some q" "SetAttribute_UI (en_h E) u i q v r (ap_dialog A) = Some D1"
      "A1 = A\<lparr>ap_dialog := D1\<rparr>"
    using A1(1) by (auto simp: c(1) app_call_def wx_SetAttribute_def split: Option.bind_splits)
  let ?pn = "dl_store (ap_dialog A) ! p"
  obtain pn where pn: "panel_cell i q v r ?pn = Some pn" "D1 = (ap_dialog A)\<lparr>dl_store := (dl_store (ap_dialog A))[p := pn]\<rparr>"
    using q(2) Cons.prems(3) by (auto simp: SetAttribute_UI_def bind_eq_Some_conv)
  obtain cl where "GetClrAccordng1toMns1Rng r = Some cl"
    using pn(1) by (auto simp: panel_cell_def SetSMARTattribValue_def Let_def)
  from panel_cell_table [OF Cons.prems(5) k(1) this, of q v] obtain tb where
    tb: "pn = ?pn\<lparr>pn_list := tb\<rparr>" "table_for ids tb"
      "\<forall>j<length ids. \<forall>q'. ln_text (tb_lines tb ! j) q' =
         (if j = k \<and> q' = q then v else ln_text (tb_lines (pn_list ?pn) ! j) q')"
    using pn(1) k(2) by auto
  have st: "dl_store (ap_dialog A1) ! p = pn" "dl_panels (ap_dialog A1) = dl_panels (ap_dialog A)"
      "length (dl_store (ap_dialog A1)) = length (dl_store (ap_dialog A))"
    using q(3) pn(2) Cons.prems(4) by simp_all
  have inj: "ids ! j = ids ! k \<longleftrightarrow> j = k" if "j < length ids" for j
    using tb(2) that k(1) unfolding table_for_def by (metis option.inject)
  have cell: "call_cells (c # calls) = (i, q, v, r) # call_cells calls"
    by (simp add: call_cells_def c(1) q(1))
  note IH = Cons.IH [OF A1(2)]
  have fp: "find_panel (en_h E) u (ap_dialog A1) = Some p" using find_panel_cong [OF st(2)] Cons.prems(3) by simp
  have "dl_panels (ap_dialog A') = dl_panels (ap_dialog A1)
    \<and> table_for ids (pn_list (dl_store (ap_dialog A') ! p))
    \<and> (\<forall>k<length ids. \<forall>q. ln_text (tb_lines (pn_list (dl_store (ap_dialog A') ! p)) ! k) q =
        (case last_text (call_cells calls) (ids ! k, q) of Some v \<Rightarrow> v
         | None \<Rightarrow> ln_text (tb_lines (pn_list (dl_store (ap_dialog A1) ! p)) ! k) q))"
    by (rule IH) (use Cons.prems(2,4) fp st tb in auto)
  then show ?case
    using st tb inj k unfolding cell by (auto simp: last_text_Cons split: option.splits)
qed (simp add: call_cells_def)

definition same_panels :: "'l app \<Rightarrow> 'l app \<Rightarrow> bool" where
  "same_panels A' A \<longleftrightarrow> dl_panels (ap_dialog A') = dl_panels (ap_dialog A)
     \<and> dl_store (ap_dialog A') = dl_store (ap_dialog A)"

lemma same_panels_icon: "same_panels (ShowIcon E i m A) A"
  by (simp add: same_panels_def ShowIcon_def Let_def upd_dialog_def)

lemma same_panels_state: "same_panels (wx_ShowState E r A) A"
  by (cases r) (simp_all add: wx_ShowState_def ShowSMARTokIcon_def ShowSMARTwarningIcon_def same_panels_icon,
    simp_all add: same_panels_def)

lemma same_panels_connection: "same_panels (wx_ChangeConnectionState True E n A) A"
proof -
  have "same_panels (SetState E n A) A"
  proof -
    have "same_panels (ShowSMARTstatusUnknownIcon E B) A" if "same_panels B A" for B
      using that same_panels_icon [of E SMARTstatusUnknownIcon _ B]
      by (simp add: ShowSMARTstatusUnknownIcon_def same_panels_def)
    then show ?thesis
      by (cases n) (simp_all add: SetState_def Let_def same_panels_def upd_dialog_def)
  qed
  then show ?thesis by (simp add: wx_ChangeConnectionState_def same_panels_def)
qed

lemma app_state_calls:
  "\<lbrakk>app_calls E cs A = Some A'; \<forall>c\<in>set cs. \<not> is_SetAttribute c\<rbrakk>
    \<Longrightarrow> dl_panels (ap_dialog A') = dl_panels (ap_dialog A) \<and> dl_store (ap_dialog A') = dl_store (ap_dialog A)"
proof (induction cs arbitrary: A)
  case (Cons c cs)
  obtain A1 where A1: "app_call E c A = Some A1" "app_calls E cs A1 = Some A'"
    using Cons.prems(1) by (auto split: Option.bind_splits)
  have "dl_panels (ap_dialog A1) = dl_panels (ap_dialog A) \<and> dl_store (ap_dialog A1) = dl_store (ap_dialog A)"
    using A1(1) Cons.prems(2)
    by (cases c) (auto simp: app_call_def same_panels_connection [unfolded same_panels_def]
        same_panels_state [unfolded same_panels_def] wx_SetCurrentAction_def ShowCurrentAction_def
        dlg_ShowMessage_def upd_dialog_def)
  then show ?case using Cons.IH [OF A1(2)] Cons.prems(2) by simp
qed simp

section \<open>The window after a session\<close>

lemma find_panel_key: "uid_key h u = uid_key h v \<Longrightarrow> find_panel h u D = find_panel h v D"
proof -
  assume "uid_key h u = uid_key h v"
  then have "set_find (panel_less h) (u, 0) xs = set_find (panel_less h) (v, 0) xs" for xs
    by (induction xs) (simp_all add: panel_less_def uid_less_key)
  then show ?thesis by (simp add: find_panel_def)
qed

text \<open>A window without panels that is rebuilt for one drive.\<close>

lemma one_drive_rebuilt:
  fixes A :: "'l::len word app"
  assumes "en_h E = h" "dl_panels (ap_dialog A) = []"
    and d: "SMARTuniqueIDsAndValues (ap_client A) = [d]" "wf_drive h (m_SMARTuniqueID d)"
  defines "ids \<equiv> id_list (SMART_IDsToRd (m_SMARTuniqueID d))"
  shows "\<exists>D1 p. wx_ReBuildUserInterface True E A = Some (A\<lparr>ap_dialog := D1\<rparr>)
    \<and> find_panel h (m_SMARTuniqueID d) D1 = Some p \<and> p < length (dl_store D1)
    \<and> table_for ids (pn_list (dl_store D1 ! p))
    \<and> (\<forall>k<length ids. ln_text (tb_lines (pn_list (dl_store D1 ! p)) ! k) 0 = dec (ids ! k))"
proof -
  let ?u = "m_SMARTuniqueID d" and ?E = "(ap_dialog A)\<lparr>dl_evtID := Map.empty\<rparr>"
  have "wf_dialog h ?E" using assms(2) by (simp add: wf_dialog_def)
  then obtain D1 p p0 where "ReBuildUserInterface h (en_defs E) [?u] (ap_dialog A) = Some D1"
      "find_panel h ?u D1 = Some p" "p < length (dl_store D1)" "fill_panel h (en_defs E) ?u p0 = Some (dl_store D1 ! p)"
    using rebuild_loop_new [of h ?E "[?u]" "en_defs E" showSupportedSMART_IDs] assms(2) d(2)
    by (auto simp: ReBuildUserInterface_def)
  then show ?thesis
    using fill_panel_table [OF d(2), of "en_defs E" p0] assms(1) d(1)
    by (intro exI [of _ D1] exI [of _ p]) (auto simp: wx_ReBuildUserInterface_def ids_def)
qed

text \<open>The calls of an update of a client with one drive: the cells of the drive come first.\<close>

lemma one_drive_calls:
  assumes "UpdateSMARTvaluesUI T E m0 c = Some (c', calls)" "env_h E = h"
    and d: "SMARTuniqueIDsAndValues c = [d]" "wf_drive h (m_SMARTuniqueID d)"
  obtains r cs cs' where "upd8_attrs T E d (getDataCarrierAttrDefs m0 (modelAndFirmwareTuples c) (m_SMARTuniqueID d))
      (id_list (SMART_IDsToRd (m_SMARTuniqueID d))) Unknown = Some (r, cs)"
    "calls = cs @ cs'" "\<forall>c\<in>set cs'. \<not> is_SetAttribute c"
proof -
  have "IDsToRead_from h (m_SMARTuniqueID d) 0 = Some (id_list (SMART_IDsToRd (m_SMARTuniqueID d)))"
    using d(2) IDsToRead_id_list by (simp add: wf_drive_def)
  then obtain r cs where cs: "upd8_attrs T E d (getDataCarrierAttrDefs m0 (modelAndFirmwareTuples c) (m_SMARTuniqueID d))
      (id_list (SMART_IDsToRd (m_SMARTuniqueID d))) Unknown = Some (r, cs)"
    and eq: "calls = cs @ (if upd8ThreadRunning c then [ChangeConnectionState valUpd8] else [])
        @ (if entireSMARTstatus c \<noteq> r then [ShowStateAccordingToSMARTvalues r] else [])"
    using assms(1-3) by (auto simp: UpdateSMARTvaluesUI_def split: Option.bind_splits)
  show thesis by (rule that [OF cs eq]) auto
qed

text \<open>The window rebuilt for one drive and filled by one update.\<close>

lemma one_drive_shown:
  fixes A :: "'l::len word app"
  assumes E: "en_h E = h" "env_h (en_client E) = h" and D: "dl_panels (ap_dialog A) = []"
    and d: "SMARTuniqueIDsAndValues (ap_client A) = [d]" "wf_drive h (m_SMARTuniqueID d)"
    and run: "wx_ReBuildUserInterface True E A = Some A1" "wx_UpdateSMARTvaluesUI T E A1 = Some A2"
  defines "ids \<equiv> id_list (SMART_IDsToRd (m_SMARTuniqueID d))"
  shows "\<exists>p. find_panel h (m_SMARTuniqueID d) (ap_dialog A2) = Some p
    \<and> table_for ids (pn_list (dl_store (ap_dialog A2) ! p))
    \<and> (\<forall>k<length ids. \<exists>rtg cs. upd8rawAndH_andTime T (en_client E) (ids ! k) d
          (getDataCarrierAttrDefs (en_model0 E) (modelAndFirmwareTuples (ap_client A)) (m_SMARTuniqueID d)) = Some (rtg, cs)
        \<and> (\<forall>q v. last_text (call_cells cs) (ids ! k, q) = Some v
             \<longrightarrow> ln_text (tb_lines (pn_list (dl_store (ap_dialog A2) ! p)) ! k) q = v)
        \<and> (last_text (call_cells cs) (ids ! k, 0) = None
             \<longrightarrow> ln_text (tb_lines (pn_list (dl_store (ap_dialog A2) ! p)) ! k) 0 = dec (ids ! k)))"
proof -
  let ?u = "m_SMARTuniqueID d"
  obtain D1 p where A1: "A1 = A\<lparr>ap_dialog := D1\<rparr>" and D1: "find_panel h ?u D1 = Some p" "p < length (dl_store D1)"
      and tf: "table_for ids (pn_list (dl_store D1 ! p))"
      "\<forall>k<length ids. ln_text (tb_lines (pn_list (dl_store D1 ! p)) ! k) 0 = dec (ids ! k)"
    using one_drive_rebuilt [OF E(1) D d] run(1) by (auto simp: ids_def)
  let ?m = "getDataCarrierAttrDefs (en_model0 E) (modelAndFirmwareTuples (ap_client A)) ?u"
  obtain c' calls where upd: "UpdateSMARTvaluesUI T (en_client E) (en_model0 E) (ap_client A) = Some (c', calls)"
      "app_calls E calls (A1\<lparr>ap_client := c'\<rparr>) = Some A2"
    using run(2) by (auto simp: A1 wx_UpdateSMARTvaluesUI_def split: Option.bind_splits)
  obtain r cs cs' where cs: "upd8_attrs T (en_client E) d ?m ids Unknown = Some (r, cs)"
      and cs': "calls = cs @ cs'" "\<forall>c\<in>set cs'. \<not> is_SetAttribute c"
    using one_drive_calls [OF upd(1) E(2) d] unfolding ids_def by blast
  obtain A3 where A3: "app_calls E cs (A1\<lparr>ap_client := c'\<rparr>) = Some A3" "app_calls E cs' A3 = Some A2"
    using upd(2) cs'(1) by (auto simp: app_calls_append split: Option.bind_splits)
  have "distinct ids" using d(2) by (simp add: wf_drive_def ids_def)
  note calls = upd8_attrs_calls [OF cs this]
  note st = app_state_calls [OF A3(2) cs'(2)]
  have A1': "ap_dialog (A1\<lparr>ap_client := c'\<rparr>) = D1" by (simp add: A1)
  have tab: "dl_panels (ap_dialog A3) = dl_panels D1"
      "table_for ids (pn_list (dl_store (ap_dialog A3) ! p))"
      "\<forall>k<length ids. \<forall>q. ln_text (tb_lines (pn_list (dl_store (ap_dialog A3) ! p)) ! k) q =
        (case last_text (call_cells cs) (ids ! k, q) of Some v \<Rightarrow> v
         | None \<Rightarrow> ln_text (tb_lines (pn_list (dl_store D1 ! p)) ! k) q)"
    using app_calls_table [OF A3(1), of ids ?u p, unfolded A1'] calls D1 tf(1) E(1) by simp_all
  have "find_panel h ?u (ap_dialog A2) = Some p"
    using find_panel_cong [of "ap_dialog A2" D1 h ?u] st tab(1) D1(1) by simp
  moreover have "\<exists>rtg cs. upd8rawAndH_andTime T (en_client E) (ids ! k) d ?m = Some (rtg, cs)
        \<and> (\<forall>q v. last_text (call_cells cs) (ids ! k, q) = Some v
             \<longrightarrow> ln_text (tb_lines (pn_list (dl_store (ap_dialog A2) ! p)) ! k) q = v)
        \<and> (last_text (call_cells cs) (ids ! k, 0) = None
             \<longrightarrow> ln_text (tb_lines (pn_list (dl_store (ap_dialog A2) ! p)) ! k) 0 = dec (ids ! k))"
    if k: "k < length ids" for k
  proof -
    obtain rtg cs1 where "upd8rawAndH_andTime T (en_client E) (ids ! k) d ?m = Some (rtg, cs1)"
        "\<forall>q. last_text (call_cells cs) (ids ! k, q) = last_text (call_cells cs1) (ids ! k, q)"
      using calls nth_mem [OF k] by blast
    then show ?thesis using tab(3) st tf(2) k by auto
  qed
  ultimately show ?thesis using tab(2) st by auto
qed

text \<open>The lines of the window for a drive whose attributes have been received.\<close>

lemma one_drive_lines:
  fixes A :: "64 word app"
  assumes run: "en_h E = h" "env_h (en_client E) = h" "dl_panels (ap_dialog A) = []"
      "SMARTuniqueIDsAndValues (ap_client A) = [d]" "wf_drive h (m_SMARTuniqueID d)"
      "wx_ReBuildUserInterface True E A = Some A1" "wx_UpdateSMARTvaluesUI TYPE('u::len) E A1 = Some A2"
    and ids: "id_list (SMART_IDsToRd (m_SMARTuniqueID d)) = ids" "busType (m_SMARTuniqueID d) = bt"
    and attrs: "\<And>i. i \<in> set ids \<Longrightarrow> \<exists>b. m_SMARTattrs d i = received_attr X (e i) (v i) b
        \<and> rawParts b \<noteq> [] \<and> length (timeStampOfRetrieval b) = 1 \<and> received_ms X (e i) \<noteq> 0"
  shows "\<exists>p. find_panel h (m_SMARTuniqueID d) (ap_dialog A2) = Some p
    \<and> length (tb_lines (pn_list (dl_store (ap_dialog A2) ! p))) = length ids
    \<and> (\<forall>k<length ids. let i = ids ! k; line = ln_text (tb_lines (pn_list (dl_store (ap_dialog A2) ! p)) ! k)
         in line 0 = dec i \<and> line (raw_col bt) = raw_text (en_client E) bt i (unat (v i))
          \<and> line (time_col bt) = FormatTime (env_w (en_client E)) (unat (received_ms X (e i))))"
proof -
  let ?m = "getDataCarrierAttrDefs (en_model0 E) (modelAndFirmwareTuples (ap_client A)) (m_SMARTuniqueID d)"
  from one_drive_shown [OF run, unfolded ids(1)] obtain p where
    p: "find_panel h (m_SMARTuniqueID d) (ap_dialog A2) = Some p" "table_for ids (pn_list (dl_store (ap_dialog A2) ! p))"
    and cells: "\<And>k. k < length ids \<Longrightarrow> \<exists>rtg cs.
        upd8rawAndH_andTime TYPE('u) (en_client E) (ids ! k) d ?m = Some (rtg, cs)
        \<and> (\<forall>q v. last_text (call_cells cs) (ids ! k, q) = Some v
             \<longrightarrow> ln_text (tb_lines (pn_list (dl_store (ap_dialog A2) ! p)) ! k) q = v)
        \<and> (last_text (call_cells cs) (ids ! k, 0) = None
             \<longrightarrow> ln_text (tb_lines (pn_list (dl_store (ap_dialog A2) ! p)) ! k) 0 = dec (ids ! k))"
    by blast
  have "let i = ids ! k; line = ln_text (tb_lines (pn_list (dl_store (ap_dialog A2) ! p)) ! k)
        in line 0 = dec i \<and> line (raw_col bt) = raw_text (en_client E) bt i (unat (v i))
         \<and> line (time_col bt) = FormatTime (env_w (en_client E)) (unat (received_ms X (e i)))"
    if k: "k < length ids" for k
  proof -
    obtain b where b: "m_SMARTattrs d (ids ! k) = received_attr X (e (ids ! k)) (v (ids ! k)) b"
        "rawParts b \<noteq> []" "length (timeStampOfRetrieval b) = 1" and ms: "received_ms X (e (ids ! k)) \<noteq> 0"
      using attrs [OF nth_mem [OF k]] by blast
    obtain rtg cs where u: "upd8rawAndH_andTime TYPE('u) (en_client E) (ids ! k) d ?m = Some (rtg, cs)"
      and c: "\<forall>q v. last_text (call_cells cs) (ids ! k, q) = Some v
             \<longrightarrow> ln_text (tb_lines (pn_list (dl_store (ap_dialog A2) ! p)) ! k) q = v"
        "last_text (call_cells cs) (ids ! k, 0) = None
             \<longrightarrow> ln_text (tb_lines (pn_list (dl_store (ap_dialog A2) ! p)) ! k) 0 = dec (ids ! k)"
      using cells [OF k] by (elim exE conjE) (rule that)
    note rc = received_cells [OF u b ms, unfolded ids(2)]
    show ?thesis unfolding Let_def by (intro conjI c(2) [rule_format] c(1) [rule_format] rc)
  qed
  then show ?thesis using p by (intro exI [of _ p]) (simp add: table_for_def)
qed

text \<open>The update has an effect on every window with a panel for the drive if its ratings have colours.\<close>

lemma app_calls_defined:
  assumes "find_panel (en_h E) u (ap_dialog A) = Some p" "p < length (dl_store (ap_dialog A))"
    and "table_for ids (pn_list (dl_store (ap_dialog A) ! p))"
    and "\<forall>c\<in>set calls. is_SetAttribute c \<and> sa_attr c \<in> set ids \<and> sa_drive c = u \<and> sa_col c \<noteq> None
      \<and> GetClrAccordng1toMns1Rng (sa_rating c) \<noteq> None"
  shows "\<exists>A'. app_calls E calls A = Some A'"
  using assms
proof (induction calls arbitrary: A)
  case (Cons c calls)
  obtain i q v r cl where c: "c = SetAttribute u i (Some q) v r" "i \<in> set ids" "GetClrAccordng1toMns1Rng r = Some cl"
    using Cons.prems(4) by (cases c) auto
  obtain k where k: "k < length ids" "ids ! k = i" using c(2) by (auto simp: in_set_conv_nth)
  obtain A1 where A1: "app_call E c A = Some A1" "length (dl_store (ap_dialog A1)) = length (dl_store (ap_dialog A))"
    using panel_cell_table [OF Cons.prems(3) k(1) c(3), of q v] k(2) Cons.prems(1)
    by (auto simp: app_call_def c(1) wx_SetAttribute_def SetAttribute_UI_def)
  have one: "app_calls E [c] A = Some A1" using A1(1) by simp
  have s1: "\<forall>c'\<in>set [c]. is_SetAttribute c' \<and> sa_attr c' \<in> set ids \<and> sa_drive c' = u" using Cons.prems(4) by simp
  from app_calls_table [OF one s1 Cons.prems(1-3)] have st: "dl_panels (ap_dialog A1) = dl_panels (ap_dialog A)"
    "table_for ids (pn_list (dl_store (ap_dialog A1) ! p))" by simp_all
  then have "find_panel (en_h E) u (ap_dialog A1) = Some p" using find_panel_cong Cons.prems(1) by metis
  then have "\<exists>A'. app_calls E calls A1 = Some A'" by (rule Cons.IH) (use A1(2) st Cons.prems(2,4) in auto)
  then show ?case using A1(1) by simp
qed simp

text \<open>
  C3: A window that shows no drive yet shows what the service has read. The
  client with the wxWidgets interface takes the two messages of the service for a
  drive, builds its window, which has no panel before, for the drives of the
  session and updates the values. Then the panel found for the service's drive has
  one line for each attribute the service had read consistently, in ascending
  order of the attributes and with its number in the first column, and the cells
  for the raw value and for the time show the service's raw value and the
  transmitted time. The drive of the service reads its attributes in ascending
  order, raw values below 2 to the power of 63 among them; no message is longer
  than 65533 bytes, and the parser reads both texts as the elements they are made
  from; the client's machine has 64 bit \<open>long int\<close>, the times are not 0, and the
  functions that format the values have a defined result (\<open>A2\<close> exists). For a
  window that has panels of other drives the claim does not hold (see
  \<open>rebuilt_window_misses_drive\<close>).
\<close>

theorem service_values_shown:
  fixes sd :: "'l::len word SMARTuniqueIDandValues" and d0 :: "64 word SMARTuniqueIDandValues"
  assumes "SendSupportedSMART_IDsToClient (\<lambda>_. Some supp) wr fd [m_SMARTuniqueID sd] = Some [t1]"
    and "BeforeWait T h wr [sd] clients = Some (left, [t2])"
    and "framing.encode_all wire_encode [string_bytes t1, string_bytes t2] = Some bs" "ss_socket s = bs @ r"
    and "length t1 \<le> 65533" "length t2 \<le> 65533"
    and "service_drive T h sd" "constructed h u0" "constructed_drive h d0"
    and "\<forall>i\<in>set (sent_ids T sd). rawParts (m_SMARTattrs d0 i) \<noteq> []
        \<and> length (timeStampOfRetrieval (m_SMARTattrs d0 i)) = 1 \<and> received_ms X (value_xml T sd i) \<noteq> 0"
    and "0 < numSATA h" "numMaxATAplus1 h \<le> 2 ^ 31" "length supp \<le> numSATA h"
    and "\<forall>n\<in>set supp. convertToTypename X (dec n) = Some n \<and> n \<le> numMaxATAplus1 h"
    and "conversions_read X" "reads_text X t1 (supported_xml (m_SMARTuniqueID sd) supp)"
      "reads_text X t2 (values_xml T sd)"
    and "GetSMARTvaluesAndUpdateUI False t X h u0 d0 s = Some s'"
    and "en_h E = h" "env_h (en_client E) = h" "dl_panels (ap_dialog A) = []"
    and "SMARTuniqueIDsAndValues (ap_client A) = ss_drives s'"
    and "wx_ReBuildUserInterface True E A = Some A1" "wx_UpdateSMARTvaluesUI TYPE('u::len) E A1 = Some A2"
  shows "\<exists>p. find_panel h (m_SMARTuniqueID sd) (ap_dialog A2) = Some p
    \<and> length (tb_lines (pn_list (dl_store (ap_dialog A2) ! p))) = length (sent_ids T sd)
    \<and> (\<forall>k<length (sent_ids T sd).
         let i = sent_ids T sd ! k; line = ln_text (tb_lines (pn_list (dl_store (ap_dialog A2) ! p)) ! k)
         in line 0 = dec i \<and> line (raw_col (busType u0)) = raw_text (en_client E) (busType u0) i (unat (sent_raw T sd i))
          \<and> line (time_col (busType u0))
              = FormatTime (env_w (en_client E)) (unat (received_ms X (value_xml T sd i))))"
proof -
  let ?ids = "sent_ids T sd" and ?e = "value_xml T sd"
  note t = SendSupported_one [OF assms(1)] assms(5)
    drive_text_nonempty [OF BeforeWait_one [OF assms(2)]] assms(6)
  obtain d where d: "ss_drives s' = [d]" "uid_key h (m_SMARTuniqueID d) = uid_key h (m_SMARTuniqueID sd)"
      "busType (m_SMARTuniqueID d) = busType u0"
      "length (SMART_IDsToRd (m_SMARTuniqueID d)) = numSATA h" "0 \<in> set (SMART_IDsToRd (m_SMARTuniqueID d))"
      "id_list (SMART_IDsToRd (m_SMARTuniqueID d)) = ?ids"
      "\<forall>i\<in>set ?ids. \<exists>b. m_SMARTattrs d i = received_attr X (?e i) (sent_raw T sd i) b
         \<and> length (rawParts b) = length (rawParts (m_SMARTattrs d0 i))
         \<and> length (timeStampOfRetrieval b) = length (timeStampOfRetrieval (m_SMARTattrs d0 i))"
    using service_drive_client [OF assms(7,11-14) assms(15-17) t assms(3,4) assms(8,9), of t] assms(18)
    by auto
  have wf: "wf_drive h (m_SMARTuniqueID d)"
    using d(4-6) sent_ids_props(2) [OF assms(7)] by (simp add: wf_drive_def)
  have ds: "SMARTuniqueIDsAndValues (ap_client A) = [d]" using assms(22) d(1) by simp
  have "\<exists>b. m_SMARTattrs d i = received_attr X (?e i) (sent_raw T sd i) b \<and> rawParts b \<noteq> []
      \<and> length (timeStampOfRetrieval b) = 1 \<and> received_ms X (?e i) \<noteq> 0" if i: "i \<in> set ?ids" for i
    using bspec [OF d(7) i] bspec [OF assms(10) i] by (metis length_0_conv)
  from one_drive_lines [OF assms(19-21) ds wf assms(23,24) d(6,3) this] show ?thesis
    by (simp only: find_panel_key [OF d(2)])
qed

text \<open>The example: the drive of the service with attribute 194, whose value is 30.\<close>

lemma app_state_calls_defined: "\<forall>c\<in>set cs. \<not> is_SetAttribute c \<Longrightarrow> \<exists>A'. app_calls E cs A = Some A'"
proof (induction cs arbitrary: A)
  case (Cons c cs)
  then obtain A1 where "app_call E c A = Some A1" by (cases c) (auto simp: app_call_def)
  then show ?case using Cons by auto
qed simp

lemma upd8_ratings:
  assumes "upd8rawAndH_andTime T E i d m = Some (r, calls)"
    and "successfullyReadSMARTrawValue (m_SMARTattrs d i) \<noteq> 0"
  shows "\<forall>c\<in>set calls. sa_col c \<noteq> None \<and> sa_rating c \<in> {r, rslt_val NoCriticalVal}"
  using assms
  by (auto simp: upd8rawAndH_andTime_def Let_def UpdateTimeOfSMARTvalueRetrieval_def split: if_splits prod.splits)

lemma upd8_194:
  fixes d :: "64 word SMARTuniqueIDandValues"
  assumes "busType (m_SMARTuniqueID d) = SATA" "units (m_SMARTuniqueID d) 194 = 0"
    and b: "m_SMARTattrs d 194 = received_attr X e 30 b" "rawParts b \<noteq> []" "length (timeStampOfRetrieval b) = 1"
    and "received_ms X e \<noteq> 0"
  shows "\<exists>calls. upd8rawAndH_andTime TYPE(64) env_example 194 d None = Some (1, calls)"
proof -
  have a: "IsConsistent TYPE(64) (m_SMARTattrs d 194) = (True, 30)"
    "GetRetrievalTime (m_SMARTattrs d 194) = (True, received_ms X e)"
    unfolding b(1) by (rule received_attr_read [OF b(2,3)])+
  have v: "successfullyReadSMARTrawValue (m_SMARTattrs d 194) = 1" "m_rawValue (m_SMARTattrs d 194) = 30"
    by (simp_all add: b(1))
  have "\<exists>p q. unitTexts env_example (m_SMARTuniqueID d) 194 30 None = Some (p, [], q, 30)"
    by (simp add: unitTexts_def useDeterminedUnits_def assms(1,2) GetUnMaskedValue_def env_example_def
        ATA_useDefaultUnit_def ATA_FmtHumanReadable_def std_ata_def std_ext_def)
  moreover have "GetSMARTattrValRtng TYPE(64) (env_h env_example) (env_A env_example)
      (env_nv env_example) (env_max env_example) 194 d 30 None = Some 1"
    by (simp add: GetSMARTattrValRtng_def assms(1) ATA_SMART_rtg_def ATA_SMART_own_Rtg_def shouldBeZero_def
        env_example_def std_ata_def RateAccDegCelsius_def minCritTempInDegC_def
        minWarnTempInDegC_def maxWarnTempInDegC_def BestRtgVal_def)
  ultimately show ?thesis using assms(6) by (auto simp: upd8rawAndH_andTime_def Let_def a v)
qed

lemma received_example: "received_ms sent_parser (value_xml TYPE(64) sent_example 194) = 1000"
  by (simp add: received_ms_def value_xml_def sent_example_values(2) sent_example_attrs numAttribute_def
      attribute_def sent_parser_def)

definition app_for :: "64 word SMARTuniqueIDandValues list \<Rightarrow> 64 word app" where
  "app_for ds = app_example (client_example\<lparr>SMARTuniqueIDsAndValues := ds\<rparr>)"

lemma app_for_facts:
  "en_h env_wx_example = std_sizes" "env_h (en_client env_wx_example) = std_sizes"
  "dl_panels (ap_dialog (app_for ds)) = []" "SMARTuniqueIDsAndValues (ap_client (app_for ds)) = ds"
  by (simp_all add: env_wx_example_def env_example_def app_for_def app_example_def dialog_example_def)

lemma env_wx_clients: "en_client env_wx_example = env_example" "en_model0 env_wx_example = mf_example"
  by (simp_all add: env_wx_example_def)

lemma example_update_defined:
  assumes "wf_drive std_sizes (m_SMARTuniqueID d)" "id_list (SMART_IDsToRd (m_SMARTuniqueID d)) = [194]"
    and "busType (m_SMARTuniqueID d) = SATA" "units (m_SMARTuniqueID d) 194 = 0"
    and b: "m_SMARTattrs d 194 = received_attr X e 30 b" "rawParts b \<noteq> []" "length (timeStampOfRetrieval b) = 1"
    and ms: "received_ms X e \<noteq> 0"
  shows "\<exists>A1 A2. wx_ReBuildUserInterface True env_wx_example (app_for [d]) = Some A1
    \<and> wx_UpdateSMARTvaluesUI TYPE(64) env_wx_example A1 = Some A2"
proof -
  let ?A = "app_for [d]" and ?u = "m_SMARTuniqueID d"
  obtain D1 p where D1: "wx_ReBuildUserInterface True env_wx_example ?A = Some (?A\<lparr>ap_dialog := D1\<rparr>)"
      "find_panel std_sizes ?u D1 = Some p" "p < length (dl_store D1)" "table_for [194] (pn_list (dl_store D1 ! p))"
    using one_drive_rebuilt [OF app_for_facts(1,3,4) assms(1)] assms(2) by auto
  obtain calls1 where c1: "upd8rawAndH_andTime TYPE(64) env_example 194 d None = Some (1, calls1)"
    using upd8_194 [OF assms(3,4) b ms] by blast
  have m: "getDataCarrierAttrDefs mf_example [] v = None" for v by (simp add: getDataCarrierAttrDefs_def)
  have "IDsToRead_from std_sizes ?u 0 = Some [194]"
    using IDsToRead_id_list [of ?u std_sizes] assms(1,2) by (simp add: wf_drive_def)
  then obtain c' calls where upd: "UpdateSMARTvaluesUI TYPE(64) env_example mf_example (ap_client ?A) = Some (c', calls)"
    by (auto simp: UpdateSMARTvaluesUI_def app_for_def app_example_def client_example_def env_example_def
        m [simplified] c1 [unfolded env_example_def])
  have h: "env_h env_example = std_sizes" by (simp add: env_example_def)
  obtain r cs cs' where cs: "upd8_attrs TYPE(64) env_example d None [194] Unknown = Some (r, cs)"
      and cs': "calls = cs @ cs'" "\<forall>c\<in>set cs'. \<not> is_SetAttribute c"
    using one_drive_calls [OF upd h app_for_facts(4) assms(1)] assms(2) m
    by (auto simp: app_for_def app_example_def client_example_def)
  then have cs1: "cs = calls1" using c1 by simp
  have col: "GetClrAccordng1toMns1Rng 1 \<noteq> None" "GetClrAccordng1toMns1Rng (rslt_val NoCriticalVal) \<noteq> None"
    by (simp_all add: GetClrAccordng1toMns1Rng_def)
  have "\<forall>c\<in>set cs. is_SetAttribute c \<and> sa_attr c \<in> set [194] \<and> sa_drive c = ?u \<and> sa_col c \<noteq> None
      \<and> GetClrAccordng1toMns1Rng (sa_rating c) \<noteq> None"
    using upd8_ratings [OF c1] upd8_attr [OF c1] upd8_SetAttribute [OF c1] b(1) col cs1 by auto
  then obtain A3 where "app_calls env_wx_example cs (?A\<lparr>ap_dialog := D1, ap_client := c'\<rparr>) = Some A3"
    using app_calls_defined [of env_wx_example ?u "?A\<lparr>ap_dialog := D1, ap_client := c'\<rparr>" p "[194]" cs] D1(2-4)
    by (auto simp: app_for_facts)
  moreover obtain A2 where "app_calls env_wx_example cs' A3 = Some A2" using app_state_calls_defined [OF cs'(2)] by blast
  ultimately have "wx_UpdateSMARTvaluesUI TYPE(64) env_wx_example (?A\<lparr>ap_dialog := D1\<rparr>) = Some A2"
    using upd by (simp add: wx_UpdateSMARTvaluesUI_def app_calls_append cs'(1) env_wx_clients)
  then show ?thesis using D1(1) by blast
qed

lemma receiver_attrs:
  "\<forall>i\<in>set (sent_ids TYPE(64) sent_example). rawParts (m_SMARTattrs receiver_example i) \<noteq> []
     \<and> length (timeStampOfRetrieval (m_SMARTattrs receiver_example i)) = 1
     \<and> received_ms sent_parser (value_xml TYPE(64) sent_example i) \<noteq> 0"
  by (simp add: sent_example_values(3) received_example receiver_example_def attr_example64_def)

lemma receiver_bus: "busType (m_SMARTuniqueID receiver_example) = SATA" "units (m_SMARTuniqueID sent_example) i = 0"
  by (simp_all add: receiver_example_def sent_example_def blank_uid_def initAttrVals_def)

theorem service_values_shown_witness:
  "\<exists>bs s' A1 A2 p. framing.encode_all wire_encode [string_bytes (fst sent_texts), string_bytes (snd sent_texts)] = Some bs
    \<and> GetSMARTvaluesAndUpdateUI False 7 sent_parser std_sizes (m_SMARTuniqueID receiver_example) receiver_example
        (session_example (bs @ [])) = Some s'
    \<and> wx_ReBuildUserInterface True env_wx_example (app_for (ss_drives s')) = Some A1
    \<and> wx_UpdateSMARTvaluesUI TYPE(64) env_wx_example A1 = Some A2
    \<and> find_panel std_sizes (m_SMARTuniqueID sent_example) (ap_dialog A2) = Some p
    \<and> length (tb_lines (pn_list (dl_store (ap_dialog A2) ! p))) = 1
    \<and> ln_text (tb_lines (pn_list (dl_store (ap_dialog A2) ! p)) ! 0) 4 = raw_text env_example SATA 194 30
    \<and> ln_text (tb_lines (pn_list (dl_store (ap_dialog A2) ! p)) ! 0) 8 = FormatTime 64 1000"
proof -
  obtain bs where bs: "framing.encode_all wire_encode
      [string_bytes (fst sent_texts), string_bytes (snd sent_texts)] = Some bs" by (rule sent_example_bytes)
  have sock: "ss_socket (session_example (bs @ [])) = bs @ []" by (simp add: session_example_def)
  note t = SendSupported_one [OF sent_example_supported] sent_texts_length(1)
    drive_text_nonempty [OF sent_example_text] sent_texts_length(2)
  obtain s' d b where s': "GetSMARTvaluesAndUpdateUI False 7 sent_parser std_sizes (m_SMARTuniqueID receiver_example)
        receiver_example (session_example (bs @ [])) = Some s'" "ss_drives s' = [d]"
      "busType (m_SMARTuniqueID d) = busType (m_SMARTuniqueID receiver_example)"
      "length (SMART_IDsToRd (m_SMARTuniqueID d)) = numSATA std_sizes" "0 \<in> set (SMART_IDsToRd (m_SMARTuniqueID d))"
      "id_list (SMART_IDsToRd (m_SMARTuniqueID d)) = [194]"
      "m_SMARTattrs d 194 = received_attr sent_parser (value_xml TYPE(64) sent_example 194) 30 b"
      "length (rawParts b) = length (rawParts (m_SMARTattrs receiver_example 194))"
      "length (timeStampOfRetrieval b) = length (timeStampOfRetrieval (m_SMARTattrs receiver_example 194))"
      "units (m_SMARTuniqueID d) 194 = units (m_SMARTuniqueID sent_example) 194"
    using service_drive_client [OF sent_example_values(4) example_sizes sent_parser_reads(3,1,2) t bs sock
        receiver_constructed, of 7]
    unfolding sent_example_values by auto
  have "wf_drive std_sizes (m_SMARTuniqueID d)" using s'(4-6) by (simp add: wf_drive_def)
  moreover have "rawParts b \<noteq> []" "length (timeStampOfRetrieval b) = 1"
    "received_ms sent_parser (value_xml TYPE(64) sent_example 194) \<noteq> 0"
    using s'(8,9) received_example receiver_attrs unfolding sent_example_values by auto
  ultimately obtain A1 A2 where A: "wx_ReBuildUserInterface True env_wx_example (app_for (ss_drives s')) = Some A1"
      "wx_UpdateSMARTvaluesUI TYPE(64) env_wx_example A1 = Some A2"
    using example_update_defined [of d sent_parser "value_xml TYPE(64) sent_example 194" b] s' receiver_bus by auto
  note shown = service_values_shown [OF sent_example_supported sent_example_wait bs sock sent_example_facts
      receiver_attrs example_sizes sent_parser_reads(3,1,2) s'(1) app_for_facts A]
  obtain p where p: "find_panel std_sizes (m_SMARTuniqueID sent_example) (ap_dialog A2) = Some p"
      "length (tb_lines (pn_list (dl_store (ap_dialog A2) ! p))) = 1"
      "ln_text (tb_lines (pn_list (dl_store (ap_dialog A2) ! p)) ! 0) (raw_col SATA) = raw_text env_example SATA 194 (unat (30 :: 64 word))"
      "ln_text (tb_lines (pn_list (dl_store (ap_dialog A2) ! p)) ! 0) (time_col SATA)
         = FormatTime (env_w env_example) (unat (1000 :: 64 word))"
    using shown unfolding sent_example_values receiver_bus env_wx_clients
    by (auto simp: received_example Let_def)
  then show ?thesis
    using bs s'(1) A by (intro exI [of _ bs] exI [of _ s'] exI [of _ A1] exI [of _ A2] exI [of _ p])
      (simp add: raw_col_def time_col_def env_example_def)
qed

end
