(* ===== verification/Spec2Isabelle.thy ===== *)
theory Spec2Isabelle
  imports AtaAccess WinAccess ConfigLoad OtherConfig ClientNet ServiceEnd WxWindow WxSupported WxConnectDlg ClientState TestClients
    EndToEnd ValuesShown
begin

text \<open>
  S.M.A.R.T. monitor: a verification development for the C++ program under
  \<open>src/src\<close>. All file names below are relative to that directory.

  \<^bold>\<open>The program.\<close> A drive keeps attributes (S.M.A.R.T. values) about its own
  health. The program reads them, estimates the unit of the raw values, rates
  them and shows them. It has three parts that work together:

  \<^item> access: a scan of the block devices identifies every drive, asks it for the
    attributes it supports, and reads those of them that are to be observed. The
    results are a \<open>std::set\<close> of drives with an array of attribute values each;

  \<^item> service: a process with the right to access the drives runs the scan
    periodically and sends the values as XML texts, framed by a 2 byte length,
    to its clients;

  \<^item> client: reads the values itself or from a service in an update thread,
    fills the tables of a user interface with raw values, units, readable texts
    and times, and colours them by the ratings.

  A configuration in XML files says which attributes exist, which are observed,
  which units a drive model has and where the service is.

  \<^bold>\<open>The theories\<close>, in the order of their imports.

  \<^item> \<open>Prelude\<close>, \<open>Hardware\<close>, \<open>CString\<close>: the types and generic facts all
    components share; the constants of the headers outside the repository (a
    record of sizes and of attribute IDs, with the values of the standard as an
    instance); C character arrays, \<open>strncpy\<close> and \<open>strcmp\<close>, and the ordered sets
    of the standard library with the locale \<open>strict_weak_order\<close>, which every
    comparison of the program (drives, models, definitions, IDs and names,
    paths, panels) is shown to satisfy.

  \<^item> \<open>UniqueID\<close> (\<open>attributes/SMARTuniqueID.hpp\<close>, \<open>.cpp\<close>): a drive's
    identification and its 0 terminated arrays of attribute IDs. The merge of the
    supported IDs with the IDs to read is their intersection; a drive put into a
    set is found by its identification.

  \<^item> \<open>UnitGuess\<close> (\<open>guessUnit\<close> in \<open>SMARTuniqueID.hpp\<close>): the estimator of the
    unit as a state machine on 64 bit words; an invariant ties its bounds to the
    true unit.

  \<^item> \<open>AttrValue\<close> (\<open>attributes/SMARTattr.hpp\<close>, \<open>SMARTattrVal.cpp\<close>,
    \<open>SMARTuniqueIDandValues\<close>): raw values and times of retrieval stored in parts
    of a \<open>long int\<close>, whose width is a type parameter. Round trips for 64 bit,
    what a reader between two writes can see for 32 bit.

  \<^item> \<open>AtaAccess\<close> (\<open>libATA_SMART/SMARTaccess.cpp\<close>): the scan of the devices, the
    identification, the supported attributes, and the callback that filters the
    attributes a device reports. The callback refines the abstract update ``the
    wanted attributes get what was reported, the wanted ones that were not
    reported are cleared''; the parse ends for every order of attributes; a
    complete scan keeps the containers well formed and reads the wanted
    attributes.

  \<^item> \<open>WinAccess\<close> (\<open>Windows/SMARTaccess.h\<close>): the scan on Windows and the raw
    values of NVMe drives, taken from the bytes of the health information log.
    The scan is a loop without a bound; it is shown to end.

  \<^item> \<open>Float32\<close>, \<open>ModelFirmware\<close>, \<open>Rater\<close> (\<open>SMARTvalueRater.hpp\<close>,
    \<open>attributes/ModelAndFirmware.hpp\<close>): the rating. \<open>float\<close> is computed exactly
    and then rounded to the nearest binary32 number, ties to even; the locale
    \<open>rounding\<close> holds what the proofs use of that and is interpreted by the
    function the model computes with.

  \<^item> \<open>Decimal\<close>, \<open>TimeFmt\<close>, \<open>Formatter\<close>, \<open>RealValue\<close>
    (\<open>UserInterface/UserInterface.cpp\<close>, \<open>SMARTvalueFormatter.hpp\<close>, \<open>.cpp\<close>,
    \<open>getRealValue\<close>): the texts shown for numbers, times and temperatures, with
    readers that give back what was shown.

  \<^item> \<open>AttrDefs\<close> (\<open>attributes/SMARTattrDef.hpp\<close>, \<open>SMARTattrDefAccss.hpp\<close>): the
    tables of attribute definitions and the lookup of drive models.

  \<^item> \<open>ClientUI\<close> (\<open>client/SMARTmonitorClient.cpp\<close>): which cells an update of the
    values sets and which state of all drives it computes. The virtual functions
    of the user interface are recorded calls.

  \<^item> \<open>MonitorBase\<close> (\<open>SMARTmonitorBase.cpp\<close>): command line, configuration
    paths, the initialisation over the four configuration files.

  \<^item> \<open>BaseState\<close> (\<open>SMARTmonitorBase.cpp\<close>, \<open>.hpp\<close>): construction, the text about
    the options, messages, the log file, the wait between two reads, the reads
    of a program with direct access. The command line and the logger are composed.

  \<^item> \<open>UpdateThread\<close>: the loop that gets the values and
    \<open>EndUpdateUIthread\<close> as interleaved steps; every run ends.

  \<^item> \<open>ServiceEnd\<close> (\<open>service/service_main.cpp\<close>, \<open>AfterGetSMARTvaluesLoop\<close>): what
    signals do to the programs, and the end of the service's two threads as
    interleaved steps with an invariant and a rank; also how they end wrongly,
    and why the service did not end when \<open>main\<close> still called \<open>WaitForSignal\<close>.

  \<^item> \<open>ConfigLoad\<close> (\<open>tinyxml2/ConfigLoader.cpp\<close>): what of the XML files gets
    into the tables, the IDs to observe, the units and the connection settings,
    and the composition with the initialisation of \<open>MonitorBase\<close>.

  \<^item> \<open>OtherConfig\<close> (\<open>libConfig/ConfigurationLoader.cpp\<close>,
    \<open>Windows/ConfigurationLoader.cpp\<close>): the loaders for libconfig and for INI
    files, and what of a file each of them takes over.

  \<^item> \<open>Wire\<close>, \<open>Service\<close>, \<open>XmlData\<close> (\<open>service/SMARTmonitorService.cpp\<close>,
    \<open>client/InterProcComm/BSDskt/SMARTmonUI_BSDskt.cpp\<close>,
    \<open>tinyxml2/ProcessSMARTdata.cpp\<close>): messages, their framing (the locale
    \<open>framing\<close>, interpreted by the program's functions), the XML texts the service
    writes and how the client reads them back.

  \<^item> \<open>ClientNet\<close> (\<open>SMARTmonUI_BSDskt.cpp\<close>): connecting, the set up of a session
    from the bytes of the service, retries.

  \<^item> \<open>EndToEnd\<close>, \<open>ValuesShown\<close>: the composition of the parts. What the service
    sends of a drive, with the frames around the two texts, gives a client this
    drive, with its values, units and the attributes to read; and the window of
    the client with wxWidgets then has a line for each of these attributes, with
    the service's raw value and time in it.

  \<^item> \<open>AttrView\<close>: the locale \<open>attr_view\<close> says what a view of attributes promises
    when cells are set in it, and what is seen after many of them; it is
    interpreted by the table of wxWidgets and by the lines of the terminal.

  \<^item> \<open>WxTable\<close>, \<open>WxColumns\<close>, \<open>WxDialog\<close>, \<open>WxApp\<close>, \<open>WxWindow\<close>, \<open>WxSupported\<close>,
    \<open>WxConnect\<close>, \<open>WxConnectDlg\<close> (\<open>wxWidgets/\<close>): the tables, their columns,
    colours and panels of the drives, the application with its queue of events,
    the main window with its buttons and its end, the icon in the task bar, the
    window of the supported attributes, and the dialog to connect with its
    countdowns, fields and events.

  \<^item> \<open>Curses\<close>, \<open>CursesDialog\<close> (\<open>curses/\<close>): the table in the terminal, with the
    documented effect of the calls of curses as a hypothesis, and its menus,
    dialogs and start.

  \<^item> \<open>ClientState\<close>: the state the constructors of a client leave, and the text of
    the time of the last update, as both user interfaces show it.

  \<^item> \<open>TestClients\<close> (\<open>tests/\<close>): the minimal client on the messages of \<open>Wire\<close>, and
    the programs that list the attributes of a drive, on the access of \<open>WinAccess\<close>.

  \<^bold>\<open>How the code is represented.\<close> A class is a record, an array a list of the
  array's size, \<open>std::set\<close> and \<open>std::map\<close> lists kept in order by the program's
  own comparison, an unsigned machine integer a word, where wrap-around matters
  of the width the type has on the platform. A \<open>float\<close> is a rational number,
  rounded after each operation. An effect outside the process is an element of a
  list of calls in the state. \<open>None\<close> stands for behaviour the language does not
  define (a NULL pointer that is used, a conversion out of range), so that a
  statement with \<open>Some\<close> also says that it does not occur. Log output is left out.
  Loops are structural recursions or have a measure, except those over the
  drives on Windows, over the prefixes of a number, over the keys of the dialog
  in the terminal, the thread the main window does not use and the minimal
  client's, which are partial functions; no definition uses fuel.

  \<^bold>\<open>Parameters.\<close> Code outside the repository is an argument of the definitions:
  the answers of libatasmart and the list of block devices in \<open>AtaAccess\<close>, those
  of the Windows API in \<open>WinAccess\<close>; the
  tree of elements tinyxml2 returns and its number conversions in \<open>ConfigLoad\<close>
  and \<open>XmlData\<close>; the results of \<open>connect\<close> and \<open>select\<close> in \<open>ClientNet\<close>; the
  function that reads from a socket in \<open>Wire\<close> and \<open>TestClients\<close> (elsewhere a
  socket is the list of the bytes the reads deliver, up to one that is short); prefixes of SI units and times in \<open>Formatter\<close>; settings of
  libconfig and entries of INI files in \<open>OtherConfig\<close>; widths of texts in
  \<open>WxColumns\<close>; what a call of curses does to the terminal in \<open>Curses\<close>; the logger
  and the names of its levels in \<open>BaseState\<close>. What a
  statement needs of them is a hypothesis, and the witness after it discharges
  it for a concrete function.

  \<^bold>\<open>What is not as it seems to be intended\<close> is stated as a theorem where it
  concerns the model: the rating below the threshold, the state of all drives
  that is never ``OK'', the attribute definitions lost in the initialisation, the
  panel that is missing after a rebuild, the libconfig file that cannot be loaded,
  \<open>main\<close> of the service that does not wait for its thread, the connection that succeeds at once,
  the messages of the service that repeat all drives before, the button to
  connect that shows a drive, the headings of the NVMe table, the line in the
  terminal that two attributes share, the service that spins after a failed read,
  and the minimal client that never ends on a failed connection.

  \<^bold>\<open>Not modelled, and why.\<close>

  \<^item> \<open>FmtVia_snprintf\<close> is not used and appends to a buffer without contents;
    \<open>getDataPtr\<close> points into the limbs of a number of the library boost.

  \<^item> \<open>ConstructConfigFilePathFromExeFilePath\<close> computes a path in a local variable
    and drops it.

  \<^item> sizes, fonts and positions of widgets beside the columns of the tables, and
    handlers of events that are declared but have no body in the repository.

  \<^item> \<open>libConfig/\<close> returns a pointer into an object that is destroyed before the
    pointer is used: the model of the whole function is \<open>None\<close> for a file that can
    be read, and the statements behind it are modelled for settings that exist.
    The terminal user interface and both older loaders are written against members
    the base classes no longer have; these are part of the model's state.

  \<^item> of the programs under \<open>tests/\<close> the processing of the command line by the
    library \<open>cxxopts\<close>, \<open>main\<close> of the derived client, which uses members that no
    longer exist, and \<open>SMART_test.cpp\<close>, which prints all fields of libatasmart.
\<close>

end
